(* ===== verification/Base.thy ===== *)
theory Base
  imports Main "HOL-Library.Word" "HOL-Library.AList"
begin

text \<open>
  The vocabulary every other theory shares: the machine integers of the code, the
  collections of hints (\<open>frame\<close> for facts that an operation leaves a field alone,
  \<open>layout\<close> for the numeric offsets of the packed structures), and the model of
  \<open>std::unordered_map\<close>.

  The laws of an unordered map are the locale \<open>assoc_map\<close>; \<open>unordered_map\<close> extends it with
  the keys a loop visits.  A map the code never iterates over is a HOL map; one it iterates
  over is an association list whose order is the iteration order, which the C++ standard
  leaves open, so every fact about a loop is proved for any list.  Both locales are
  interpreted here.
\<close>

type_synonym u8 = "8 word"
type_synonym u16 = "16 word"
type_synonym u32 = "32 word"
type_synonym u64 = "64 word"

named_theorems frame
named_theorems layout

section \<open>The interface of an unordered map\<close>

locale assoc_map =
  fixes lookup :: "'m \<Rightarrow> 'k \<Rightarrow> 'v option"
    and place :: "'m \<Rightarrow> 'k \<Rightarrow> 'v \<Rightarrow> 'm"
    and assign :: "'m \<Rightarrow> 'k \<Rightarrow> 'v \<Rightarrow> 'm"
    and remove :: "'m \<Rightarrow> 'k \<Rightarrow> 'm"
    and ok :: "'m \<Rightarrow> bool"
  assumes lookup_place:
      "ok m \<Longrightarrow> lookup (place m k v) k' =
        (if k' = k \<and> lookup m k = None then Some v else lookup m k')"
    and lookup_assign: "ok m \<Longrightarrow> lookup (assign m k v) k' = (if k' = k then Some v else lookup m k')"
    and lookup_remove: "ok m \<Longrightarrow> lookup (remove m k) k' = (if k' = k then None else lookup m k')"
    and ok_place: "ok m \<Longrightarrow> ok (place m k v)"
    and ok_assign: "ok m \<Longrightarrow> ok (assign m k v)"
    and ok_remove: "ok m \<Longrightarrow> ok (remove m k)"
begin

lemma place_present: "ok m \<Longrightarrow> lookup m k = Some w \<Longrightarrow> lookup (place m k v) k' = lookup m k'"
  by (simp add: lookup_place)

lemma lookup_placeD:
  "ok m \<Longrightarrow> lookup (place m k v) k' = Some w \<Longrightarrow> lookup m k' = Some w \<or> (k' = k \<and> w = v)"
  by (simp add: lookup_place split: if_splits)

lemma lookup_removeD: "ok m \<Longrightarrow> lookup (remove m k) k' = Some w \<Longrightarrow> lookup m k' = Some w"
  by (simp add: lookup_remove split: if_splits)

text \<open>Erasing a run of keys, as the loops over a map do.\<close>

lemma ok_remove_all: "ok m \<Longrightarrow> ok (fold (\<lambda>k m. remove m k) ks m)"
  by (induction ks arbitrary: m) (auto simp: ok_remove)

lemma lookup_remove_all:
  "ok m \<Longrightarrow> lookup (fold (\<lambda>k m. remove m k) ks m) k =
    (if k \<in> set ks then None else lookup m k)"
  by (induction ks arbitrary: m) (auto simp: ok_remove lookup_remove)

end

locale unordered_map = assoc_map lookup place assign remove ok
  for lookup :: "'m \<Rightarrow> 'k \<Rightarrow> 'v option" and place and assign and remove and ok +
  fixes keys :: "'m \<Rightarrow> 'k list"
  assumes keys_iff: "ok m \<Longrightarrow> k \<in> set (keys m) \<longleftrightarrow> lookup m k \<noteq> None"
    and keys_distinct: "ok m \<Longrightarrow> distinct (keys m)"
begin

lemma keys_remove: "ok m \<Longrightarrow> set (keys (remove m k)) = set (keys m) - {k}"
  by (auto simp: keys_iff ok_remove lookup_remove split: if_splits)

lemma keys_place: "ok m \<Longrightarrow> set (keys (place m k v)) = insert k (set (keys m))"
  by (auto simp: keys_iff ok_place lookup_place split: if_splits)

end

section \<open>The association list that implements it\<close>

definition um_find :: "('k \<times> 'v) list \<Rightarrow> 'k \<Rightarrow> 'v option" where
  "um_find m k = map_of m k"

text \<open>\<open>emplace\<close> inserts only if the key is absent.\<close>

definition um_emplace :: "('k \<times> 'v) list \<Rightarrow> 'k \<Rightarrow> 'v \<Rightarrow> ('k \<times> 'v) list" where
  "um_emplace m k v = (if map_of m k = None then m @ [(k, v)] else m)"

definition um_assign :: "('k \<times> 'v) list \<Rightarrow> 'k \<Rightarrow> 'v \<Rightarrow> ('k \<times> 'v) list" where
  "um_assign m k v = AList.update k v m"

definition um_erase :: "('k \<times> 'v) list \<Rightarrow> 'k \<Rightarrow> ('k \<times> 'v) list" where
  "um_erase m k = filter (\<lambda>p. fst p \<noteq> k) m"

definition um_keys :: "('k \<times> 'v) list \<Rightarrow> 'k list" where
  "um_keys m = map fst m"

definition um_ok :: "('k \<times> 'v) list \<Rightarrow> bool" where
  "um_ok m \<longleftrightarrow> distinct (map fst m)"

lemma map_of_filter_key: "map_of (filter (\<lambda>p. fst p \<noteq> k) m) k' = (if k' = k then None else map_of m k')"
  by (induction m) auto

lemma distinct_map_fst_filter: "distinct (map fst m) \<Longrightarrow> distinct (map fst (filter P m))"
  by (induction m) auto

interpretation um: unordered_map um_find um_emplace um_assign um_erase um_ok um_keys
proof unfold_locales
  fix m :: "('k \<times> 'v) list" and k k' v
  assume ok: "um_ok m"
  show "um_find (um_emplace m k v) k' = (if k' = k \<and> um_find m k = None then Some v else um_find m k')"
    by (auto simp: um_find_def um_emplace_def map_add_def split: option.splits)
  show "um_find (um_assign m k v) k' = (if k' = k then Some v else um_find m k')"
    by (simp add: um_find_def um_assign_def update_conv)
  show "um_find (um_erase m k) k' = (if k' = k then None else um_find m k')"
    by (simp add: um_find_def um_erase_def map_of_filter_key)
  show "k \<in> set (um_keys m) \<longleftrightarrow> um_find m k \<noteq> None"
    by (auto simp: um_keys_def um_find_def map_of_eq_None_iff)
  show "distinct (um_keys m)"
    using ok by (simp add: um_ok_def um_keys_def)
  show "um_ok (um_emplace m k v)"
    using ok by (auto simp: um_ok_def um_emplace_def map_of_eq_None_iff)
  show "um_ok (um_assign m k v)"
    using ok by (simp add: um_ok_def um_assign_def distinct_update)
  show "um_ok (um_erase m k)"
    using ok by (simp add: um_ok_def um_erase_def distinct_map_fst_filter)
qed

lemma um_ok_Nil [simp]: "um_ok []"
  by (simp add: um_ok_def)

lemma um_find_Nil [simp]: "um_find [] k = None"
  by (simp add: um_find_def)

lemma um_find_Cons [simp]: "um_find ((k, v) # m) k' = (if k' = k then Some v else um_find m k')"
  by (simp add: um_find_def)

lemma um_find_in_set: "um_find m k = Some v \<Longrightarrow> (k, v) \<in> set m"
  by (simp add: um_find_def map_of_SomeD)

lemma um_in_set_find: "um_ok m \<Longrightarrow> (k, v) \<in> set m \<Longrightarrow> um_find m k = Some v"
  by (simp add: um_ok_def um_find_def)

lemma um_set_iff: "um_ok m \<Longrightarrow> (k, v) \<in> set m \<longleftrightarrow> um_find m k = Some v"
  by (auto intro: um_in_set_find um_find_in_set)

lemma um_values_iff: "um_ok m \<Longrightarrow> v \<in> snd ` set m \<longleftrightarrow> (\<exists>k. um_find m k = Some v)"
proof -
  assume ok: "um_ok m"
  have "v \<in> snd ` set m \<longleftrightarrow> (\<exists>k. (k, v) \<in> set m)" by force
  then show ?thesis by (simp add: um_set_iff [OF ok])
qed

lemma um_erase_subset: "set (um_erase m k) \<subseteq> set m"
  by (auto simp: um_erase_def)

lemmas um_laws = um.lookup_place um.lookup_assign um.lookup_remove
  um.ok_place um.ok_assign um.ok_remove

lemmas um_eval = um_find_def um_emplace_def um_assign_def um_erase_def um_keys_def um_ok_def

section \<open>Maps that are never iterated over\<close>

definition fm_find :: "('k \<rightharpoonup> 'v) \<Rightarrow> 'k \<Rightarrow> 'v option" where
  "fm_find m k = m k"

definition fm_emplace :: "('k \<rightharpoonup> 'v) \<Rightarrow> 'k \<Rightarrow> 'v \<Rightarrow> ('k \<rightharpoonup> 'v)" where
  "fm_emplace m k v = (if m k = None then m(k \<mapsto> v) else m)"

definition fm_assign :: "('k \<rightharpoonup> 'v) \<Rightarrow> 'k \<Rightarrow> 'v \<Rightarrow> ('k \<rightharpoonup> 'v)" where
  "fm_assign m k v = m(k \<mapsto> v)"

definition fm_erase :: "('k \<rightharpoonup> 'v) \<Rightarrow> 'k \<Rightarrow> ('k \<rightharpoonup> 'v)" where
  "fm_erase m k = m(k := None)"

interpretation fm: assoc_map fm_find fm_emplace fm_assign fm_erase "\<lambda>_. True"
  by unfold_locales (auto simp: fm_find_def fm_emplace_def fm_assign_def fm_erase_def)

lemmas fm_laws = fm.lookup_place [OF TrueI] fm.lookup_assign [OF TrueI] fm.lookup_remove [OF TrueI]

lemmas fm_eval = fm_find_def fm_emplace_def fm_assign_def fm_erase_def

section \<open>Reachable states\<close>

inductive reach :: "('s \<Rightarrow> bool) \<Rightarrow> ('s \<Rightarrow> 's \<Rightarrow> bool) \<Rightarrow> 's \<Rightarrow> bool"
  for init :: "'s \<Rightarrow> bool" and step :: "'s \<Rightarrow> 's \<Rightarrow> bool" where
  reach_init: "init s \<Longrightarrow> reach init step s"
| reach_step: "reach init step s \<Longrightarrow> step s t \<Longrightarrow> reach init step t"

text \<open>The contract of a machine with an invariant; each machine of the development provides it.\<close>

locale invariant_system =
  fixes init :: "'s \<Rightarrow> bool"
    and step :: "'s \<Rightarrow> 's \<Rightarrow> bool"
    and inv :: "'s \<Rightarrow> bool"
  assumes inv_init: "init s \<Longrightarrow> inv s"
    and inv_step: "inv s \<Longrightarrow> step s t \<Longrightarrow> inv t"
begin

lemma inv_reach: "reach init step s \<Longrightarrow> inv s"
  by (induction rule: reach.induct) (auto intro: inv_init inv_step)

lemma inv_steps: "rtranclp step s t \<Longrightarrow> inv s \<Longrightarrow> inv t"
  by (induction rule: rtranclp_induct) (auto intro: inv_step)

end

section \<open>Runs and their refinement\<close>

fun runs :: "('l \<Rightarrow> 's \<Rightarrow> bool) \<Rightarrow> ('l \<Rightarrow> 's \<Rightarrow> 's) \<Rightarrow> 's \<Rightarrow> 'l list \<Rightarrow> 's \<Rightarrow> bool" where
  "runs can act s [] t \<longleftrightarrow> s = t"
| "runs can act s (l # ls) t \<longleftrightarrow> can l s \<and> runs can act (act l s) ls t"

text \<open>What a concrete run looks like from outside.\<close>

fun observed :: "('s \<Rightarrow> 'l \<Rightarrow> 'm) \<Rightarrow> ('l \<Rightarrow> 's \<Rightarrow> 's) \<Rightarrow> 's \<Rightarrow> 'l list \<Rightarrow> 'm list" where
  "observed obs act s [] = []"
| "observed obs act s (l # ls) = obs s l # observed obs act (act l s) ls"

text \<open>
  The contract of a refinement: every step of the concrete machine is exactly the step of the abstract
  one that a function of the state and of what happens names.
\<close>

locale labelled_refinement =
  fixes can :: "'l \<Rightarrow> 's \<Rightarrow> bool" and act :: "'l \<Rightarrow> 's \<Rightarrow> 's" and inv :: "'s \<Rightarrow> bool"
    and a_can :: "'m \<Rightarrow> 'a \<Rightarrow> bool" and a_act :: "'m \<Rightarrow> 'a \<Rightarrow> 'a"
    and abs :: "'s \<Rightarrow> 'a" and obs :: "'s \<Rightarrow> 'l \<Rightarrow> 'm"
  assumes keeps: "inv s \<Longrightarrow> can l s \<Longrightarrow> inv (act l s)"
    and allowed: "inv s \<Longrightarrow> can l s \<Longrightarrow> a_can (obs s l) (abs s)"
    and commutes: "inv s \<Longrightarrow> can l s \<Longrightarrow> abs (act l s) = a_act (obs s l) (abs s)"
begin

lemma run_refines: "inv s \<Longrightarrow> runs can act s ls t \<Longrightarrow> runs a_can a_act (abs s) (observed obs act s ls) (abs t)"
proof (induction ls arbitrary: s)
  case (Cons l ls)
  then have "inv (act l s)" "runs can act (act l s) ls t" by (simp_all add: keeps)
  from Cons.IH [OF this] show ?case using Cons.prems by (simp add: allowed commutes)
qed simp

lemma run_keeps: "inv s \<Longrightarrow> runs can act s ls t \<Longrightarrow> inv t"
proof (induction ls arbitrary: s)
  case (Cons l ls)
  then show ?case using Cons.IH [of "act l s"] by (simp add: keeps)
qed simp

end

end
