(* ===== verification/Ownership.thy ===== *)
theory Ownership
  imports Base
begin

text \<open>
  At most one server: the constructor, the start of \<open>run\<close> and the destructor of \<open>WebsocketProxy\<close>
  (\<open>src/websocket_proxy.cpp\<close>) compete for the process id in a named shared mapping.  The system is
  the mapping (\<open>None\<close> when no process holds it) and the phase of every process, numbered by its pid;
  every access to the mapping is one step, and a process may be killed at any moment.  A pid is used
  once.  The mapping comes into being zeroed and lasts as long as some process holds it.
\<close>

section \<open>Processes and their steps\<close>

text \<open>
  \<open>Built own\<close> has finished the constructor; \<open>Waiting w\<close> has read the pid \<open>w\<close> of another owner and
  sleeps; \<open>Claiming e\<close> is about to exchange \<open>e\<close> for its own pid; \<open>Serving own\<close> is past the check.
\<close>

datatype phase = Absent | Creating | Built bool | Waiting u64 | Claiming u64 | Serving bool | Gone

record owner_sys =
  owner_pid :: "u64 option"
  procs :: "u64 \<Rightarrow> phase"

definition set_proc :: "u64 \<Rightarrow> phase \<Rightarrow> owner_sys \<Rightarrow> owner_sys" where
  "set_proc p ph s = s\<lparr>procs := (procs s)(p := ph)\<rparr>"

definition alive :: "owner_sys \<Rightarrow> u64 \<Rightarrow> bool" where
  "alive s p \<longleftrightarrow> procs s p \<noteq> Absent \<and> procs s p \<noteq> Gone"

text \<open>
  What the system answers when it is asked for a process: the process cannot be opened (there is none with
  this pid, or access to it is denied), its exit code cannot be obtained, or its exit code, which is
  \<open>STILL_ACTIVE\<close> while it runs.
\<close>

datatype query = NotOpened | NoExitCode | ExitCode u32

definition STILL_ACTIVE :: u32 where
  "STILL_ACTIVE = 259"

fun isProcessRunning :: "query \<Rightarrow> bool" where
  "isProcessRunning NotOpened \<longleftrightarrow> False"
| "isProcessRunning NoExitCode \<longleftrightarrow> False"
| "isProcessRunning (ExitCode c) \<longleftrightarrow> c = STILL_ACTIVE"

text \<open>The system does not lie about a process it could ask, but it may fail to ask.\<close>

definition os_answer :: "owner_sys \<Rightarrow> u64 \<Rightarrow> query \<Rightarrow> bool" where
  "os_answer s w a \<longleftrightarrow> (\<forall>c. a = ExitCode c \<longrightarrow> alive s w \<longrightarrow> c = STILL_ACTIVE)"

definition query_failed :: "query \<Rightarrow> bool" where
  "query_failed a \<longleftrightarrow> a = NotOpened \<or> a = NoExitCode"

definition create_mapping :: "u64 \<Rightarrow> owner_sys \<Rightarrow> owner_sys" where
  "create_mapping p s = (case owner_pid s of
     None \<Rightarrow> set_proc p Creating (s\<lparr>owner_pid := Some 0\<rparr>)
   | Some _ \<Rightarrow> set_proc p (Built False) s)"

definition init_owner :: "u64 \<Rightarrow> owner_sys \<Rightarrow> owner_sys" where
  "init_owner p s = set_proc p (Built True) (s\<lparr>owner_pid := Some p\<rparr>)"

definition run_load :: "u64 \<Rightarrow> bool \<Rightarrow> owner_sys \<Rightarrow> owner_sys" where
  "run_load p own s =
     (if own then set_proc p (Serving True) s
      else (case owner_pid s of
        None \<Rightarrow> s
      | Some w \<Rightarrow> set_proc p (if w \<noteq> 0 then Waiting w else Claiming 0) s))"

definition run_wait :: "u64 \<Rightarrow> u64 \<Rightarrow> query \<Rightarrow> owner_sys \<Rightarrow> owner_sys" where
  "run_wait p w a s = set_proc p (if isProcessRunning a then Gone else Claiming w) s"

text \<open>One \<open>compare_exchange_strong\<close>; on failure it loads the pid it found.\<close>

definition run_claim :: "u64 \<Rightarrow> u64 \<Rightarrow> owner_sys \<Rightarrow> owner_sys" where
  "run_claim p e s = (case owner_pid s of
     None \<Rightarrow> s
   | Some w \<Rightarrow>
       if w = e then set_proc p (Serving False) (s\<lparr>owner_pid := Some p\<rparr>)
       else set_proc p (if w \<noteq> 0 then Gone else Claiming w) s)"

definition destroy :: "u64 \<Rightarrow> bool \<Rightarrow> owner_sys \<Rightarrow> owner_sys" where
  "destroy p own s = set_proc p Gone (if own then s\<lparr>owner_pid := Some 0\<rparr> else s)"

inductive owner_step :: "owner_sys \<Rightarrow> owner_sys \<Rightarrow> bool" where
  os_create: "procs s p = Absent \<Longrightarrow> p \<noteq> 0 \<Longrightarrow> owner_step s (create_mapping p s)"
| os_init: "procs s p = Creating \<Longrightarrow> owner_step s (init_owner p s)"
| os_load: "procs s p = Built own \<Longrightarrow> owner_step s (run_load p own s)"
| os_wait: "procs s p = Waiting w \<Longrightarrow> os_answer s w a \<Longrightarrow> owner_step s (run_wait p w a s)"
| os_claim: "procs s p = Claiming e \<Longrightarrow> owner_step s (run_claim p e s)"
| os_destroy: "procs s p = Serving own \<Longrightarrow> owner_step s (destroy p own s)"
| os_kill: "alive s p \<Longrightarrow> owner_step s (set_proc p Gone s)"
| os_unmap: "\<forall>p. \<not> alive s p \<Longrightarrow> owner_step s (s\<lparr>owner_pid := None\<rparr>)"

inductive_cases owner_stepE: "owner_step s t"

definition nobody :: owner_sys where
  "nobody = \<lparr>owner_pid = None, procs = (\<lambda>_. Absent)\<rparr>"

definition owner_init :: "owner_sys \<Rightarrow> bool" where
  "owner_init s \<longleftrightarrow> s = nobody"

lemmas owner_defs = create_mapping_def init_owner_def run_load_def run_wait_def run_claim_def
  destroy_def set_proc_def

section \<open>Orderly runs\<close>

text \<open>
  The constructor creates the mapping and stores its pid in two steps.  A run is orderly if no
  other process is about while one is between them, and if no query for a process that is running fails.
\<close>

definition orderly :: "owner_sys \<Rightarrow> bool" where
  "orderly s \<longleftrightarrow> (\<forall>p q. procs s p = Creating \<longrightarrow> q \<noteq> p \<longrightarrow> \<not> alive s q)"

definition orderly_step :: "owner_sys \<Rightarrow> owner_sys \<Rightarrow> bool" where
  "orderly_step s t \<longleftrightarrow> owner_step s t \<and> orderly t \<and>
     \<not> (\<exists>p w a. procs s p = Waiting w \<and> alive s w \<and> query_failed a \<and> t = run_wait p w a s)"

lemma orderly_stepI:
  assumes "owner_step s t" and "orderly t"
    and "\<And>p w. procs s p = Waiting w \<Longrightarrow> alive s w \<Longrightarrow> procs t p \<noteq> Claiming w"
  shows "orderly_step s t"
proof -
  have "\<not> (\<exists>p w a. procs s p = Waiting w \<and> alive s w \<and> query_failed a \<and> t = run_wait p w a s)"
  proof
    assume "\<exists>p w a. procs s p = Waiting w \<and> alive s w \<and> query_failed a \<and> t = run_wait p w a s"
    then obtain p w a where w: "procs s p = Waiting w" "alive s w" "query_failed a" "t = run_wait p w a s" by blast
    then have "procs t p = Claiming w" by (auto simp: run_wait_def set_proc_def query_failed_def)
    with assms(3) [OF w(1,2)] show False by blast
  qed
  with assms(1,2) show ?thesis by (simp add: orderly_step_def)
qed

definition held :: "owner_sys \<Rightarrow> bool" where
  "held s \<longleftrightarrow> (\<forall>p. alive s p \<longrightarrow> owner_pid s \<noteq> None)"

definition owner_known :: "owner_sys \<Rightarrow> bool" where
  "owner_known s \<longleftrightarrow> procs s 0 = Absent \<and>
     (\<forall>w. owner_pid s = Some w \<longrightarrow> w \<noteq> 0 \<longrightarrow> procs s w \<noteq> Absent) \<and>
     (\<forall>p w. procs s p = Waiting w \<longrightarrow> w \<noteq> 0 \<and> procs s w \<noteq> Absent) \<and>
     (\<forall>p e. procs s p = Claiming e \<longrightarrow> e \<noteq> 0 \<longrightarrow> procs s e = Gone)"

definition owner_right :: "owner_sys \<Rightarrow> bool" where
  "owner_right s \<longleftrightarrow>
     (\<forall>p b. procs s p = Serving b \<or> procs s p = Built True \<longrightarrow> owner_pid s = Some p)"

definition owner_inv :: "owner_sys \<Rightarrow> bool" where
  "owner_inv s \<longleftrightarrow> orderly s \<and> held s \<and> owner_known s \<and> owner_right s"

text \<open>What one step can change.\<close>

lemma step_keeps:
  assumes "owner_step s t"
  shows "procs s w = Gone \<Longrightarrow> procs t w = Gone" and "procs s w \<noteq> Absent \<Longrightarrow> procs t w \<noteq> Absent"
    and "procs s 0 = Absent \<Longrightarrow> procs t 0 = Absent"
  using assms by (auto elim!: owner_stepE simp: alive_def owner_defs split: option.splits if_splits)

lemma step_owner:
  assumes "owner_step s t" and "owner_pid t = Some w"
  shows "owner_pid s = Some w \<or> w = 0 \<or> procs t w \<noteq> Absent"
  using assms by (auto elim!: owner_stepE simp: owner_defs split: option.splits if_splits)

lemma step_unowned:
  assumes "owner_step s t" and "owner_pid t = None"
  shows "procs t = procs s \<and> (\<forall>q. \<not> alive s q) \<or> owner_pid s = None \<and> (\<exists>q. alive s q)"
  using assms(1)
proof (cases rule: owner_step.cases)
  case (os_load p own)
  then have "alive s p" by (simp add: alive_def)
  with os_load assms(2) show ?thesis by (auto simp: owner_defs split: option.splits if_splits)
next
  case (os_wait p w a)
  then have "alive s p" by (simp add: alive_def)
  with os_wait assms(2) show ?thesis by (auto simp: owner_defs)
next
  case (os_claim p e)
  then have "alive s p" by (simp add: alive_def)
  with os_claim assms(2) show ?thesis by (auto simp: owner_defs split: option.splits if_splits)
next
  case (os_destroy p own)
  then have "alive s p" by (simp add: alive_def)
  with os_destroy assms(2) show ?thesis by (auto simp: owner_defs split: if_splits)
qed (use assms(2) in \<open>auto simp: owner_defs split: option.splits\<close>)

lemma step_waiting:
  assumes "owner_step s t" and "procs t p = Waiting w"
  shows "procs s p = Waiting w \<or> owner_pid s = Some w \<and> w \<noteq> 0"
  using assms by (auto elim!: owner_stepE simp: owner_defs split: option.splits if_splits)

lemma step_claiming:
  assumes "owner_step s t" and "procs t p = Claiming e" and "e \<noteq> 0"
  shows "procs s p = Claiming e \<or>
    procs s p = Waiting e \<and> (\<exists>a. os_answer s e a \<and> \<not> isProcessRunning a \<and> t = run_wait p e a s)"
  using assms(1)
proof (cases rule: owner_step.cases)
  case (os_wait q w a)
  then show ?thesis using assms(2)
    by (cases "q = p") (auto simp: set_proc_def run_wait_def split: if_splits)
qed (use assms(2,3) in \<open>auto simp: owner_defs split: option.splits if_splits\<close>)

text \<open>A query that gets an answer about a running process sees that it runs.\<close>

lemma answered_running: "os_answer s w a \<Longrightarrow> alive s w \<Longrightarrow> \<not> query_failed a \<Longrightarrow> isProcessRunning a"
  by (cases a) (auto simp: os_answer_def query_failed_def)

lemma claim_of_dead:
  assumes "orderly_step s t" and "procs t p = Claiming e" and "e \<noteq> 0"
  shows "procs s p = Claiming e \<or> procs s p = Waiting e \<and> \<not> alive s e"
  using step_claiming [of s t p e] assms answered_running [of s e] unfolding orderly_step_def by metis

lemma held_step:
  assumes "held s" and "owner_step s t"
  shows "held t"
  unfolding held_def
proof (intro allI impI)
  fix p
  assume p: "alive t p"
  show "owner_pid t \<noteq> None"
  proof
    assume "owner_pid t = None"
    with step_unowned [OF assms(2) this] p assms(1) show False
      by (auto simp: held_def alive_def)
  qed
qed

lemma owner_known_step:
  assumes "owner_known s" and "orderly_step s t"
  shows "owner_known t"
proof -
  have st: "owner_step s t" using assms(2) by (simp add: orderly_step_def)
  note k = assms(1) [unfolded owner_known_def]
  note keep = step_keeps [OF st]
  have "procs t 0 = Absent" using k keep(3) by blast
  moreover have "procs t w \<noteq> Absent" if "owner_pid t = Some w" "w \<noteq> 0" for w
    using step_owner [OF st that(1)] that(2) k keep(2) [of w] by blast
  moreover have "w \<noteq> 0 \<and> procs t w \<noteq> Absent" if "procs t p = Waiting w" for p w
    using step_waiting [OF st that] k keep(2) [of w] by blast
  moreover have "procs t e = Gone" if "procs t p = Claiming e" "e \<noteq> 0" for p e
  proof -
    have "procs s e = Gone"
      using claim_of_dead [OF assms(2) that] that(2) k unfolding alive_def by metis
    then show ?thesis by (rule keep(1))
  qed
  ultimately show ?thesis unfolding owner_known_def by blast
qed

text \<open>A process that serves, or is about to because it created the mapping.\<close>

definition owning :: "owner_sys \<Rightarrow> u64 \<Rightarrow> bool" where
  "owning s p \<longleftrightarrow> procs s p = Built True \<or> (\<exists>b. procs s p = Serving b)"

lemma step_owning:
  assumes "owner_step s t" and "owning t p"
  shows "owner_pid t = Some p \<or>
    owning s p \<and> (owner_pid t = owner_pid s \<or> \<not> alive s p \<or> owner_pid s = None \<or>
      (\<exists>q. q \<noteq> p \<and> (procs s q = Creating \<or> procs s q = Serving True \<or>
        (\<exists>e. procs s q = Claiming e \<and> owner_pid s = Some e))))"
  using assms(1)
proof (cases rule: owner_step.cases)
  case (os_create q)
  with assms(2) show ?thesis
    by (cases "q = p") (auto simp: owning_def owner_defs split: option.splits)
next
  case (os_claim q e)
  with assms(2) show ?thesis
    by (cases "q = p") (auto simp: owning_def owner_defs split: option.splits if_splits)
next
  case (os_load q own)
  with assms(2) show ?thesis
    by (cases "q = p") (auto simp: owning_def owner_defs split: option.splits if_splits)
qed (use assms(2) in \<open>auto simp: owning_def owner_defs split: if_splits\<close>)

lemma owner_right_step:
  assumes "owner_inv s" and "owner_step s t"
  shows "owner_right t"
proof -
  have inv: "owner_right s" "owner_known s" "orderly s"
    using assms(1) by (simp_all add: owner_inv_def)
  have right: "owner_pid s = Some p" if "owning s p" for p
    using that inv(1) unfolding owner_right_def owning_def by blast
  have known: "procs s 0 = Absent" "\<And>q e. procs s q = Claiming e \<Longrightarrow> e \<noteq> 0 \<Longrightarrow> procs s e = Gone"
    using inv(2) unfolding owner_known_def by blast+
  have "owner_pid t = Some p" if t: "owning t p" for p
  proof (rule ccontr)
    assume n: "owner_pid t \<noteq> Some p"
    with step_owning [OF assms(2) t] have o: "owning s p" by blast
    then have r: "alive s p" by (auto simp: owning_def alive_def)
    from step_owning [OF assms(2) t] n right [OF o] r obtain q where q: "q \<noteq> p"
      "procs s q = Creating \<or> procs s q = Serving True \<or> procs s q = Claiming p"
      by auto
    from q(2) show False
    proof (elim disjE)
      assume "procs s q = Creating"
      with q(1) r inv(3) show False unfolding orderly_def by metis
    next
      assume "procs s q = Serving True"
      then have "owning s q" unfolding owning_def by blast
      from right [OF this] right [OF o] q(1) show False by simp
    next
      assume c: "procs s q = Claiming p"
      have "p \<noteq> 0" using known(1) r by (auto simp: alive_def)
      with known(2) [OF c] r show False by (simp add: alive_def)
    qed
  qed
  then show ?thesis unfolding owner_right_def owning_def by blast
qed

interpretation ownership: invariant_system owner_init orderly_step owner_inv
proof unfold_locales
  fix s t :: owner_sys
  show "owner_init s \<Longrightarrow> owner_inv s"
    by (simp add: owner_init_def nobody_def owner_inv_def orderly_def held_def owner_known_def
        owner_right_def alive_def)
  assume "owner_inv s" and st: "orderly_step s t"
  moreover have "owner_step s t" "orderly t" using st by (simp_all add: orderly_step_def)
  ultimately show "owner_inv t"
    using held_step owner_known_step [OF _ st] owner_right_step unfolding owner_inv_def by blast
qed

section \<open>One owner\<close>

text \<open>
  C17: In an orderly run - no process is about while another is between creating the mapping and storing
  its pid, and no query of \<open>isProcessRunning\<close> for a running process fails - at most one process serves at
  any moment, and it is the one whose pid the mapping holds, whichever processes were started, killed or
  ended before, and however their steps were interleaved.
\<close>

theorem one_server:
  assumes "reach owner_init orderly_step s" and "procs s p = Serving b" and "procs s q = Serving b'"
  shows "p = q \<and> owner_pid s = Some p"
proof -
  have "owner_right s"
    using ownership.inv_reach [OF assms(1)] by (simp add: owner_inv_def)
  then have "owner_pid s = Some p" "owner_pid s = Some q"
    using assms(2,3) unfolding owner_right_def by blast+
  then show ?thesis by simp
qed

text \<open>The first process, alone, creates the mapping and serves; then it is killed.\<close>

definition first_serving :: owner_sys where
  "first_serving = run_load 1 True (init_owner 1 (create_mapping 1 nobody))"

lemma orderly_alone:
  assumes "\<forall>q. q \<noteq> p \<longrightarrow> \<not> alive s q"
  shows "orderly s"
  unfolding orderly_def
proof (intro allI impI)
  fix x y
  assume "procs s x = Creating" and y: "y \<noteq> x"
  then have "alive s x" by (simp add: alive_def)
  with assms have "x = p" by blast
  with y assms show "\<not> alive s y" by blast
qed

lemma orderly_none: "\<forall>p. procs s p \<noteq> Creating \<Longrightarrow> orderly s"
  by (simp add: orderly_def)

lemma first_steps:
  "create_mapping 1 nobody = \<lparr>owner_pid = Some 0, procs = (\<lambda>_. Absent)(1 := Creating)\<rparr>"
  "init_owner 1 (create_mapping 1 nobody) = \<lparr>owner_pid = Some 1, procs = (\<lambda>_. Absent)(1 := Built True)\<rparr>"
  "first_serving = \<lparr>owner_pid = Some 1, procs = (\<lambda>_. Absent)(1 := Serving True)\<rparr>"
  by (simp_all add: first_serving_def owner_defs nobody_def)

lemma first_serving_reach: "reach owner_init orderly_step first_serving"
proof -
  have "reach owner_init orderly_step nobody"
    by (rule reach_init) (simp add: owner_init_def)
  moreover have "orderly_step nobody (create_mapping 1 nobody)"
  proof (rule orderly_stepI)
    show "owner_step nobody (create_mapping 1 nobody)" by (rule os_create) (simp_all add: nobody_def)
    show "orderly (create_mapping 1 nobody)" by (rule orderly_alone [of 1]) (simp add: first_steps(1) alive_def)
  qed (simp add: nobody_def)
  moreover have "orderly_step (create_mapping 1 nobody) (init_owner 1 (create_mapping 1 nobody))"
  proof (rule orderly_stepI)
    show "owner_step (create_mapping 1 nobody) (init_owner 1 (create_mapping 1 nobody))"
      by (rule os_init) (simp add: first_steps(1))
    show "orderly (init_owner 1 (create_mapping 1 nobody))" by (rule orderly_none) (simp add: first_steps(2))
  qed (simp add: first_steps(2))
  moreover have "orderly_step (init_owner 1 (create_mapping 1 nobody)) first_serving"
  proof (rule orderly_stepI)
    show "owner_step (init_owner 1 (create_mapping 1 nobody)) first_serving"
      unfolding first_serving_def by (rule os_load) (simp add: first_steps(2))
    show "orderly first_serving" by (rule orderly_none) (simp add: first_steps(3))
  qed (simp add: first_steps(3))
  ultimately show ?thesis by (meson reach_step)
qed

theorem one_server_witness: "owner_pid first_serving = Some 1"
  using one_server [OF first_serving_reach, of 1 True 1 True] by (simp add: first_steps)

text \<open>
  A dead owner is replaced: a process that finds the pid of a process that is gone in the mapping
  takes the ownership over, if nobody else comes in between.
\<close>

theorem dead_owner_replaced:
  assumes "reach owner_init orderly_step s" and "owner_pid s = Some w" and "procs s w = Gone"
    and "procs s q = Built False"
  shows "\<exists>t. rtranclp orderly_step s t \<and> procs t q = Serving False \<and> owner_pid t = Some q"
proof -
  have inv: "orderly s" "owner_known s"
    using ownership.inv_reach [OF assms(1)] by (simp_all add: owner_inv_def)
  have w0: "w \<noteq> 0" and wq: "w \<noteq> q" using inv(2) assms(3,4) by (auto simp: owner_known_def)
  have q: "alive s q" using assms(4) by (simp add: alive_def)
  have "procs s p \<noteq> Creating" for p
    using inv(1) q assms(4) unfolding orderly_def by (metis phase.distinct(13))
  then have ok: "orderly (s\<lparr>owner_pid := c, procs := (procs s)(q := ph)\<rparr>)" if "ph \<noteq> Creating" for c ph
    using that by (simp add: orderly_def)
  let ?t = "\<lambda>c ph. s\<lparr>owner_pid := c, procs := (procs s)(q := ph)\<rparr>"
  have "owner_step s (run_load q False s)" using assms(4) by (rule os_load)
  moreover have l: "run_load q False s = ?t (Some w) (Waiting w)"
    using w0 assms(2) by (simp add: run_load_def set_proc_def)
  ultimately have 1: "orderly_step s (?t (Some w) (Waiting w))"
    using ok [of "Waiting w"] assms(4) by (intro orderly_stepI) auto
  have "owner_step (?t (Some w) (Waiting w)) (run_wait q w NotOpened (?t (Some w) (Waiting w)))"
    by (rule os_wait) (simp_all add: os_answer_def)
  moreover have "run_wait q w NotOpened (?t (Some w) (Waiting w)) = ?t (Some w) (Claiming w)"
    by (simp add: run_wait_def set_proc_def)
  ultimately have 2: "orderly_step (?t (Some w) (Waiting w)) (?t (Some w) (Claiming w))"
    using ok [of "Claiming w"] assms(3) wq by (intro orderly_stepI) (auto simp: alive_def)
  have "owner_step (?t (Some w) (Claiming w)) (run_claim q w (?t (Some w) (Claiming w)))"
    by (rule os_claim) simp
  moreover have "run_claim q w (?t (Some w) (Claiming w)) = ?t (Some q) (Serving False)"
    by (simp add: run_claim_def set_proc_def)
  ultimately have 3: "orderly_step (?t (Some w) (Claiming w)) (?t (Some q) (Serving False))"
    using ok [of "Serving False"] by (intro orderly_stepI) auto
  from 1 2 3 have "rtranclp orderly_step s (?t (Some q) (Serving False))"
    by (meson rtranclp.rtrancl_into_rtrancl rtranclp.rtrancl_refl)
  then show ?thesis by (intro exI [of _ "?t (Some q) (Serving False)"]) simp
qed

definition second_built :: owner_sys where
  "second_built = set_proc 1 Gone (create_mapping 2 first_serving)"

lemma second_built_eq: "second_built = \<lparr>owner_pid = Some 1, procs = (\<lambda>_. Absent)(2 := Built False, 1 := Gone)\<rparr>"
  by (simp add: second_built_def first_steps owner_defs)

lemma second_built_reach: "reach owner_init orderly_step second_built"
proof -
  let ?s = "create_mapping 2 first_serving"
  have eq: "?s = \<lparr>owner_pid = Some 1, procs = (\<lambda>_. Absent)(1 := Serving True, 2 := Built False)\<rparr>"
    by (simp add: first_steps owner_defs)
  have "orderly_step first_serving ?s"
  proof (rule orderly_stepI)
    show "owner_step first_serving ?s" by (rule os_create) (simp_all add: first_steps(3))
    show "orderly ?s" by (rule orderly_none) (simp add: eq)
  qed (simp add: first_steps(3) split: if_splits)
  moreover have "orderly_step ?s second_built"
  proof (rule orderly_stepI)
    show "owner_step ?s second_built" unfolding second_built_def by (rule os_kill) (simp add: eq alive_def)
    show "orderly second_built" by (rule orderly_none) (simp add: second_built_eq)
  qed (simp add: second_built_eq)
  ultimately show ?thesis by (meson reach_step first_serving_reach)
qed

theorem dead_owner_replaced_example:
  "\<exists>t. rtranclp orderly_step second_built t \<and> procs t 2 = Serving False"
  using dead_owner_replaced [OF second_built_reach, of 1 2] by (auto simp: second_built_eq)

text \<open>
  The order alone is not enough: if the one query a waiting process makes about the running owner fails -
  the owner may run with rights the asking process does not have - it takes the ownership over, and
  two servers run.
\<close>

theorem failed_query_two_servers:
  "\<exists>s t u. reach owner_init orderly_step s \<and> procs s 1 = Serving True \<and> procs s 2 = Waiting 1 \<and>
    query_failed NotOpened \<and> os_answer s 1 NotOpened \<and> t = run_wait 2 1 NotOpened s \<and> owner_step s t \<and>
    owner_step t u \<and> procs u 1 = Serving True \<and> procs u 2 = Serving False"
proof -
  let ?s = "\<lambda>c b. \<lparr>owner_pid = Some c, procs = (\<lambda>_. Absent)(1 := Serving True, 2 := b)\<rparr> :: owner_sys"
  have o: "orderly (?s 1 b)" if "b \<noteq> Creating" for b using that by (intro orderly_none) simp
  have first: "first_serving = ?s 1 Absent" by (simp add: first_steps(3) fun_upd_idem)
  have "orderly_step (?s 1 Absent) (?s 1 (Built False))"
    using os_create [of "?s 1 Absent" 2] by (intro orderly_stepI o) (simp_all add: owner_defs)
  moreover have "orderly_step (?s 1 (Built False)) (?s 1 (Waiting 1))"
    using os_load [of "?s 1 (Built False)" 2 False] by (intro orderly_stepI o) (simp_all add: owner_defs)
  ultimately have "reach owner_init orderly_step (?s 1 (Waiting 1))"
    using first_serving_reach unfolding first by (meson reach_step)
  moreover have a: "os_answer (?s 1 (Waiting 1)) 1 NotOpened" by (simp add: os_answer_def)
  moreover have "owner_step (?s 1 (Waiting 1)) (run_wait 2 1 NotOpened (?s 1 (Waiting 1)))"
    by (rule os_wait [OF _ a]) simp
  moreover have "run_wait 2 1 NotOpened (?s 1 (Waiting 1)) = ?s 1 (Claiming 1)" by (simp add: owner_defs)
  moreover have "owner_step (?s 1 (Claiming 1)) (?s 2 (Serving False))"
    using os_claim [of "?s 1 (Claiming 1)" 2 1] by (simp add: owner_defs)
  ultimately show ?thesis
    by (intro exI [of _ "?s 1 (Waiting 1)"] exI [of _ "?s 1 (Claiming 1)"] exI [of _ "?s 2 (Serving False)"])
      (simp add: query_failed_def)
qed

text \<open>
  C31: Without the order, two servers can run at once: a process that opens the mapping before its
  creator has stored its pid finds 0 there, takes the ownership, and is not noticed by the creator.
\<close>

theorem two_servers_race:
  "\<exists>s. reach owner_init owner_step s \<and> procs s 1 = Serving True \<and> procs s 2 = Serving False"
proof -
  let ?s = "\<lambda>c a b. \<lparr>owner_pid = Some c, procs = (\<lambda>_. Absent)(1 := a, 2 := b)\<rparr> :: owner_sys"
  have start: "reach owner_init owner_step nobody" by (rule reach_init) (simp add: owner_init_def)
  have "owner_step nobody (create_mapping 1 nobody)" by (rule os_create) (simp_all add: nobody_def)
  then have 1: "reach owner_init owner_step (?s 0 Creating Absent)"
    using reach_step [OF start] by (simp add: first_steps(1) fun_upd_idem)
  have "owner_step (?s 0 Creating Absent) (create_mapping 2 (?s 0 Creating Absent))" by (rule os_create) simp_all
  then have 2: "reach owner_init owner_step (?s 0 Creating (Built False))"
    using reach_step [OF 1] by (simp add: owner_defs)
  have "owner_step (?s 0 Creating (Built False)) (run_load 2 False (?s 0 Creating (Built False)))" by (rule os_load) simp
  then have 3: "reach owner_init owner_step (?s 0 Creating (Claiming 0))"
    using reach_step [OF 2] by (simp add: owner_defs)
  have "owner_step (?s 0 Creating (Claiming 0)) (run_claim 2 0 (?s 0 Creating (Claiming 0)))" by (rule os_claim) simp
  then have 4: "reach owner_init owner_step (?s 2 Creating (Serving False))"
    using reach_step [OF 3] by (simp add: owner_defs)
  have "owner_step (?s 2 Creating (Serving False)) (init_owner 1 (?s 2 Creating (Serving False)))" by (rule os_init) simp
  then have 5: "reach owner_init owner_step (?s 1 (Built True) (Serving False))"
    using reach_step [OF 4] by (simp add: owner_defs fun_upd_twist)
  have "owner_step (?s 1 (Built True) (Serving False)) (run_load 1 True (?s 1 (Built True) (Serving False)))"
    by (rule os_load) simp
  then have "reach owner_init owner_step (?s 1 (Serving True) (Serving False))"
    using reach_step [OF 5] by (simp add: owner_defs fun_upd_twist)
  then show ?thesis by (intro exI [of _ "?s 1 (Serving True) (Serving False)"]) simp
qed

end
