(* ===== verification/Bytes.thy ===== *)
theory Bytes
  imports Base
begin

text \<open>
  Byte-addressed memory and the parts of the C and C++ library the program uses on bytes:
  little-endian integers, \<open>memset\<close>/\<open>memcpy\<close>, C strings (\<open>strnlen\<close>, construction of a
  \<open>std::string\<close> from a \<open>char\<close> array, \<open>strcpy_s\<close>), decimal printing
  (\<open>std::to_string\<close>, \<open>std::format("{}")\<close>, \<open>%llu\<close>) and decimal parsing (\<open>std::stoi\<close>,
  \<open>atoi\<close>).  A C \<open>char\<close> is HOL's 8-bit \<open>char\<close>, so a byte sequence is a \<open>string\<close>.
  A memory is a total function: reading beyond a structure reads what lies behind it.
\<close>

section \<open>Memory\<close>

type_synonym mem = "nat \<Rightarrow> char"

definition zero_mem :: mem where
  "zero_mem = (\<lambda>_. CHR 0x00)"

definition load :: "mem \<Rightarrow> nat \<Rightarrow> nat \<Rightarrow> string" where
  "load m a n = map m [a..<a + n]"

definition store :: "mem \<Rightarrow> nat \<Rightarrow> string \<Rightarrow> mem" where
  "store m a bs = (\<lambda>x. if a \<le> x \<and> x < a + length bs then bs ! (x - a) else m x)"

lemma length_load [simp]: "length (load m a n) = n"
  by (simp add: load_def)

lemma nth_load: "i < n \<Longrightarrow> load m a n ! i = m (a + i)"
  by (simp add: load_def)

lemma load_0 [simp]: "load m a 0 = []"
  by (simp add: load_def)

lemma load_Suc: "load m a (Suc n) = m a # load m (Suc a) n"
proof -
  have "[a..<a + Suc n] = a # [Suc a..<Suc a + n]"
    by (simp add: upt_conv_Cons)
  then show ?thesis by (simp add: load_def)
qed

lemma load_store_same [simp]: "load (store m a bs) a (length bs) = bs"
  by (rule nth_equalityI) (auto simp: nth_load store_def)

lemma load_store_same_len: "n = length bs \<Longrightarrow> load (store m a bs) a n = bs"
  by simp

lemma load_store_disjoint:
  "a + length bs \<le> b \<or> b + n \<le> a \<Longrightarrow> load (store m a bs) b n = load m b n"
  by (rule nth_equalityI) (auto simp: nth_load store_def)

lemma store_outside: "x < a \<or> a + length bs \<le> x \<Longrightarrow> store m a bs x = m x"
  by (auto simp: store_def)

lemma load_take: "k \<le> n \<Longrightarrow> take k (load m a n) = load m a k"
  by (rule nth_equalityI) (auto simp: nth_load)

lemma load_cong: "(\<And>x. a \<le> x \<Longrightarrow> x < a + n \<Longrightarrow> m x = m' x) \<Longrightarrow> load m a n = load m' a n"
  by (auto simp: load_def)

text \<open>
  A block that holds the same bytes as another holds the same bytes at every offset:
  what a producer builds in its own buffer is what a consumer reads at its address.
\<close>

lemma load_shift:
  assumes "load m p n = load m' q n" and "off + k \<le> n"
  shows "load m (p + off) k = load m' (q + off) k"
proof (rule nth_equalityI)
  fix i
  assume "i < length (load m (p + off) k)"
  then have "i < k" by simp
  moreover have "load m p n ! (off + i) = load m' q n ! (off + i)"
    using assms(1) by simp
  ultimately show "load m (p + off) k ! i = load m' (q + off) k ! i"
    using assms(2) by (simp add: nth_load ac_simps)
qed simp

section \<open>Little-endian integers\<close>

fun le_bytes :: "nat \<Rightarrow> nat \<Rightarrow> string" where
  "le_bytes 0 n = []"
| "le_bytes (Suc k) n = char_of (n mod 256) # le_bytes k (n div 256)"

fun le_nat :: "string \<Rightarrow> nat" where
  "le_nat [] = 0"
| "le_nat (c # cs) = of_char c + 256 * le_nat cs"

lemma length_le_bytes [simp]: "length (le_bytes k n) = k"
  by (induction k arbitrary: n) auto

lemma of_char_less_256 [simp]: "(of_char c :: nat) < 256"
  using nat_of_char_less_256 by simp

lemma le_nat_le_bytes: "le_nat (le_bytes k n) = n mod 256 ^ k"
proof (induction k arbitrary: n)
  case 0
  then show ?case by simp
next
  case (Suc k)
  have "n mod (256 * 256 ^ k) = 256 * (n div 256 mod 256 ^ k) + n mod 256"
    by (rule mod_mult2_eq)
  with Suc show ?case by simp
qed

lemma le_nat_less: "le_nat cs < 256 ^ length cs"
proof (induction cs)
  case Nil
  then show ?case by simp
next
  case (Cons c cs)
  have "of_char c + 256 * le_nat cs < 256 * (le_nat cs + 1)"
    by simp
  also have "\<dots> \<le> 256 * 256 ^ length cs"
    using Cons by (intro mult_le_mono) auto
  finally show ?case by simp
qed

definition load_u8 :: "mem \<Rightarrow> nat \<Rightarrow> u8" where
  "load_u8 m a = of_nat (le_nat (load m a 1))"

definition load_u32 :: "mem \<Rightarrow> nat \<Rightarrow> u32" where
  "load_u32 m a = of_nat (le_nat (load m a 4))"

definition load_u64 :: "mem \<Rightarrow> nat \<Rightarrow> u64" where
  "load_u64 m a = of_nat (le_nat (load m a 8))"

definition store_u8 :: "mem \<Rightarrow> nat \<Rightarrow> u8 \<Rightarrow> mem" where
  "store_u8 m a v = store m a (le_bytes 1 (unat v))"

definition store_u32 :: "mem \<Rightarrow> nat \<Rightarrow> u32 \<Rightarrow> mem" where
  "store_u32 m a v = store m a (le_bytes 4 (unat v))"

definition store_u64 :: "mem \<Rightarrow> nat \<Rightarrow> u64 \<Rightarrow> mem" where
  "store_u64 m a v = store m a (le_bytes 8 (unat v))"

lemma load_store_u8 [simp]: "load_u8 (store_u8 m a v) a = v"
proof -
  have "load (store_u8 m a v) a 1 = le_bytes 1 (unat v)"
    unfolding store_u8_def by (rule load_store_same_len) simp
  moreover have "unat v < 256" using unsigned_less [of v, where ?'a = nat] by simp
  ultimately show ?thesis by (simp add: load_u8_def le_nat_le_bytes)
qed

lemma load_store_u32 [simp]: "load_u32 (store_u32 m a v) a = v"
proof -
  have "load (store_u32 m a v) a 4 = le_bytes 4 (unat v)"
    unfolding store_u32_def by (rule load_store_same_len) simp
  moreover have "unat v < 256 ^ 4" using unsigned_less [of v, where ?'a = nat] by simp
  ultimately show ?thesis by (simp add: load_u32_def le_nat_le_bytes)
qed

lemma load_store_u64 [simp]: "load_u64 (store_u64 m a v) a = v"
proof -
  have "load (store_u64 m a v) a 8 = le_bytes 8 (unat v)"
    unfolding store_u64_def by (rule load_store_same_len) simp
  moreover have "unat v < 256 ^ 8" using unsigned_less [of v, where ?'a = nat] by simp
  ultimately show ?thesis by (simp add: load_u64_def le_nat_le_bytes)
qed

lemma load_zero_mem: "load zero_mem a n = replicate n (CHR 0x00)"
  by (rule nth_equalityI) (auto simp: nth_load zero_mem_def)

lemma load_ints_zero [simp]: "load_u8 zero_mem a = 0" "load_u32 zero_mem a = 0" "load_u64 zero_mem a = 0"
  by (simp_all add: load_u8_def load_u32_def load_u64_def load_zero_mem numeral_eq_Suc)

section \<open>C strings\<close>

text \<open>
  The text a bounded \<open>char\<close> array of \<open>n\<close> bytes at \<open>a\<close> holds: the bytes before the first
  NUL, at most \<open>n\<close> of them.  This is \<open>std::string_view(p, strnlen(p, n))\<close>; it is also
  what \<open>std::string(p)\<close> builds from an array that has a NUL within its \<open>n\<close> bytes.
\<close>

definition cut_nul :: "string \<Rightarrow> string" where
  "cut_nul s = takeWhile (\<lambda>c. c \<noteq> CHR 0x00) s"

definition load_cstr :: "mem \<Rightarrow> nat \<Rightarrow> nat \<Rightarrow> string" where
  "load_cstr m a n = cut_nul (load m a n)"

definition nul_free :: "string \<Rightarrow> bool" where
  "nul_free s \<longleftrightarrow> CHR 0x00 \<notin> set s"

lemma cut_nul_id: "nul_free s \<Longrightarrow> cut_nul s = s"
  by (auto simp: cut_nul_def nul_free_def takeWhile_eq_all_conv)

lemma cut_nul_append: "nul_free s \<Longrightarrow> cut_nul (s @ CHR 0x00 # t) = s"
  by (induction s) (auto simp: cut_nul_def nul_free_def)

lemma nul_free_cut_nul [simp]: "nul_free (cut_nul s)"
  by (auto simp: cut_nul_def nul_free_def dest: set_takeWhileD)

lemma length_load_cstr: "length (load_cstr m a n) \<le> n"
  using length_takeWhile_le [of "\<lambda>c. c \<noteq> CHR 0x00" "load m a n"]
  by (simp add: load_cstr_def cut_nul_def)

text \<open>Once a NUL is in the array, reading further does not change the string.\<close>

lemma load_cstr_terminated:
  assumes "CHR 0x00 \<in> set (load m a n)" and "n \<le> k"
  shows "load_cstr m a k = load_cstr m a n"
proof -
  obtain d where k: "k = n + d" using assms(2) le_Suc_ex by blast
  have "load m a k = load m a n @ load m (a + n) d"
    by (rule nth_equalityI) (auto simp: k nth_load nth_append)
  then show ?thesis
    using assms(1) by (auto simp: load_cstr_def cut_nul_def takeWhile_append1)
qed

text \<open>
  \<open>strcpy_s(dst, size, src)\<close> copies the string with its NUL if it fits and calls the
  invalid parameter handler, which ends the process, if it does not: \<open>None\<close>.
\<close>

definition strcpy_s :: "mem \<Rightarrow> nat \<Rightarrow> nat \<Rightarrow> string \<Rightarrow> mem option" where
  "strcpy_s m a cap src =
     (if length (cut_nul src) < cap then Some (store m a (cut_nul src @ [CHR 0x00])) else None)"

lemma load_cstr_store:
  assumes "nul_free s" and "length s < n"
  shows "load_cstr (store m a (s @ [CHR 0x00])) a n = s"
proof -
  have "load_cstr (store m a (s @ [CHR 0x00])) a n =
        load_cstr (store m a (s @ [CHR 0x00])) a (Suc (length s))"
  proof (rule load_cstr_terminated)
    have "load (store m a (s @ [CHR 0x00])) a (Suc (length s)) = s @ [CHR 0x00]"
      by (rule load_store_same_len) simp
    then show "CHR 0x00 \<in> set (load (store m a (s @ [CHR 0x00])) a (Suc (length s)))"
      by simp
  qed (use assms(2) in simp)
  also have "\<dots> = cut_nul (s @ [CHR 0x00])"
    unfolding load_cstr_def by (subst load_store_same_len) simp_all
  also have "\<dots> = s"
    using assms(1) by (rule cut_nul_append)
  finally show ?thesis .
qed

text \<open>A string shorter than its zeroed array is read back as it was copied.\<close>

lemma load_cstr_store_zero:
  assumes "nul_free s" and "length s \<le> n" and "load m a n = replicate n (CHR 0x00)"
  shows "load_cstr (store m a s) a n = s"
proof -
  have "load (store m a s) a n = s @ replicate (n - length s) (CHR 0x00)"
  proof (rule nth_equalityI)
    fix i assume i: "i < length (load (store m a s) a n)"
    have "m (a + j) = CHR 0x00" if "j < n" for j
      using assms(3) that by (metis nth_load nth_replicate)
    then show "load (store m a s) a n ! i = (s @ replicate (n - length s) (CHR 0x00)) ! i"
      using i by (auto simp: nth_load store_def nth_append)
  qed (use assms(2) in simp)
  then show ?thesis
    using assms(1)
    by (cases "n - length s") (simp_all add: load_cstr_def cut_nul_append cut_nul_id)
qed

section \<open>Memory accesses commute when they are apart\<close>

lemma loads_store_disjoint [layout]:
  "a + length bs \<le> b \<or> b + 1 \<le> a \<Longrightarrow> load_u8 (store m a bs) b = load_u8 m b"
  "a + length bs \<le> b \<or> b + 4 \<le> a \<Longrightarrow> load_u32 (store m a bs) b = load_u32 m b"
  "a + length bs \<le> b \<or> b + 8 \<le> a \<Longrightarrow> load_u64 (store m a bs) b = load_u64 m b"
  "a + length bs \<le> b \<or> b + n \<le> a \<Longrightarrow> load_cstr (store m a bs) b n = load_cstr m b n"
  by (simp_all only: load_u8_def load_u32_def load_u64_def load_cstr_def load_store_disjoint)

lemma loads_store_u8 [layout]:
  "a + 1 \<le> b \<or> b + n \<le> a \<Longrightarrow> load (store_u8 m a v) b n = load m b n"
  "a + 1 \<le> b \<or> b + 1 \<le> a \<Longrightarrow> load_u8 (store_u8 m a v) b = load_u8 m b"
  "a + 1 \<le> b \<or> b + 4 \<le> a \<Longrightarrow> load_u32 (store_u8 m a v) b = load_u32 m b"
  "a + 1 \<le> b \<or> b + 8 \<le> a \<Longrightarrow> load_u64 (store_u8 m a v) b = load_u64 m b"
  "a + 1 \<le> b \<or> b + n \<le> a \<Longrightarrow> load_cstr (store_u8 m a v) b n = load_cstr m b n"
  unfolding store_u8_def by (rule load_store_disjoint loads_store_disjoint, simp only: length_le_bytes)+

lemma loads_store_u32 [layout]:
  "a + 4 \<le> b \<or> b + n \<le> a \<Longrightarrow> load (store_u32 m a v) b n = load m b n"
  "a + 4 \<le> b \<or> b + 1 \<le> a \<Longrightarrow> load_u8 (store_u32 m a v) b = load_u8 m b"
  "a + 4 \<le> b \<or> b + 4 \<le> a \<Longrightarrow> load_u32 (store_u32 m a v) b = load_u32 m b"
  "a + 4 \<le> b \<or> b + 8 \<le> a \<Longrightarrow> load_u64 (store_u32 m a v) b = load_u64 m b"
  "a + 4 \<le> b \<or> b + n \<le> a \<Longrightarrow> load_cstr (store_u32 m a v) b n = load_cstr m b n"
  unfolding store_u32_def by (rule load_store_disjoint loads_store_disjoint, simp only: length_le_bytes)+

lemma loads_store_u64 [layout]:
  "a + 8 \<le> b \<or> b + n \<le> a \<Longrightarrow> load (store_u64 m a v) b n = load m b n"
  "a + 8 \<le> b \<or> b + 1 \<le> a \<Longrightarrow> load_u8 (store_u64 m a v) b = load_u8 m b"
  "a + 8 \<le> b \<or> b + 4 \<le> a \<Longrightarrow> load_u32 (store_u64 m a v) b = load_u32 m b"
  "a + 8 \<le> b \<or> b + 8 \<le> a \<Longrightarrow> load_u64 (store_u64 m a v) b = load_u64 m b"
  "a + 8 \<le> b \<or> b + n \<le> a \<Longrightarrow> load_cstr (store_u64 m a v) b n = load_cstr m b n"
  unfolding store_u64_def by (rule load_store_disjoint loads_store_disjoint, simp only: length_le_bytes)+

declare load_store_disjoint [layout]

section \<open>Decimal printing and parsing\<close>

definition digit_char :: "nat \<Rightarrow> char" where
  "digit_char d = char_of (48 + d)"

fun dec :: "nat \<Rightarrow> string" where
  "dec n = (if n < 10 then [digit_char n] else dec (n div 10) @ [digit_char (n mod 10)])"

declare dec.simps [simp del]

definition is_digit :: "char \<Rightarrow> bool" where
  "is_digit c \<longleftrightarrow> 48 \<le> (of_char c :: nat) \<and> (of_char c :: nat) \<le> 57"

definition digit_val :: "char \<Rightarrow> nat" where
  "digit_val c = of_char c - 48"

definition is_space :: "char \<Rightarrow> bool" where
  "is_space c \<longleftrightarrow> (of_char c :: nat) = 32 \<or> (9 \<le> (of_char c :: nat) \<and> (of_char c :: nat) \<le> 13)"

definition digits_val :: "string \<Rightarrow> nat" where
  "digits_val ds = foldl (\<lambda>n c. 10 * n + digit_val c) 0 ds"

text \<open>
  The decimal integer at the head of a string, as \<open>strtol\<close> reads it: white space, an
  optional sign, then digits; \<open>None\<close> if there is no digit.
\<close>

definition strtol :: "string \<Rightarrow> int option" where
  "strtol s =
     (let t = dropWhile is_space s;
          neg = (t \<noteq> [] \<and> hd t = CHR ''-'');
          u = (if t \<noteq> [] \<and> (hd t = CHR ''-'' \<or> hd t = CHR ''+'') then tl t else t);
          ds = takeWhile is_digit u
      in if ds = [] then None
         else Some (if neg then - int (digits_val ds) else int (digits_val ds)))"

datatype exn = InvalidArgument | OutOfRange

text \<open>\<open>std::stoi\<close> on a 32-bit \<open>int\<close>.\<close>

definition stoi :: "string \<Rightarrow> exn + int" where
  "stoi s = (case strtol s of
       None \<Rightarrow> Inl InvalidArgument
     | Some i \<Rightarrow> if - (2 ^ 31) \<le> i \<and> i < 2 ^ 31 then Inr i else Inl OutOfRange)"

lemma of_char_digit_char: "d < 10 \<Longrightarrow> of_char (digit_char d) = (48 + d :: nat)"
  by (simp add: digit_char_def)

lemma is_digit_digit_char: "d < 10 \<Longrightarrow> is_digit (digit_char d)"
  by (simp add: is_digit_def of_char_digit_char)

lemma digit_val_digit_char: "d < 10 \<Longrightarrow> digit_val (digit_char d) = d"
  by (simp add: digit_val_def of_char_digit_char)

lemma dec_digits: "c \<in> set (dec n) \<Longrightarrow> is_digit c"
proof (induction n rule: dec.induct)
  case (1 n)
  then show ?case
    by (cases "n < 10") (auto simp: dec.simps [of n] is_digit_digit_char)
qed

lemma dec_nonempty: "dec n \<noteq> []"
  by (simp add: dec.simps [of n])

lemma digits_val_dec: "digits_val (dec n) = n"
proof (induction n rule: dec.induct)
  case (1 n)
  show ?case
  proof (cases "n < 10")
    case True
    then show ?thesis by (simp add: dec.simps [of n] digits_val_def digit_val_digit_char)
  next
    case False
    with 1 show ?thesis
      by (simp add: dec.simps [of n] digits_val_def digit_val_digit_char)
  qed
qed

lemma digit_not_special:
  assumes "is_digit c"
  shows "\<not> is_space c" and "c \<noteq> CHR ''-''" and "c \<noteq> CHR ''+''" and "c \<noteq> CHR ''/''"
    and "c \<noteq> CHR '':''" and "c \<noteq> CHR 0x00"
  using assms by (auto simp: is_digit_def is_space_def)

lemma strtol_dec:
  assumes "\<And>c cs. rest = c # cs \<Longrightarrow> \<not> is_digit c"
  shows "strtol (dec n @ rest) = Some (int n)"
proof -
  obtain d ds where d: "dec n = d # ds" using dec_nonempty by (cases "dec n") auto
  then have dd: "is_digit d" using dec_digits [of d n] by simp
  have "takeWhile is_digit (dec n @ rest) = dec n"
    using assms by (subst takeWhile_append2) (auto simp: dec_digits takeWhile_eq_Nil_iff neq_Nil_conv)
  with d dd digits_val_dec [of n] show ?thesis
    by (simp add: strtol_def digit_not_special Let_def)
qed

lemma stoi_dec: "n < 2 ^ 31 \<Longrightarrow> stoi (dec n) = Inr (int n)"
  using strtol_dec [of "[]" n] by (simp add: stoi_def)

lemma length_dec: "n < 10 ^ k \<Longrightarrow> 0 < k \<Longrightarrow> length (dec n) \<le> k"
proof (induction n arbitrary: k rule: dec.induct)
  case (1 n)
  show ?case
  proof (cases "n < 10")
    case True
    with 1 show ?thesis by (simp add: dec.simps [of n])
  next
    case False
    with 1 obtain j where j: "k = Suc j" "0 < j"
      by (cases k; cases "k - 1") (auto simp: power_Suc)
    then have "n div 10 < 10 ^ j" using 1(2) by (simp add: less_mult_imp_div_less mult.commute)
    with 1(1) [OF False, of j] j False show ?thesis by (simp add: dec.simps [of n])
  qed
qed

section \<open>Comparing without case\<close>

text \<open>\<open>tolower\<close> of the "C" locale, and \<open>_stricmp\<close> and \<open>_wcsicmp\<close> as far as it is asked whether they are 0.\<close>

definition lower :: "char \<Rightarrow> char" where
  "lower c = (let n = of_char c :: nat in if 65 \<le> n \<and> n \<le> 90 then char_of (n + 32) else c)"

definition stricmp_eq :: "string \<Rightarrow> string \<Rightarrow> bool" where
  "stricmp_eq a b \<longleftrightarrow> map lower a = map lower b"

end
