(* ===== verification/Main_Args.thy ===== *)
theory Main_Args
  imports Bytes
begin

text \<open>
  The command line of \<open>src/main.cpp\<close>: the size of the queue to the clients and the log level.  The
  arguments are those after the program's name; the level before parsing is the default of the logging
  library.
\<close>

section \<open>Arguments\<close>

datatype log_level = L_TRACE | L_DEBUG | L_INFO | L_WARN | L_ERROR | L_FATAL | L_OFF

record main_config =
  server_queue_size :: u32
  min_level :: log_level
  log_level_set :: bool

text \<open>\<open>atoi\<close>: 0 where there is no number; values outside \<open>int\<close> are cut off at its bounds.\<close>

definition atoi :: "string \<Rightarrow> int" where
  "atoi s = (case strtol s of
     None \<Rightarrow> 0
   | Some i \<Rightarrow> max (- (2 ^ 31)) (min i (2 ^ 31 - 1)))"

definition level_of :: "string \<Rightarrow> log_level option" where
  "level_of l =
     (if l = ''off'' then Some L_OFF
      else if l = ''critical'' then Some L_FATAL
      else if l = ''error'' then Some L_ERROR
      else if l = ''warning'' then Some L_WARN
      else if l = ''info'' then Some L_INFO
      else if l = ''debug'' then Some L_DEBUG
      else if l = ''trace'' then Some L_TRACE
      else None)"

definition set_level :: "string \<Rightarrow> main_config \<Rightarrow> main_config" where
  "set_level arg c = (case level_of (map lower arg) of
     Some v \<Rightarrow> c\<lparr>min_level := v, log_level_set := True\<rparr>
   | None \<Rightarrow> c\<lparr>log_level_set := False\<rparr>)"

text \<open>The loop looks at an argument only while another one follows it.\<close>

fun parse_args :: "string list \<Rightarrow> main_config \<Rightarrow> main_config" where
  "parse_args (a # v # rest) c =
     (if stricmp_eq a ''-l'' then parse_args rest (set_level v c)
      else if stricmp_eq a ''-s'' then parse_args rest (c\<lparr>server_queue_size := of_int (atoi v)\<rparr>)
      else parse_args (v # rest) c)"
| "parse_args _ c = c"

definition main_config_init :: "log_level \<Rightarrow> main_config" where
  "main_config_init level = \<lparr>server_queue_size = push_bit 24 1, min_level = level, log_level_set = False\<rparr>"

text \<open>
  What \<open>main\<close> hands to the logger and to the server: the sinks, the level and the size of the queue.
  \<open>level\<close> is the level of a fresh configuration; a debug build logs to the console too, and everything.
\<close>

datatype log_sink = ConsoleSink | RotatingFileSink string nat nat

definition main_start :: "bool \<Rightarrow> log_level \<Rightarrow> string list \<Rightarrow> log_sink list \<times> main_config" where
  "main_start debug level args =
     (let sinks = (if debug then [ConsoleSink] else []) @
            [RotatingFileSink ''./Log/WebsocketProxy.log'' (200 * 1024 * 1024) 10];
          config = main_config_init (if debug then L_TRACE else level)
      in (sinks, parse_args args config))"

section \<open>Options\<close>

datatype option_arg = Size nat | Level string

fun render :: "option_arg \<Rightarrow> string list" where
  "render (Size n) = [''-s'', dec n]"
| "render (Level l) = [''-l'', l]"

fun apply_option :: "option_arg \<Rightarrow> main_config \<Rightarrow> main_config" where
  "apply_option (Size n) c = c\<lparr>server_queue_size := of_nat n\<rparr>"
| "apply_option (Level l) c = set_level l c"

fun option_ok :: "option_arg \<Rightarrow> bool" where
  "option_ok (Size n) = (n < 2 ^ 31)"
| "option_ok (Level l) = True"

lemma atoi_dec: "n < 2 ^ 31 \<Longrightarrow> atoi (dec n) = int n"
  using strtol_dec [of "[]" n] by (simp add: atoi_def)

lemma option_names: "stricmp_eq ''-l'' ''-l''" "\<not> stricmp_eq ''-s'' ''-l''" "stricmp_eq ''-s'' ''-s''"
  by (code_simp)+

text \<open>
  A command line made of options is read as it was written: each option takes effect in turn, so
  that the last one of a kind decides, and a single argument left over at the end, even an option's
  name, is ignored.
\<close>

theorem options_take_effect:
  assumes "\<forall>opt \<in> set os. option_ok opt" and "length rest \<le> 1"
  shows "parse_args (concat (map render os) @ rest) c = fold apply_option os c"
  using assms(1)
proof (induction os arbitrary: c)
  case Nil
  from assms(2) have "rest = [] \<or> (\<exists>a. rest = [a])"
    by (cases rest) auto
  then show ?case by auto
next
  case (Cons opt os)
  then show ?case
    by (cases opt) (simp_all add: option_names atoi_dec)
qed

theorem options_take_effect_example:
  "server_queue_size (parse_args [''-s'', dec 1024, ''-l'', ''Debug'', ''-s''] (main_config_init L_INFO)) = 1024 \<and>
   min_level (parse_args [''-s'', dec 1024, ''-l'', ''Debug'', ''-s''] (main_config_init L_INFO)) = L_DEBUG"
proof -
  have "level_of (map lower ''Debug'') = Some L_DEBUG" by code_simp
  then show ?thesis
    using options_take_effect [of "[Size 1024, Level ''Debug'']" "[''-s'']" "main_config_init L_INFO"]
    by (simp add: set_level_def)
qed

section \<open>The directory of the executable\<close>

text \<open>\<open>path.substr(0, path.rfind(sep))\<close>: the whole path if the separator does not occur.\<close>

definition dir_of_path :: "char \<Rightarrow> string \<Rightarrow> string" where
  "dir_of_path sep path =
     (if sep \<in> set path then take (length path - Suc (length (takeWhile (\<lambda>c. c \<noteq> sep) (rev path)))) path
      else path)"

text \<open>
  \<open>GetExePath\<close> (\<open>src/websocket_proxy.cpp\<close>).  On Windows the name of the module, up to its NUL, is converted in
  two calls: \<open>bytes\<close> is the number of bytes its characters take, \<open>fill ws n\<close> what a string of \<open>n\<close> zeros is
  after the conversion of \<open>ws\<close>, its NUL included, into it.  Elsewhere \<open>link\<close> is what \<open>readlink\<close> yields.
\<close>

definition GetExePath_windows :: "('w list \<Rightarrow> nat) \<Rightarrow> ('w list \<Rightarrow> nat \<Rightarrow> string) \<Rightarrow> 'w list \<Rightarrow> string" where
  "GetExePath_windows bytes fill ws = dir_of_path (CHR 0x5C) (fill ws (bytes ws))"

definition GetExePath_posix :: "string option \<Rightarrow> string" where
  "GetExePath_posix link = dir_of_path (CHR ''/'') (case link of Some path \<Rightarrow> path | None \<Rightarrow> [])"

lemma dir_of_path_split: "sep \<notin> set file \<Longrightarrow> dir_of_path sep (dir @ sep # file) = dir"
proof -
  assume "sep \<notin> set file"
  then have "takeWhile (\<lambda>c. c \<noteq> sep) (rev file @ sep # rev dir) = rev file"
    by (subst takeWhile_append2) auto
  then show ?thesis by (simp add: dir_of_path_def)
qed

end
