(* ===== verification/Wire.thy ===== *)
theory Wire
  imports Bytes
begin

text \<open>
  The shared-memory protocol of \<open>include/websocket_proxy/types.h\<close>: the message types and
  statuses with their codes, the packed structures as lists of fields in declaration order,
  and the accessors that \<open>reinterpret_cast\<close> gives on a message at an address.  With
  \<open>#pragma pack(1)\<close> a field lies right behind the one before it, so its offset is the sum of
  the sizes of the fields that precede it; a flexible array member has size 0 and starts at
  the end of the structure.
\<close>

section \<open>Enumerations and constants\<close>

datatype msg_type =
  Register | Unregister | OpenWs | CloseWs | Heartbeat | WsRequest | WsData | WsError |
  Subscribe | Unsubscribe | LogLevel

datatype msg_status = PENDING | SUCCESS | FAILED

fun type_code :: "msg_type \<Rightarrow> u8" where
  "type_code Register = 0"
| "type_code Unregister = 1"
| "type_code OpenWs = 2"
| "type_code CloseWs = 3"
| "type_code Heartbeat = 4"
| "type_code WsRequest = 5"
| "type_code WsData = 6"
| "type_code WsError = 7"
| "type_code Subscribe = 8"
| "type_code Unsubscribe = 9"
| "type_code LogLevel = 10"

definition msg_types :: "msg_type list" where
  "msg_types = [Register, Unregister, OpenWs, CloseWs, Heartbeat, WsRequest, WsData, WsError,
    Subscribe, Unsubscribe, LogLevel]"

definition type_of_code :: "u8 \<Rightarrow> msg_type option" where
  "type_of_code c = find (\<lambda>t. type_code t = c) msg_types"

fun status_code :: "msg_status \<Rightarrow> u8" where
  "status_code PENDING = 0"
| "status_code SUCCESS = 1"
| "status_code FAILED = 2"

definition HEARTBEAT_INTERVAL :: u64 where
  "HEARTBEAT_INTERVAL = 500"

definition HEARTBEAT_TIMEOUT :: u64 where
  "HEARTBEAT_TIMEOUT = 15000"

text \<open>\<open>SubscriptionType\<close>: a set of bits.\<close>

definition sub_None :: u8 where "sub_None = 0"
definition sub_Quotes :: u8 where "sub_Quotes = 1"
definition sub_Trades :: u8 where "sub_Trades = push_bit 1 1"

lemma type_of_code_type_code [simp]: "type_of_code (type_code t) = Some t"
  by (cases t) (simp_all add: type_of_code_def msg_types_def)

lemma type_of_code_Some: "type_of_code c = Some t \<Longrightarrow> type_code t = c"
  by (auto simp: type_of_code_def find_Some_iff)

lemma status_code_inject [simp]: "status_code a = status_code b \<longleftrightarrow> a = b"
  by (cases a; cases b) simp_all

section \<open>Packed structures\<close>

type_synonym layout = "(string \<times> nat) list"

definition sizeof :: "layout \<Rightarrow> nat" where
  "sizeof L = sum_list (map snd L)"

fun offsetof :: "layout \<Rightarrow> string \<Rightarrow> nat" where
  "offsetof [] f = 0"
| "offsetof ((g, n) # L) f = (if f = g then 0 else n + offsetof L f)"

fun fieldsize :: "layout \<Rightarrow> string \<Rightarrow> nat" where
  "fieldsize [] f = 0"
| "fieldsize ((g, n) # L) f = (if f = g then n else fieldsize L f)"

definition Message_layout :: layout where
  "Message_layout = [(''pid'', 8), (''type'', 1), (''status'', 1), (''data'', 0)]"

definition RegisterMessage_layout :: layout where
  "RegisterMessage_layout = [(''name'', 32), (''server_pid'', 8), (''err'', 256)]"

definition WsOpen_layout :: layout where
  "WsOpen_layout = [(''url'', 512), (''api_key'', 512), (''client_pid'', 8), (''id'', 8),
    (''new_connection'', 1), (''err'', 256)]"

definition WsClose_layout :: layout where
  "WsClose_layout = [(''id'', 8)]"

definition WsSubscription_layout :: layout where
  "WsSubscription_layout = [(''symbol'', 256), (''id'', 8), (''request_len'', 4),
    (''existing'', 1), (''type'', 1), (''request'', 0)]"

definition WsRequest_layout :: layout where
  "WsRequest_layout = [(''id'', 8), (''len'', 4), (''data'', 0)]"

definition WsError_layout :: layout where
  "WsError_layout = [(''id'', 8), (''len'', 4), (''err'', 0)]"

definition WsData_layout :: layout where
  "WsData_layout = [(''id'', 8), (''len'', 4), (''remaining'', 4), (''data'', 0)]"

definition LogLevel_layout :: layout where
  "LogLevel_layout = [(''level'', 1)]"

lemmas layout_defs = Message_layout_def RegisterMessage_layout_def WsOpen_layout_def
  WsClose_layout_def WsSubscription_layout_def WsRequest_layout_def WsError_layout_def
  WsData_layout_def LogLevel_layout_def

lemma sizeof_simps [simp]:
  "sizeof Message_layout = 10" "sizeof RegisterMessage_layout = 296"
  "sizeof WsOpen_layout = 1297" "sizeof WsClose_layout = 8"
  "sizeof WsSubscription_layout = 270" "sizeof WsRequest_layout = 12"
  "sizeof WsError_layout = 12" "sizeof WsData_layout = 16" "sizeof LogLevel_layout = 1"
  by (simp_all add: layout_defs sizeof_def)

lemma offsetof_fieldsize_le:
  "f \<in> fst ` set L \<Longrightarrow> offsetof L f + fieldsize L f \<le> sizeof L"
  by (induction L f rule: offsetof.induct) (auto simp: sizeof_def)

lemma offsetof_disjoint:
  assumes "f \<in> fst ` set L" and "g \<in> fst ` set L" and "f \<noteq> g"
  shows "offsetof L f + fieldsize L f \<le> offsetof L g \<or> offsetof L g + fieldsize L g \<le> offsetof L f"
  using assms
proof (induction L)
  case Nil
  then show ?case by simp
next
  case (Cons h L)
  obtain k n where h: "h = (k, n)" by (cases h)
  show ?case
    using Cons by (cases "f = k"; cases "g = k") (auto simp: h)
qed

section \<open>Accessors\<close>

text \<open>The address of a field of \<open>reinterpret_cast<L*>(msg->data)\<close>, for a message at \<open>p\<close>.\<close>

definition fld :: "layout \<Rightarrow> string \<Rightarrow> nat \<Rightarrow> nat" where
  "fld L f p = p + offsetof Message_layout ''data'' + offsetof L f"

definition msg_pid :: "mem \<Rightarrow> nat \<Rightarrow> u64" where
  "msg_pid m p = load_u64 m (p + offsetof Message_layout ''pid'')"

definition msg_type :: "mem \<Rightarrow> nat \<Rightarrow> u8" where
  "msg_type m p = load_u8 m (p + offsetof Message_layout ''type'')"

definition msg_status :: "mem \<Rightarrow> nat \<Rightarrow> u8" where
  "msg_status m p = load_u8 m (p + offsetof Message_layout ''status'')"

definition set_pid :: "mem \<Rightarrow> nat \<Rightarrow> u64 \<Rightarrow> mem" where
  "set_pid m p v = store_u64 m (p + offsetof Message_layout ''pid'') v"

definition set_type :: "mem \<Rightarrow> nat \<Rightarrow> msg_type \<Rightarrow> mem" where
  "set_type m p t = store_u8 m (p + offsetof Message_layout ''type'') (type_code t)"

definition set_status :: "mem \<Rightarrow> nat \<Rightarrow> msg_status \<Rightarrow> mem" where
  "set_status m p st = store_u8 m (p + offsetof Message_layout ''status'') (status_code st)"

text \<open>\<open>get_message_size<T>(data_len)\<close>, in 32-bit arithmetic.\<close>

definition get_message_size :: "layout \<Rightarrow> u32 \<Rightarrow> u32" where
  "get_message_size L data_len = of_nat (sizeof Message_layout) + of_nat (sizeof L) + data_len"

lemma fld_simps [layout]:
  "fld RegisterMessage_layout ''name'' p = p + 10"
  "fld RegisterMessage_layout ''server_pid'' p = p + 42"
  "fld RegisterMessage_layout ''err'' p = p + 50"
  "fld WsOpen_layout ''url'' p = p + 10"
  "fld WsOpen_layout ''api_key'' p = p + 522"
  "fld WsOpen_layout ''client_pid'' p = p + 1034"
  "fld WsOpen_layout ''id'' p = p + 1042"
  "fld WsOpen_layout ''new_connection'' p = p + 1050"
  "fld WsOpen_layout ''err'' p = p + 1051"
  "fld WsClose_layout ''id'' p = p + 10"
  "fld WsSubscription_layout ''symbol'' p = p + 10"
  "fld WsSubscription_layout ''id'' p = p + 266"
  "fld WsSubscription_layout ''request_len'' p = p + 274"
  "fld WsSubscription_layout ''existing'' p = p + 278"
  "fld WsSubscription_layout ''type'' p = p + 279"
  "fld WsSubscription_layout ''request'' p = p + 280"
  "fld WsRequest_layout ''id'' p = p + 10"
  "fld WsRequest_layout ''len'' p = p + 18"
  "fld WsRequest_layout ''data'' p = p + 22"
  "fld WsError_layout ''id'' p = p + 10"
  "fld WsError_layout ''len'' p = p + 18"
  "fld WsError_layout ''err'' p = p + 22"
  "fld WsData_layout ''id'' p = p + 10"
  "fld WsData_layout ''len'' p = p + 18"
  "fld WsData_layout ''remaining'' p = p + 22"
  "fld WsData_layout ''data'' p = p + 26"
  "fld LogLevel_layout ''level'' p = p + 10"
  by (simp_all add: fld_def layout_defs)

lemma msg_access [layout]:
  "msg_pid m p = load_u64 m p"
  "msg_type m p = load_u8 m (p + 8)"
  "msg_status m p = load_u8 m (p + 9)"
  "set_pid m p v = store_u64 m p v"
  "set_type m p t = store_u8 m (p + 8) (type_code t)"
  "set_status m p st = store_u8 m (p + 9) (status_code st)"
  by (simp_all add: msg_pid_def msg_type_def msg_status_def set_pid_def set_type_def
      set_status_def layout_defs)

lemma msg_status_set_status [simp]: "msg_status (set_status m p st) p = status_code st"
  by (simp add: layout)

lemma msg_type_set_type [simp]: "msg_type (set_type m p t) p = type_code t"
  by (simp add: layout)

text \<open>The size of a message does not wrap as long as the payload leaves room for the header.\<close>

lemma unat_get_message_size:
  assumes "unat len + sizeof L + 10 < 2 ^ 32"
  shows "unat (get_message_size L len) = 10 + sizeof L + unat len"
  using assms by (simp add: get_message_size_def unat_word_ariths unat_of_nat)

section \<open>A message built in a fresh block\<close>

text \<open>
  \<open>reserveMessage\<close> of both sides: the reserved block is zeroed and the sender's pid stored.
  The block is private until it is published, so it is built here at address 0 of a memory
  of its own; publishing hands over its first \<open>n\<close> bytes.
\<close>

definition reserve_block :: "u64 \<Rightarrow> mem" where
  "reserve_block sender = set_pid zero_mem 0 sender"

text \<open>\<open>holds m p bs\<close>: the message whose bytes are \<open>bs\<close> lies at address \<open>p\<close> of \<open>m\<close>.\<close>

definition holds :: "mem \<Rightarrow> nat \<Rightarrow> string \<Rightarrow> bool" where
  "holds m p bs \<longleftrightarrow> load m p (length bs) = bs"

lemma holds_load:
  assumes "holds m p (load b 0 n)" and "off + k \<le> n"
  shows "load m (p + off) k = load b off k"
  using load_shift [of m p n b 0 off k] assms by (simp add: holds_def)

lemma holds_loads:
  assumes "holds m p (load b 0 n)"
  shows "off + 1 \<le> n \<Longrightarrow> load_u8 m (p + off) = load_u8 b off"
    and "off + 4 \<le> n \<Longrightarrow> load_u32 m (p + off) = load_u32 b off"
    and "off + 8 \<le> n \<Longrightarrow> load_u64 m (p + off) = load_u64 b off"
    and "off + k \<le> n \<Longrightarrow> load_cstr m (p + off) k = load_cstr b off k"
  using holds_load [OF assms]
  by (simp_all add: load_u8_def load_u32_def load_u64_def load_cstr_def)

lemma holds_self: "holds b 0 (load b 0 n)"
  by (simp add: holds_def)

end
