(* ===== verification/Ws_Url.thy ===== *)
theory Ws_Url
  imports Bytes
begin

text \<open>
  The URL that the constructor of \<open>Websocket\<close> (\<open>src/websocket.h\<close>) takes apart: the protocol,
  host and path by \<open>std::string::find\<close> and \<open>substr\<close>, then the port by \<open>std::stoi\<close>, which may
  throw.
\<close>

section \<open>Searching a string\<close>

fun find_sub :: "string \<Rightarrow> string \<Rightarrow> nat option" where
  "find_sub n [] = (if n = [] then Some 0 else None)"
| "find_sub n (c # cs) =
     (if take (length n) (c # cs) = n then Some 0 else map_option Suc (find_sub n cs))"

text \<open>\<open>s.find(n, from)\<close>.\<close>

definition find_from :: "string \<Rightarrow> string \<Rightarrow> nat \<Rightarrow> nat option" where
  "find_from n s k = map_option (\<lambda>i. k + i) (find_sub n (drop k s))"

lemma find_sub_None_char: "find_sub [c] s = None \<longleftrightarrow> c \<notin> set s"
  by (induction s) auto

lemma find_sub_char: "c \<notin> set s \<Longrightarrow> find_sub [c] (s @ c # t) = Some (length s)"
  by (induction s) auto

lemma find_sub_skip:
  assumes "c \<notin> set s" and "n = c # n'"
  shows "find_sub n (s @ n @ t) = Some (length s)"
  using assms by (induction s) auto

lemma find_sub_absent: "c \<notin> set s \<Longrightarrow> find_sub (c # n) s = None"
  by (induction s) auto

section \<open>The constructor's parse\<close>

record endpoint =
  ep_host :: string
  ep_path :: string
  ep_port :: u16

text \<open>Protocol, host and path.\<close>

definition split_url :: "string \<Rightarrow> string \<times> string \<times> string" where
  "split_url url = (case find_sub ''://'' url of
     None \<Rightarrow>
       (case find_sub ''/'' url of
          None \<Rightarrow> (''wss'', url, ''/'')
        | Some pos \<Rightarrow> (''wss'', take pos url, drop pos url))
   | Some pos \<Rightarrow>
       (let host_begin = pos + 3 in
        case find_from ''/'' url host_begin of
          None \<Rightarrow> (take pos url, drop host_begin url, ''/'')
        | Some pos1 \<Rightarrow>
            (take pos url, take (pos1 - host_begin) (drop host_begin url), drop pos1 url)))"

text \<open>
  The port: \<open>port_\<close> starts as \<open>(uint16_t)-1\<close>, is set from the digits behind the colon, and is
  replaced by the protocol's default where it (still) has that value.
\<close>

definition split_port :: "string \<Rightarrow> exn + string \<times> u16" where
  "split_port host = (case find_sub '':'' host of
     None \<Rightarrow> Inr (host, - 1)
   | Some pos \<Rightarrow>
       if pos \<noteq> 3 \<and> pos \<noteq> 4 then
         (case stoi (drop (pos + 1) host) of
            Inl e \<Rightarrow> Inl e
          | Inr i \<Rightarrow> Inr (take pos host, word_of_int i))
       else Inr (host, - 1))"

definition default_port :: "string \<Rightarrow> u16" where
  "default_port protoco = (if protoco = ''ws'' then 80 else 443)"

definition parse_url :: "string \<Rightarrow> exn + endpoint" where
  "parse_url url = (case split_url url of (protoco, host, path) \<Rightarrow>
     (case split_port host of
        Inl e \<Rightarrow> Inl e
      | Inr (h, port) \<Rightarrow>
          Inr \<lparr>ep_host = h, ep_path = path,
               ep_port = (if port = - 1 then default_port protoco else port)\<rparr>))"

section \<open>What the parse yields\<close>

lemma split_url_scheme:
  assumes "CHR '':'' \<notin> set scheme" and "CHR ''/'' \<notin> set host"
    and "path = [] \<or> hd path = CHR ''/''"
  shows "split_url (scheme @ ''://'' @ host @ path) =
    (scheme, host, if path = [] then ''/'' else path)"
proof -
  have f: "find_sub ''://'' (scheme @ ''://'' @ host @ path) = Some (length scheme)"
    using assms(1) by (rule find_sub_skip) simp
  have d: "drop (length scheme + 3) (scheme @ ''://'' @ host @ path) = host @ path"
    by simp
  show ?thesis
  proof (cases path)
    case Nil
    then have "find_sub ''/'' (host @ path) = None"
      using assms(2) by (simp add: find_sub_None_char)
    with f d Nil show ?thesis by (simp add: split_url_def find_from_def)
  next
    case (Cons c cs)
    with assms(3) have c: "c = CHR ''/''" by simp
    then have "find_sub ''/'' (host @ path) = Some (length host)"
      using assms(2) Cons by (simp add: find_sub_char)
    with f d Cons show ?thesis by (simp add: split_url_def find_from_def numeral_3_eq_3)
  qed
qed

lemma split_port_none: "CHR '':'' \<notin> set host \<Longrightarrow> split_port host = Inr (host, - 1)"
  by (simp add: split_port_def find_sub_None_char [THEN iffD2])

lemma split_port_digits:
  assumes "CHR '':'' \<notin> set host" and "length host \<noteq> 3" and "length host \<noteq> 4" and "n < 2 ^ 31"
  shows "split_port (host @ '':'' @ dec n) = Inr (host, of_nat n)"
proof -
  have "find_sub '':'' (host @ '':'' @ dec n) = Some (length host)"
    using assms(1) find_sub_char [of "CHR '':''" host "dec n"] by simp
  then show ?thesis
    using assms(2-4) by (simp add: split_port_def stoi_dec)
qed

lemma split_port_short:
  assumes "CHR '':'' \<notin> set host" and "length host = 3 \<or> length host = 4"
  shows "split_port (host @ '':'' @ rest) = Inr (host @ '':'' @ rest, - 1)"
  using assms find_sub_char [of "CHR '':''" host rest] by (auto simp: split_port_def)

lemma dec_no_slash: "CHR ''/'' \<notin> set (dec n)" "CHR '':'' \<notin> set (dec n)"
  using dec_digits [of _ n] digit_not_special(4,5) by blast+

section \<open>Properties\<close>

text \<open>
  C34: What the constructor finds in a URL \<open>scheme://host:port/path\<close>, for every scheme without a colon, every
  host without \<open>/\<close> and \<open>:\<close>, every port of 16 bits printed in decimal and every path that is empty or
  starts with \<open>/\<close>.  It finds exactly these parts (\<open>/\<close> for the empty path), with two exceptions: a host of
  three or four characters keeps the text \<open>:port\<close> in its name, because the colon is taken for the one
  of a protocol, and gets the default port of the scheme, 80 for \<open>ws\<close> and 443 for anything else; and
  port 65535, which stands for none, becomes the default port too.
\<close>

theorem parse_url_roundtrip:
  assumes "CHR '':'' \<notin> set scheme" and "CHR ''/'' \<notin> set host" and "CHR '':'' \<notin> set host"
    and "port \<le> 65535" and "path = [] \<or> hd path = CHR ''/''"
  shows "parse_url (scheme @ ''://'' @ host @ '':'' @ dec port @ path) = Inr
    (if length host = 3 \<or> length host = 4
     then \<lparr>ep_host = host @ '':'' @ dec port, ep_path = (if path = [] then ''/'' else path),
           ep_port = (if scheme = ''ws'' then 80 else 443)\<rparr>
     else \<lparr>ep_host = host, ep_path = (if path = [] then ''/'' else path),
           ep_port = (if port \<noteq> 65535 then of_nat port else if scheme = ''ws'' then 80 else 443)\<rparr>)"
proof -
  have u: "split_url (scheme @ ''://'' @ (host @ '':'' @ dec port) @ path) =
      (scheme, host @ '':'' @ dec port, if path = [] then ''/'' else path)"
    by (rule split_url_scheme) (use assms dec_no_slash in auto)
  show ?thesis
  proof (cases "length host = 3 \<or> length host = 4")
    case True
    then show ?thesis
      using u split_port_short [OF assms(3) True, of "dec port"] by (simp add: parse_url_def default_port_def)
  next
    case False
    have "split_port (host @ '':'' @ dec port) = Inr (host, of_nat port)"
      by (rule split_port_digits) (use assms False in auto)
    moreover have "(of_nat port :: u16) = - 1 \<longleftrightarrow> port = 65535"
    proof
      assume "(of_nat port :: u16) = - 1"
      moreover have "(- 1 :: u16) = 65535" by simp
      ultimately have "unat (of_nat port :: u16) = unat (65535 :: u16)" by metis
      then show "port = 65535" using assms(4) by (simp add: unat_of_nat)
    qed simp
    ultimately show ?thesis using u False by (simp add: parse_url_def default_port_def)
  qed
qed

theorem parse_url_roundtrip_witness:
  "parse_url (''wss'' @ ''://'' @ ''stream.data.alpaca.markets'' @ '':'' @ dec 8443 @ ''/v2/iex'') =
    Inr \<lparr>ep_host = ''stream.data.alpaca.markets'', ep_path = ''/v2/iex'', ep_port = 8443\<rparr> \<and>
   parse_url (''ws'' @ ''://'' @ ''box1'' @ '':'' @ dec 9001 @ []) =
    Inr \<lparr>ep_host = ''box1'' @ '':'' @ dec 9001, ep_path = ''/'', ep_port = 80\<rparr>"
  using parse_url_roundtrip [of "''wss''" "''stream.data.alpaca.markets''" 8443 "''/v2/iex''"]
    parse_url_roundtrip [of "''ws''" "''box1''" 9001 "[]"]
  by simp

text \<open>
  Without a port in the URL the protocol decides: 80 for \<open>ws\<close>, 443 for anything else; and a
  text without \<open>://\<close> is taken as host and path of a \<open>wss\<close> URL.
\<close>

theorem parse_url_default_port:
  assumes "CHR '':'' \<notin> set scheme" and "CHR ''/'' \<notin> set host" and "CHR '':'' \<notin> set host"
    and "CHR '':'' \<notin> set path" and "hd path = CHR ''/''" and "path \<noteq> []"
  shows "parse_url (scheme @ ''://'' @ host @ path) =
      Inr \<lparr>ep_host = host, ep_path = path, ep_port = (if scheme = ''ws'' then 80 else 443)\<rparr> \<and>
    parse_url (scheme @ ''://'' @ host) =
      Inr \<lparr>ep_host = host, ep_path = ''/'', ep_port = (if scheme = ''ws'' then 80 else 443)\<rparr> \<and>
    parse_url (host @ path) = Inr \<lparr>ep_host = host, ep_path = path, ep_port = 443\<rparr>"
proof -
  obtain cs where cs: "path = CHR ''/'' # cs" using assms(5,6) by (cases path) auto
  have "find_sub ''://'' (host @ path) = None"
    using assms(3,4) by (intro find_sub_absent) auto
  moreover have "find_sub ''/'' (host @ path) = Some (length host)"
    using assms(2) cs by (simp add: find_sub_char)
  ultimately have "split_url (host @ path) = (''wss'', host, path)"
    by (simp add: split_url_def)
  then show ?thesis
    using split_url_scheme [OF assms(1,2), of path] split_url_scheme [OF assms(1,2), of "[]"]
      split_port_none [OF assms(3)] assms(5,6)
    by (simp add: parse_url_def default_port_def)
qed

theorem parse_url_default_port_example:
  "parse_url ''ws://host.com/x'' = Inr \<lparr>ep_host = ''host.com'', ep_path = ''/x'', ep_port = 80\<rparr>
   \<and> parse_url ''host.com/x'' = Inr \<lparr>ep_host = ''host.com'', ep_path = ''/x'', ep_port = 443\<rparr>"
  using parse_url_default_port [of "''ws''" "''host.com''" "''/x''"] by simp

text \<open>
  The constructor throws exactly when the host has a colon at a position other than 3 and 4 and
  the text behind it is not a decimal \<open>int\<close>; it never throws on a host without a colon.
\<close>

theorem parse_url_throws_iff:
  "parse_url url = Inl e \<longleftrightarrow>
    (\<exists>pos. find_sub '':'' (fst (snd (split_url url))) = Some pos \<and> pos \<noteq> 3 \<and> pos \<noteq> 4 \<and>
       stoi (drop (pos + 1) (fst (snd (split_url url)))) = Inl e)"
  by (auto simp: parse_url_def split_port_def split: prod.splits option.splits sum.splits if_splits)

end
