(* ===== verification/Proxy_State.thy ===== *)
theory Proxy_State
  imports Wire Ws_Url
begin

text \<open>
  The state of the server process: \<open>WebsocketProxy\<close> (\<open>src/websocket_proxy.h\<close>) with the
  \<open>Websocket\<close> objects (\<open>src/websocket.h\<close>) its two maps share.  A \<open>shared_ptr<Websocket>\<close> is a
  reference into \<open>heap\<close>, so that the two maps, the coroutines and the pending operations can
  name the same object.  \<open>shm\<close> is the memory of the client queue, which the handlers read
  requests from and write responses into.

  Calls that leave the repository are values: what the program hands to the server queue, to
  the sockets or to the logger is appended to \<open>trace\<close>; operations whose completion handler is
  outstanding are kept in \<open>io\<close>, coroutines in \<open>opens\<close>, posted handlers in \<open>tasks\<close>.  What the
  program gets back from such a call is an argument of the definitions, or a function of
  \<open>environment\<close>: the clock, and the dynamic buffer's \<open>prepare\<close>/\<open>commit\<close> and \<open>consume\<close>.
\<close>

section \<open>Status of a websocket\<close>

datatype ws_status = CONNECTING | CONNECTED | DISCONNECTING | DISCONNECTED

fun ws_status_code :: "ws_status \<Rightarrow> nat" where
  "ws_status_code CONNECTING = 0"
| "ws_status_code CONNECTED = 1"
| "ws_status_code DISCONNECTING = 2"
| "ws_status_code DISCONNECTED = 3"

lemma ws_status_code_inject: "ws_status_code a = ws_status_code b \<Longrightarrow> a = b"
  by (cases a; cases b) simp_all

instantiation ws_status :: linorder
begin

definition less_eq_ws_status :: "ws_status \<Rightarrow> ws_status \<Rightarrow> bool" where
  "less_eq_ws_status a b \<longleftrightarrow> ws_status_code a \<le> ws_status_code b"

definition less_ws_status :: "ws_status \<Rightarrow> ws_status \<Rightarrow> bool" where
  "less_ws_status a b \<longleftrightarrow> ws_status_code a < ws_status_code b"

instance
  by standard
    (auto simp: less_eq_ws_status_def less_ws_status_def intro: ws_status_code_inject)

end

lemma ws_status_less_simps [simp]:
  "CONNECTING < DISCONNECTING" "CONNECTED < DISCONNECTING"
  "\<not> DISCONNECTING < DISCONNECTING" "\<not> DISCONNECTED < DISCONNECTING"
  by (simp_all add: less_ws_status_def)

lemma ws_status_less_iff: "st < DISCONNECTING \<longleftrightarrow> st = CONNECTING \<or> st = CONNECTED"
  by (cases st) simp_all

section \<open>Objects\<close>

record subscription =
  sub_type :: u8
  sub_clients :: "u64 set"

record websocket =
  ws_url :: string
  ws_api_key :: string
  ws_host :: string
  ws_path :: string
  ws_port :: u16
  ws_id :: u64
  ws_clients :: "u64 set"
  ws_subscriptions :: "string \<rightharpoonup> subscription"
  ws_status :: ws_status
  ws_w_buffer :: string

record client_info =
  ci_pid :: u64
  ci_last_heartbeat_time :: u64

section \<open>The world outside\<close>

datatype error_kind = ErrClosed | ErrEof | ErrAborted | ErrOther

text \<open>An \<open>error_code\<close> that is set: its kind, as far as the code asks, and its \<open>message()\<close>.\<close>

type_synonym error_code = "error_kind \<times> string"

datatype io_op =
    ResolveOp nat string u16
  | ConnectOp nat
  | SslHandshakeOp nat
  | WsHandshakeOp nat string string
  | ReadOp nat
  | WriteOp nat string
  | CloseOp nat
  | TimerOp

datatype action =
    Publish string
  | Start io_op
  | PushClosed u64
  | SetLogLevel u8
  | IocStop

datatype task =
    FirstHeartbeat | StartHeartbeat | ProcessClientMessage | ShutdownTask | ShutdownTimer

datatype open_phase = Spawned | Resolving | Connecting | SslHandshaking | WsHandshaking

record pending_open =
  po_ref :: nat
  po_msg :: nat
  po_phase :: open_phase

record environment =
  env_clock :: "nat \<Rightarrow> u64"
  env_commit :: "string \<Rightarrow> string \<Rightarrow> string"
  env_consume :: "string \<Rightarrow> nat \<Rightarrow> string"

record proxy =
  env :: environment
  ticks :: nat
  run :: bool
  last_heartbeat_time :: u64
  shutdown_time :: u64
  pid :: u64
  clients :: "(u64 \<times> client_info) list"
  websocketsById :: "(u64 \<times> nat) list"
  websocketsByUrlApiKey :: "string \<times> string \<rightharpoonup> nat"
  websocket_id :: u32
  heap :: "nat \<Rightarrow> websocket"
  next_ref :: nat
  shm :: mem
  opens :: "pending_open list"
  io :: "io_op list"
  tasks :: "task list"
  trace :: "action list"

text \<open>
  The documented behaviour of a dynamic buffer: what is committed is appended to the readable
  bytes, what is consumed is removed from their front.
\<close>

definition buffer_laws :: "environment \<Rightarrow> bool" where
  "buffer_laws e \<longleftrightarrow>
     (\<forall>b x. env_commit e b x = b @ x) \<and> (\<forall>b n. env_consume e b n = drop n b)"

section \<open>State updates\<close>

text \<open>Every call of \<open>get_timestamp\<close> reads the clock once; two calls may give two times.\<close>

definition get_timestamp :: "proxy \<Rightarrow> u64" where
  "get_timestamp s = env_clock (env s) (ticks s)"

definition tick :: "proxy \<Rightarrow> proxy" where
  "tick s = s\<lparr>ticks := Suc (ticks s)\<rparr>"

definition emit :: "action \<Rightarrow> proxy \<Rightarrow> proxy" where
  "emit a s = s\<lparr>trace := trace s @ [a]\<rparr>"

definition start_io :: "io_op \<Rightarrow> proxy \<Rightarrow> proxy" where
  "start_io op s = (emit (Start op) s)\<lparr>io := io s @ [op]\<rparr>"

definition post :: "task \<Rightarrow> proxy \<Rightarrow> proxy" where
  "post t s = s\<lparr>tasks := tasks s @ [t]\<rparr>"

definition upd_sock :: "nat \<Rightarrow> (websocket \<Rightarrow> websocket) \<Rightarrow> proxy \<Rightarrow> proxy" where
  "upd_sock r f s = s\<lparr>heap := (heap s)(r := f (heap s r))\<rparr>"

definition upd_shm :: "(mem \<Rightarrow> mem) \<Rightarrow> proxy \<Rightarrow> proxy" where
  "upd_shm f s = s\<lparr>shm := f (shm s)\<rparr>"

lemmas upd_defs = tick_def emit_def start_io_def post_def upd_sock_def upd_shm_def

definition set_ws_status :: "nat \<Rightarrow> ws_status \<Rightarrow> proxy \<Rightarrow> proxy" where
  "set_ws_status r st s = upd_sock r (\<lambda>w. w\<lparr>ws_status := st\<rparr>) s"

text \<open>What is published, in order.\<close>

definition published :: "proxy \<Rightarrow> string list" where
  "published s = concat (map (\<lambda>a. case a of Publish m \<Rightarrow> [m] | _ \<Rightarrow> []) (trace s))"

section \<open>The state after construction\<close>

text \<open>
  The member initialisers of \<open>WebsocketProxy\<close>: an environment, the process id and the memory of
  the freshly created client queue.  No reference is in use yet, so what the heap holds at one
  does not matter.
\<close>

definition no_websocket :: websocket where
  "no_websocket = \<lparr>ws_url = [], ws_api_key = [], ws_host = [], ws_path = [], ws_port = - 1,
     ws_id = 0, ws_clients = {}, ws_subscriptions = Map.empty, ws_status = DISCONNECTED,
     ws_w_buffer = []\<rparr>"

definition WebsocketProxy_init :: "environment \<Rightarrow> u64 \<Rightarrow> mem \<Rightarrow> proxy" where
  "WebsocketProxy_init e p m = \<lparr>env = e, ticks = 0, run = True, last_heartbeat_time = 0,
     shutdown_time = 0, pid = p, clients = [], websocketsById = [],
     websocketsByUrlApiKey = Map.empty, websocket_id = 0, heap = (\<lambda>_. no_websocket), next_ref = 0,
     shm = m, opens = [], io = [], tasks = [], trace = []\<rparr>"

lemma init_simps [simp]:
  "env (WebsocketProxy_init e p m) = e" "ticks (WebsocketProxy_init e p m) = 0"
  "run (WebsocketProxy_init e p m) = True" "last_heartbeat_time (WebsocketProxy_init e p m) = 0"
  "shutdown_time (WebsocketProxy_init e p m) = 0" "pid (WebsocketProxy_init e p m) = p"
  "clients (WebsocketProxy_init e p m) = []" "websocketsById (WebsocketProxy_init e p m) = []"
  "websocketsByUrlApiKey (WebsocketProxy_init e p m) = Map.empty"
  "websocket_id (WebsocketProxy_init e p m) = 0"
  "heap (WebsocketProxy_init e p m) = (\<lambda>_. no_websocket)" "next_ref (WebsocketProxy_init e p m) = 0"
  "shm (WebsocketProxy_init e p m) = m" "opens (WebsocketProxy_init e p m) = []"
  "io (WebsocketProxy_init e p m) = []" "tasks (WebsocketProxy_init e p m) = []"
  "trace (WebsocketProxy_init e p m) = []"
  by (simp_all add: WebsocketProxy_init_def)

text \<open>A concrete environment for the examples: a clock that advances a millisecond per reading.\<close>

definition demo_env :: environment where
  "demo_env = \<lparr>env_clock = (\<lambda>n. 1000 + of_nat n), env_commit = (\<lambda>b x. b @ x),
     env_consume = (\<lambda>b n. drop n b)\<rparr>"

lemma demo_env_simps [simp]:
  "env_clock demo_env n = 1000 + of_nat n" "env_commit demo_env b x = b @ x"
  "env_consume demo_env b n = drop n b"
  by (simp_all add: demo_env_def)

lemma buffer_laws_demo [simp]: "buffer_laws demo_env"
  by (simp add: buffer_laws_def)

end
