(* ===== verification/Callbacks.thy ===== *)
theory Callbacks
  imports Proxy_State
begin

text \<open>
  The messages the server publishes to its clients (\<open>src/websocket_proxy.cpp\<close>:
  \<open>sendMessageToClient\<close>, \<open>sendHeartbeat\<close> and the callbacks \<open>onWsOpened\<close>, \<open>onWsClosed\<close>,
  \<open>onWsError\<close>, \<open>onWsData\<close>).  A message is built in the reserved, zeroed block and its first
  \<open>size\<close> bytes are published.
\<close>

section \<open>Sending\<close>

definition sendMessageToClient_at :: "proxy \<Rightarrow> mem \<Rightarrow> u32 \<Rightarrow> u64 \<Rightarrow> proxy" where
  "sendMessageToClient_at s m sz now =
     (emit (Publish (load m 0 (unat sz))) s)\<lparr>last_heartbeat_time := now\<rparr>"

definition sendMessageToClient :: "proxy \<Rightarrow> mem \<Rightarrow> u32 \<Rightarrow> proxy" where
  "sendMessageToClient s m sz = sendMessageToClient_at (tick s) m sz (get_timestamp s)"

definition sendHeartbeat :: "proxy \<Rightarrow> u64 \<Rightarrow> bool \<times> proxy" where
  "sendHeartbeat s now =
     (if now - last_heartbeat_time s > HEARTBEAT_INTERVAL then
        (let m = set_type (reserve_block (pid s)) 0 Heartbeat
         in (True, sendMessageToClient_at s m (of_nat (sizeof Message_layout)) now))
      else (False, s))"

section \<open>Websocket callbacks\<close>

definition onWsOpened :: "proxy \<Rightarrow> u64 \<Rightarrow> u64 \<Rightarrow> proxy" where
  "onWsOpened s i client_pid =
     (let m0 = set_type (reserve_block (pid s)) 0 OpenWs;
          m1 = store_u64 m0 (fld WsOpen_layout ''id'' 0) i;
          m2 = store_u64 m1 (fld WsOpen_layout ''client_pid'' 0) client_pid;
          m3 = store_u8 m2 (fld WsOpen_layout ''new_connection'' 0) 1
      in sendMessageToClient s m3 (get_message_size WsOpen_layout 0))"

definition onWsClosed :: "proxy \<Rightarrow> u64 \<Rightarrow> proxy" where
  "onWsClosed s i =
     (let m0 = set_type (reserve_block (pid s)) 0 CloseWs;
          m1 = store_u64 m0 (fld WsClose_layout ''id'' 0) i
      in emit (PushClosed i) (sendMessageToClient s m1 (get_message_size WsClose_layout 0)))"

text \<open>\<open>err\<close> is the text at the pointer, of which \<open>len\<close> bytes are copied.\<close>

definition onWsError :: "proxy \<Rightarrow> u64 \<Rightarrow> string \<Rightarrow> u32 \<Rightarrow> proxy" where
  "onWsError s i err len =
     (let m0 = set_type (reserve_block (pid s)) 0 WsError;
          m1 = store_u64 m0 (fld WsError_layout ''id'' 0) i;
          m2 = store_u32 m1 (fld WsError_layout ''len'' 0) len;
          m3 = (if len \<noteq> 0 then store m2 (fld WsError_layout ''err'' 0) (take (unat len) err) else m2)
      in sendMessageToClient s m3 (get_message_size WsError_layout len))"

definition onWsData :: "proxy \<Rightarrow> u64 \<Rightarrow> string \<Rightarrow> u32 \<Rightarrow> u32 \<Rightarrow> proxy" where
  "onWsData s i data len remaining =
     (let m0 = set_type (reserve_block (pid s)) 0 WsData;
          m1 = store_u64 m0 (fld WsData_layout ''id'' 0) i;
          m2 = store_u32 m1 (fld WsData_layout ''len'' 0) len;
          m3 = store_u32 m2 (fld WsData_layout ''remaining'' 0) remaining;
          m4 = (if len \<noteq> 0 then store m3 (fld WsData_layout ''data'' 0) (take (unat len) data) else m3)
      in sendMessageToClient s m4 (get_message_size WsData_layout len))"

section \<open>What sending leaves alone\<close>

text \<open>
  \<open>core\<close> forgets what every send changes: the trace, the number of clock readings and the
  time of the last message.  A callback leaves the core of the state as it is.
\<close>

definition core :: "proxy \<Rightarrow> proxy" where
  "core s = s\<lparr>trace := [], ticks := 0, last_heartbeat_time := 0\<rparr>"

lemmas send_defs = sendMessageToClient_def sendMessageToClient_at_def onWsOpened_def
  onWsClosed_def onWsError_def onWsData_def

lemma core_send [simp]:
  "core (sendMessageToClient_at s m sz now) = core s"
  "core (sendMessageToClient s m sz) = core s"
  "core (onWsOpened s i c) = core s"
  "core (onWsClosed s i) = core s"
  "core (onWsError s i e len) = core s"
  "core (onWsData s i d len rm) = core s"
  "core (tick s) = core s"
  "core (emit a s) = core s"
  by (simp_all add: core_def send_defs upd_defs Let_def)

lemma core_sendHeartbeat [simp]: "core (snd (sendHeartbeat s now)) = core s"
  by (simp add: sendHeartbeat_def Let_def)

lemma core_fields:
  assumes "core s = core t"
  shows "env s = env t" and "run s = run t" and "shutdown_time s = shutdown_time t"
    and "pid s = pid t" and "clients s = clients t" and "websocketsById s = websocketsById t"
    and "websocketsByUrlApiKey s = websocketsByUrlApiKey t" and "websocket_id s = websocket_id t"
    and "heap s = heap t" and "next_ref s = next_ref t" and "shm s = shm t"
    and "opens s = opens t" and "io s = io t" and "tasks s = tasks t"
  using assms by (cases s; cases t; simp add: core_def)+

lemmas frame_tick [simp] = core_fields [OF core_send(7)]
lemmas frame_emit [simp] = core_fields [OF core_send(8)]
lemmas frame_sendMessageToClient_at [simp] = core_fields [OF core_send(1)]
lemmas frame_sendMessageToClient [simp] = core_fields [OF core_send(2)]
lemmas frame_onWsOpened [simp] = core_fields [OF core_send(3)]
lemmas frame_onWsClosed [simp] = core_fields [OF core_send(4)]
lemmas frame_onWsError [simp] = core_fields [OF core_send(5)]
lemmas frame_onWsData [simp] = core_fields [OF core_send(6)]
lemmas frame_sendHeartbeat [simp] = core_fields [OF core_sendHeartbeat]

lemma trace_send [simp]:
  "trace (tick s) = trace s"
  "trace (emit a s) = trace s @ [a]"
  "trace (sendMessageToClient_at s m sz now) = trace s @ [Publish (load m 0 (unat sz))]"
  "trace (sendMessageToClient s m sz) = trace s @ [Publish (load m 0 (unat sz))]"
  by (simp_all add: send_defs upd_defs)

lemma last_heartbeat_send [simp]:
  "last_heartbeat_time (sendMessageToClient_at s m sz now) = now"
  "last_heartbeat_time (sendMessageToClient s m sz) = get_timestamp s"
  "last_heartbeat_time (tick s) = last_heartbeat_time s"
  by (simp_all add: send_defs tick_def)

section \<open>The published messages\<close>

lemma load_pad: "n \<le> k \<Longrightarrow> load m 0 k = load m 0 n @ load m n (k - n)"
  by (rule nth_equalityI) (auto simp: nth_load nth_append)

lemma onWsData_fields:
  assumes "trace (onWsData s i data len 0) = trace s @ [Publish bs]"
    and "holds m p bs" and "length data = unat len" and "unat len + 26 < 2 ^ 32"
  shows "msg_pid m p = pid s" and "msg_type m p = type_code WsData"
    and "load_u64 m (fld WsData_layout ''id'' p) = i"
    and "load_u32 m (fld WsData_layout ''len'' p) = len"
    and "load_u32 m (fld WsData_layout ''remaining'' p) = 0"
    and "load m (fld WsData_layout ''data'' p) (unat len) = data"
proof -
  define b where "b =
    (let m0 = set_type (reserve_block (pid s)) 0 WsData;
         m1 = store_u64 m0 (fld WsData_layout ''id'' 0) i;
         m2 = store_u32 m1 (fld WsData_layout ''len'' 0) len;
         m3 = store_u32 m2 (fld WsData_layout ''remaining'' 0) 0
     in if len \<noteq> 0 then store m3 (fld WsData_layout ''data'' 0) (take (unat len) data) else m3)"
  have sz: "unat (get_message_size WsData_layout len) = 26 + unat len"
    using unat_get_message_size [of len WsData_layout] assms(4) by simp
  have "bs = load b 0 (26 + unat len)"
    using assms(1) by (simp add: onWsData_def b_def Let_def sz)
  then have h: "holds m p (load b 0 (26 + unat len))" using assms(2) by simp
  have tk: "take (unat len) data = data" using assms(3) by simp
  note at = holds_loads [OF h] holds_load [OF h]
  show "msg_pid m p = pid s"
    using at(3) [of 0] by (simp add: b_def Let_def layout reserve_block_def)
  show "msg_type m p = type_code WsData"
    using at(1) [of 8] by (simp add: b_def Let_def layout reserve_block_def del: type_code.simps)
  show "load_u64 m (fld WsData_layout ''id'' p) = i"
    using at(3) [of 10] by (simp add: b_def Let_def layout reserve_block_def)
  show "load_u32 m (fld WsData_layout ''len'' p) = len"
    using at(2) [of 18] by (simp add: b_def Let_def layout reserve_block_def)
  show "load_u32 m (fld WsData_layout ''remaining'' p) = 0"
    using at(2) [of 22] by (simp add: b_def Let_def layout reserve_block_def)
  show "load m (fld WsData_layout ''data'' p) (unat len) = data"
  proof (cases "len = 0")
    case True
    then show ?thesis using assms(3) by simp
  next
    case False
    have "load b 26 (unat len) = data"
      using False tk load_store_same [of _ 26 data] assms(3) by (simp add: b_def Let_def layout)
    then show ?thesis using at(5) [of 26 "unat len"] by (simp add: layout)
  qed
qed

text \<open>
  What a client reads from a published data message is what arrived on the socket: wherever
  the published bytes lie in the client's memory, the message has the server's pid and type
  \<open>WsData\<close>, the id and length the socket reported, and the payload byte for byte.
\<close>

theorem onWsData_published:
  assumes "trace (onWsData s i data len 0) = trace s @ [Publish bs]"
    and "holds m p bs" and "length data = unat len" and "unat len + 26 < 2 ^ 32"
  shows "msg_pid m p = pid s \<and> msg_type m p = type_code WsData \<and>
    load_u64 m (fld WsData_layout ''id'' p) = i \<and>
    load_u32 m (fld WsData_layout ''len'' p) = len \<and>
    load_u32 m (fld WsData_layout ''remaining'' p) = 0 \<and>
    load m (fld WsData_layout ''data'' p) (unat len) = data"
  using onWsData_fields [OF assms] by simp

theorem onWsData_published_example:
  "\<exists>s m bs. holds m 7 bs \<and> trace (onWsData s 30001 ''tick'' 4 0) = trace s @ [Publish bs]
    \<and> msg_pid m 7 = pid s \<and> load m (fld WsData_layout ''data'' 7) 4 = ''tick''"
proof -
  define s0 where "s0 = WebsocketProxy_init demo_env 3 zero_mem"
  define bs where "bs = load (let m0 = set_type (reserve_block (pid s0)) 0 WsData;
         m1 = store_u64 m0 (fld WsData_layout ''id'' 0) 30001;
         m2 = store_u32 m1 (fld WsData_layout ''len'' 0) 4;
         m3 = store_u32 m2 (fld WsData_layout ''remaining'' 0) 0
     in store m3 (fld WsData_layout ''data'' 0) ''tick'') 0 30"
  define m where "m = store zero_mem 7 bs"
  have t: "trace (onWsData s0 30001 ''tick'' 4 0) = trace s0 @ [Publish bs]"
    by (simp add: onWsData_def bs_def Let_def get_message_size_def)
  have h: "holds m 7 bs" by (simp add: holds_def m_def)
  have "length ''tick'' = unat (4 :: u32)" and "unat (4 :: u32) + 26 < 2 ^ 32" by simp_all
  note w = onWsData_published [OF t h this]
  have "load m (fld WsData_layout ''data'' 7) 4 = ''tick''" using w by simp
  then show ?thesis using t h w by blast
qed

end
