(* ===== verification/Ws_Connection.thy ===== *)
theory Ws_Connection
  imports Callbacks
begin

text \<open>
  The class \<open>Websocket\<close> (\<open>src/websocket.h\<close>): construction, the connecting coroutine \<open>open\<close>,
  \<open>close\<close>, \<open>send\<close> and the completion handlers \<open>on_write\<close>, \<open>on_read\<close> and \<open>on_close\<close>.  Each
  definition acts on the object at reference \<open>r\<close> of the server's heap; starting an asynchronous
  operation makes it pending, and its result is an argument of the handler.
\<close>

section \<open>Construction\<close>

definition Websocket_new :: "u64 \<Rightarrow> string \<Rightarrow> string \<Rightarrow> exn + websocket" where
  "Websocket_new i url api_key = (case parse_url url of
     Inl e \<Rightarrow> Inl e
   | Inr ep \<Rightarrow> Inr \<lparr>ws_url = url, ws_api_key = api_key, ws_host = ep_host ep, ws_path = ep_path ep,
       ws_port = ep_port ep, ws_id = i, ws_clients = {}, ws_subscriptions = Map.empty,
       ws_status = DISCONNECTED, ws_w_buffer = []\<rparr>)"

section \<open>Closing, sending, failing\<close>

definition websocket_close :: "proxy \<Rightarrow> nat \<Rightarrow> proxy" where
  "websocket_close s r =
     (if ws_status (heap s r) < DISCONNECTING then
        start_io (CloseOp r) (set_ws_status r DISCONNECTING s)
      else s)"

text \<open>
  \<open>send\<close> appends the bytes to the write buffer and writes the whole readable part of it.
\<close>

definition websocket_send :: "proxy \<Rightarrow> nat \<Rightarrow> string \<Rightarrow> proxy" where
  "websocket_send s r buffer =
     (let b = env_commit (env s) (ws_w_buffer (heap s r)) buffer
      in start_io (WriteOp r b) (upd_sock r (\<lambda>w. w\<lparr>ws_w_buffer := b\<rparr>) s))"

definition websocket_fail ::
    "proxy \<Rightarrow> nat \<Rightarrow> error_code \<Rightarrow> (bool \<Rightarrow> proxy \<Rightarrow> proxy) option \<Rightarrow> bool \<Rightarrow> proxy" where
  "websocket_fail s r ec callback close_connection =
     (let err_msg = snd ec;
          s1 = onWsError s (ws_id (heap s r)) err_msg (of_nat (length err_msg));
          s2 = (case callback of Some f \<Rightarrow> f False s1 | None \<Rightarrow> s1)
      in if close_connection \<and> ws_status (heap s2 r) < DISCONNECTING then websocket_close s2 r
         else s2)"

section \<open>Completion handlers\<close>

text \<open>The errors \<open>on_read\<close> and \<open>on_write\<close> report; the others are dropped.\<close>

definition reportable :: "ws_status \<Rightarrow> error_code \<Rightarrow> bool" where
  "reportable st ec \<longleftrightarrow> st \<noteq> DISCONNECTED \<and> fst ec \<noteq> ErrClosed \<and> fst ec \<noteq> ErrEof \<and>
     fst ec \<noteq> ErrAborted"

definition websocket_on_write :: "proxy \<Rightarrow> nat \<Rightarrow> error_code option \<Rightarrow> nat \<Rightarrow> proxy" where
  "websocket_on_write s r ec bytes_transferred = (case ec of
     Some e \<Rightarrow> if reportable (ws_status (heap s r)) e then websocket_fail s r e None True else s
   | None \<Rightarrow> upd_sock r (\<lambda>w. w\<lparr>ws_w_buffer := env_consume (env s) (ws_w_buffer w) bytes_transferred\<rparr>) s)"

text \<open>\<open>data\<close> is what \<open>r_buffer_.data()\<close> points to, \<open>bytes_transferred\<close> bytes of it are new.\<close>

definition websocket_on_read ::
    "proxy \<Rightarrow> nat \<Rightarrow> error_code option \<Rightarrow> string \<Rightarrow> nat \<Rightarrow> proxy" where
  "websocket_on_read s r ec data bytes_transferred = (case ec of
     Some e \<Rightarrow> if reportable (ws_status (heap s r)) e then websocket_fail s r e None True else s
   | None \<Rightarrow>
       (let s1 = onWsData s (ws_id (heap s r)) data (of_nat bytes_transferred) 0
        in if ws_status (heap s1 r) = CONNECTED then start_io (ReadOp r) s1 else s1))"

definition websocket_on_close :: "proxy \<Rightarrow> nat \<Rightarrow> error_code option \<Rightarrow> proxy" where
  "websocket_on_close s r ec =
     (let s1 = (case ec of
            Some e \<Rightarrow> if fst e \<noteq> ErrClosed then websocket_fail s r e None True else s
          | None \<Rightarrow> s);
          s2 = set_ws_status r DISCONNECTED s1
      in onWsClosed s2 (ws_id (heap s2 r)))"

section \<open>The connecting coroutine\<close>

text \<open>
  \<open>open\<close> suspends at four operations.  \<open>outcome\<close> is what the resumed operation yields: an error,
  or success; the connect also yields the port it connected to and whether the host name could
  be set on the TLS session.
\<close>

record outcome =
  oc_error :: "error_code option"
  oc_port :: u16
  oc_sni_error :: "error_code option"

fun websocket_open ::
    "(bool \<Rightarrow> proxy \<Rightarrow> proxy) \<Rightarrow> proxy \<Rightarrow> nat \<Rightarrow> open_phase \<Rightarrow> outcome \<Rightarrow> proxy \<times> open_phase option" where
  "websocket_open callback s r Spawned oc =
     (let s1 = set_ws_status r CONNECTING s
      in (start_io (ResolveOp r (ws_host (heap s1 r)) (ws_port (heap s1 r))) s1, Some Resolving))"
| "websocket_open callback s r Resolving oc = (case oc_error oc of
     Some e \<Rightarrow> (websocket_fail s r e (Some callback) True, None)
   | None \<Rightarrow> (start_io (ConnectOp r) s, Some Connecting))"
| "websocket_open callback s r Connecting oc = (case oc_error oc of
     Some e \<Rightarrow> (websocket_fail s r e (Some callback) True, None)
   | None \<Rightarrow> (case oc_sni_error oc of
       Some e \<Rightarrow> (websocket_fail s r e (Some callback) True, None)
     | None \<Rightarrow>
         (let s1 = upd_sock r (\<lambda>w. w\<lparr>ws_host := ws_host w @ '':'' @ dec (unat (oc_port oc))\<rparr>) s
          in (start_io (SslHandshakeOp r) s1, Some SslHandshaking))))"
| "websocket_open callback s r SslHandshaking oc = (case oc_error oc of
     Some e \<Rightarrow> (websocket_fail s r e (Some callback) True, None)
   | None \<Rightarrow>
       (start_io (WsHandshakeOp r (ws_host (heap s r)) (ws_path (heap s r))) s, Some WsHandshaking))"
| "websocket_open callback s r WsHandshaking oc = (case oc_error oc of
     Some e \<Rightarrow> (websocket_fail s r e (Some callback) True, None)
   | None \<Rightarrow> (callback True (start_io (ReadOp r) (set_ws_status r CONNECTED s)), None))"

section \<open>What these operations leave alone\<close>

text \<open>
  \<open>tables\<close> is the part of the state that belongs to \<open>WebsocketProxy\<close>: no method of a
  websocket touches it, except through the callback it is given.
\<close>

definition tables :: "proxy \<Rightarrow> proxy" where
  "tables s = (core s)\<lparr>heap := (\<lambda>_. no_websocket), io := []\<rparr>"

lemma tables_eq [simp]:
  "tables (start_io op s) = tables s"
  "tables (upd_sock r f s) = tables s"
  "tables (set_ws_status r st s) = tables s"
  by (simp_all add: tables_def core_def upd_defs set_ws_status_def)

lemma tables_cong: "core s = core t \<Longrightarrow> tables s = tables t"
  by (simp add: tables_def)

lemma tables_core [simp]:
  "tables (tick s) = tables s"
  "tables (emit a s) = tables s"
  "tables (onWsOpened s i c) = tables s"
  "tables (onWsClosed s i) = tables s"
  "tables (onWsError s i e len) = tables s"
  "tables (onWsData s i d len rm) = tables s"
  "tables (sendMessageToClient s m sz) = tables s"
  "tables (sendMessageToClient_at s m sz now) = tables s"
  by (rule tables_cong, simp)+

lemma tables_websocket [simp]:
  "tables (websocket_close s r) = tables s"
  "tables (websocket_send s r b) = tables s"
  "tables (websocket_fail s r e None c) = tables s"
  "tables (websocket_on_write s r ec n) = tables s"
  "tables (websocket_on_read s r ec d n) = tables s"
  "tables (websocket_on_close s r ec) = tables s"
  by (simp_all add: websocket_close_def websocket_send_def websocket_fail_def websocket_on_write_def
      websocket_on_read_def websocket_on_close_def Let_def split: option.split)

lemma tables_fields:
  assumes "tables s = tables t"
  shows "env s = env t" and "run s = run t" and "shutdown_time s = shutdown_time t"
    and "pid s = pid t" and "clients s = clients t" and "websocketsById s = websocketsById t"
    and "websocketsByUrlApiKey s = websocketsByUrlApiKey t" and "websocket_id s = websocket_id t"
    and "next_ref s = next_ref t" and "shm s = shm t" and "opens s = opens t" and "tasks s = tasks t"
  using assms by (cases s; cases t; simp add: tables_def core_def)+

lemmas frame_start_io [simp] = tables_fields [OF tables_eq(1)]
lemmas frame_upd_sock [simp] = tables_fields [OF tables_eq(2)]
lemmas frame_set_ws_status [simp] = tables_fields [OF tables_eq(3)]
lemmas frame_close [simp] = tables_fields [OF tables_websocket(1)]
lemmas frame_send [simp] = tables_fields [OF tables_websocket(2)]
lemmas frame_fail [simp] = tables_fields [OF tables_websocket(3)]
lemmas frame_on_write [simp] = tables_fields [OF tables_websocket(4)]
lemmas frame_on_read [simp] = tables_fields [OF tables_websocket(5)]
lemmas frame_on_close [simp] = tables_fields [OF tables_websocket(6)]

lemma heap_start_io [simp]: "heap (start_io op s) = heap s"
  by (simp add: upd_defs)

lemma heap_upd_sock [simp]: "heap (upd_sock r f s) = (heap s)(r := f (heap s r))"
  by (simp add: upd_defs)

lemma heap_set_ws_status [simp]:
  "heap (set_ws_status r st s) = (heap s)(r := (heap s r)\<lparr>ws_status := st\<rparr>)"
  by (simp add: set_ws_status_def)

lemma io_start_io [simp]: "io (start_io op s) = io s @ [op]"
  by (simp add: upd_defs)

lemma io_upd_sock [simp]: "io (upd_sock r f s) = io s" "io (set_ws_status r st s) = io s"
  by (simp_all add: upd_defs set_ws_status_def)

lemma trace_start_io [simp]:
  "trace (start_io op s) = trace s @ [Start op]"
  "trace (upd_sock r f s) = trace s" "trace (set_ws_status r st s) = trace s"
  by (simp_all add: upd_defs set_ws_status_def)

text \<open>Closing changes nothing of a websocket but its status, and no other websocket.\<close>

lemma heap_close:
  "heap (websocket_close s r) = (heap s)(r := (heap s r)\<lparr>ws_status :=
     (if ws_status (heap s r) < DISCONNECTING then DISCONNECTING else ws_status (heap s r))\<rparr>)"
  by (simp add: websocket_close_def)

lemma heap_send:
  "heap (websocket_send s r b) = (heap s)(r := (heap s r)\<lparr>ws_w_buffer :=
     env_commit (env s) (ws_w_buffer (heap s r)) b\<rparr>)"
  by (simp add: websocket_send_def Let_def)

lemma heap_fail:
  "heap (websocket_fail s r e None True) = (heap s)(r := (heap s r)\<lparr>ws_status :=
     (if ws_status (heap s r) < DISCONNECTING then DISCONNECTING else ws_status (heap s r))\<rparr>)"
  by (simp add: websocket_fail_def heap_close Let_def fun_upd_idem)

lemma heap_on_write:
  "heap (websocket_on_write s r ec n) = (heap s)(r := (case ec of
     Some e \<Rightarrow> (heap s r)\<lparr>ws_status :=
       (if reportable (ws_status (heap s r)) e \<and> ws_status (heap s r) < DISCONNECTING
        then DISCONNECTING else ws_status (heap s r))\<rparr>
   | None \<Rightarrow> (heap s r)\<lparr>ws_w_buffer := env_consume (env s) (ws_w_buffer (heap s r)) n\<rparr>))"
  by (simp add: websocket_on_write_def heap_fail fun_upd_idem split: option.split)

lemma heap_on_read:
  "heap (websocket_on_read s r ec d n) = (heap s)(r := (case ec of
     Some e \<Rightarrow> (heap s r)\<lparr>ws_status :=
       (if reportable (ws_status (heap s r)) e \<and> ws_status (heap s r) < DISCONNECTING
        then DISCONNECTING else ws_status (heap s r))\<rparr>
   | None \<Rightarrow> heap s r))"
  by (simp add: websocket_on_read_def heap_fail fun_upd_idem Let_def split: option.split)

lemma heap_on_close:
  "heap (websocket_on_close s r ec) = (heap s)(r := (heap s r)\<lparr>ws_status := DISCONNECTED\<rparr>)"
  by (simp add: websocket_on_close_def heap_fail Let_def split: option.split)

section \<open>The status machine\<close>

text \<open>The operations that act on an established or established-to-be connection.\<close>

datatype ws_event =
    WsDoClose
  | WsDoSend string
  | WsWritten "error_code option" nat
  | WsRead "error_code option" string nat
  | WsClosedDone "error_code option"

fun ws_step :: "proxy \<Rightarrow> nat \<Rightarrow> ws_event \<Rightarrow> proxy" where
  "ws_step s r WsDoClose = websocket_close s r"
| "ws_step s r (WsDoSend b) = websocket_send s r b"
| "ws_step s r (WsWritten ec n) = websocket_on_write s r ec n"
| "ws_step s r (WsRead ec d n) = websocket_on_read s r ec d n"
| "ws_step s r (WsClosedDone ec) = websocket_on_close s r ec"

lemma heap_ws_step:
  "\<exists>st b. heap (ws_step s r e) = (heap s)(r := (heap s r)\<lparr>ws_status := st, ws_w_buffer := b\<rparr>)
     \<and> ws_status (heap s r) \<le> st"
proof -
  have le: "st \<le> DISCONNECTED" for st
    by (cases st) (simp_all add: less_eq_ws_status_def)
  have low: "st < DISCONNECTING \<Longrightarrow> st \<le> DISCONNECTING" for st
    by simp
  have self: "w = w\<lparr>ws_status := ws_status w, ws_w_buffer := ws_w_buffer w\<rparr>" for w :: websocket
    by simp
  show ?thesis
  proof (cases e)
    case WsDoClose
    then show ?thesis
      by (intro exI [of _ "ws_status (heap (websocket_close s r) r)"] exI [of _ "ws_w_buffer (heap s r)"])
        (simp add: heap_close low)
  next
    case (WsDoSend b)
    then show ?thesis
      by (intro exI [of _ "ws_status (heap s r)"] exI) (simp add: heap_send fun_upd_eqD)
  next
    case (WsWritten ec n)
    then show ?thesis
      by (intro exI [of _ "ws_status (heap (websocket_on_write s r ec n) r)"]
          exI [of _ "ws_w_buffer (heap (websocket_on_write s r ec n) r)"])
        (simp add: heap_on_write low split: option.split)
  next
    case (WsRead ec d n)
    then show ?thesis
      by (intro exI [of _ "ws_status (heap (websocket_on_read s r ec d n) r)"]
          exI [of _ "ws_w_buffer (heap s r)"])
        (simp add: heap_on_read low split: option.split)
  next
    case (WsClosedDone ec)
    then show ?thesis
      by (intro exI [of _ DISCONNECTED] exI [of _ "ws_w_buffer (heap s r)"]) (simp add: heap_on_close le)
  qed
qed

fun ws_run :: "proxy \<Rightarrow> nat \<Rightarrow> ws_event list \<Rightarrow> proxy" where
  "ws_run s r [] = s"
| "ws_run s r (e # es) = ws_run (ws_step s r e) r es"

text \<open>
  The life of a connection only goes forward.  Whatever is sent, read, written, closed or
  reported on it, in any order, its status never falls back to an earlier one, and the object
  keeps its identity: url, key, id, clients and subscriptions stay, as does every other object.
\<close>

theorem ws_run_monotone:
  "ws_status (heap s r) \<le> ws_status (heap (ws_run s r es) r) \<and>
   ws_id (heap (ws_run s r es) r) = ws_id (heap s r) \<and>
   ws_url (heap (ws_run s r es) r) = ws_url (heap s r) \<and>
   ws_api_key (heap (ws_run s r es) r) = ws_api_key (heap s r) \<and>
   ws_clients (heap (ws_run s r es) r) = ws_clients (heap s r) \<and>
   ws_subscriptions (heap (ws_run s r es) r) = ws_subscriptions (heap s r) \<and>
   (\<forall>q. q = r \<or> heap (ws_run s r es) q = heap s q)"
proof (induction es arbitrary: s)
  case Nil
  then show ?case by simp
next
  case (Cons e es)
  obtain st b where h: "heap (ws_step s r e) = (heap s)(r := (heap s r)\<lparr>ws_status := st, ws_w_buffer := b\<rparr>)"
    and le: "ws_status (heap s r) \<le> st"
    using heap_ws_step [of s r e] by blast
  have "heap (ws_step s r e) q = heap s q" if "q \<noteq> r" for q
    using that by (simp add: h)
  with Cons [of "ws_step s r e"] order_trans [OF le] show ?case
    by (simp add: h) metis
qed

text \<open>The number of close operations started on a websocket.\<close>

definition closes_started :: "nat \<Rightarrow> proxy \<Rightarrow> nat" where
  "closes_started r s = length (filter (\<lambda>a. a = Start (CloseOp r)) (trace s))"

lemma closes_started_onWs [simp]:
  "closes_started r (onWsError s i e len) = closes_started r s"
  "closes_started r (onWsData s i d len rm) = closes_started r s"
  "closes_started r (onWsClosed s i) = closes_started r s"
  "closes_started r (set_ws_status q st s) = closes_started r s"
  "closes_started r (upd_sock q f s) = closes_started r s"
  by (simp_all add: closes_started_def onWsError_def onWsData_def onWsClosed_def Let_def)

lemma closes_started_start_io [simp]:
  "closes_started r (start_io op s) = closes_started r s + (if op = CloseOp r then 1 else 0)"
  by (simp add: closes_started_def)

lemma closes_started_close:
  "closes_started r (websocket_close s r) =
     closes_started r s + (if ws_status (heap s r) < DISCONNECTING then 1 else 0)"
  by (simp add: websocket_close_def)

lemma closes_started_fail:
  "closes_started r (websocket_fail s r e None True) =
     closes_started r s + (if ws_status (heap s r) < DISCONNECTING then 1 else 0)"
  by (simp add: websocket_fail_def closes_started_close Let_def)

lemma closes_started_step:
  "closes_started r (ws_step s r e) + (if ws_status (heap (ws_step s r e) r) < DISCONNECTING then 1 else 0)
   \<le> closes_started r s + (if ws_status (heap s r) < DISCONNECTING then 1 else 0)"
proof (cases e)
  case WsDoClose
  then show ?thesis by (simp add: closes_started_close heap_close)
next
  case (WsDoSend b)
  then show ?thesis by (simp add: websocket_send_def Let_def)
next
  case (WsWritten ec n)
  then show ?thesis
    by (simp add: websocket_on_write_def closes_started_fail heap_fail split: option.split)
next
  case (WsRead ec d n)
  then show ?thesis
    by (simp add: websocket_on_read_def closes_started_fail heap_fail Let_def split: option.split)
next
  case (WsClosedDone ec)
  then show ?thesis
    by (simp add: websocket_on_close_def closes_started_fail Let_def split: option.split)
qed

text \<open>
  C23: A connection is closed once.  However many clients leave, errors occur and handlers run, at
  most one close operation is started on it, and none if it was already on its way down.
\<close>

theorem close_started_at_most_once:
  "closes_started r (ws_run s r es) \<le>
     closes_started r s + (if ws_status (heap s r) < DISCONNECTING then 1 else 0)"
proof (induction es arbitrary: s)
  case Nil
  then show ?case by simp
next
  case (Cons e es)
  have "closes_started r (ws_run (ws_step s r e) r es) \<le> closes_started r (ws_step s r e) +
      (if ws_status (heap (ws_step s r e) r) < DISCONNECTING then 1 else 0)"
    by (rule Cons)
  also have "\<dots> \<le> closes_started r s + (if ws_status (heap s r) < DISCONNECTING then 1 else 0)"
    by (rule closes_started_step)
  finally show ?case by simp
qed

section \<open>What a send puts on the wire\<close>

fun send_all :: "proxy \<Rightarrow> nat \<Rightarrow> string list \<Rightarrow> proxy" where
  "send_all s r [] = s"
| "send_all s r (b # bs) = send_all (websocket_send s r b) r bs"

text \<open>
  A send that finds the write buffer empty writes exactly its bytes, and when that write
  completes the buffer is empty again: messages sent one at a time go out as they are.
\<close>

theorem send_then_written:
  assumes "buffer_laws (env s)" and "ws_w_buffer (heap s r) = []"
  shows "io (websocket_send s r b) = io s @ [WriteOp r b] \<and>
    heap (websocket_on_write (websocket_send s r b) r None (length b)) = heap s"
proof -
  have "(heap s)(r := (heap s r)\<lparr>ws_w_buffer := []\<rparr>) = heap s"
    by (rule fun_upd_idem) (use assms(2) in simp)
  then show ?thesis
    using assms
    by (simp add: websocket_send_def heap_on_write Let_def buffer_laws_def)
qed

theorem send_then_written_example:
  "io (websocket_send (WebsocketProxy_init demo_env 3 zero_mem) 0 ''ping'') = [WriteOp 0 ''ping'']"
  using send_then_written [of "WebsocketProxy_init demo_env 3 zero_mem" 0 "''ping''"]
  by (simp add: no_websocket_def)

text \<open>
  C35: Sends that overlap repeat each other's bytes.  If several messages are sent before the first
  write completes, the \<open>k\<close>-th write carries not its message but all messages sent so far.
\<close>

theorem overlapping_sends_repeat:
  assumes "buffer_laws (env s)"
  shows "io (send_all s r bs) =
    io s @ map (\<lambda>k. WriteOp r (ws_w_buffer (heap s r) @ concat (take (Suc k) bs))) [0..<length bs]"
  using assms
proof (induction bs arbitrary: s)
  case Nil
  then show ?case by simp
next
  case (Cons b bs)
  let ?s = "websocket_send s r b"
  have "env ?s = env s" "io ?s = io s @ [WriteOp r (ws_w_buffer (heap s r) @ b)]"
    "ws_w_buffer (heap ?s r) = ws_w_buffer (heap s r) @ b"
    using Cons.prems by (simp_all add: websocket_send_def Let_def buffer_laws_def)
  moreover have "[0..<length (b # bs)] = 0 # map Suc [0..<length bs]"
    by (simp add: upt_conv_Cons map_Suc_upt del: upt_Suc)
  ultimately show ?case
    using Cons.IH [of ?s] Cons.prems by (simp add: comp_def del: upt_Suc)
qed

theorem overlapping_sends_repeat_witness:
  "io (send_all (WebsocketProxy_init demo_env 3 zero_mem) 0 [''ab'', ''cd'']) =
    [WriteOp 0 ''ab'', WriteOp 0 ''abcd'']"
  using overlapping_sends_repeat [of "WebsocketProxy_init demo_env 3 zero_mem" 0 "[''ab'', ''cd'']"]
  by (simp add: no_websocket_def)

section \<open>A whole run of the coroutine\<close>

fun open_run ::
    "(bool \<Rightarrow> proxy \<Rightarrow> proxy) \<Rightarrow> proxy \<Rightarrow> nat \<Rightarrow> open_phase \<Rightarrow> outcome list \<Rightarrow> proxy \<times> open_phase option" where
  "open_run cb s r ph [] = (s, Some ph)"
| "open_run cb s r ph (oc # ocs) = (case websocket_open cb s r ph oc of
     (s', None) \<Rightarrow> (s', None)
   | (s', Some ph') \<Rightarrow> open_run cb s' r ph' ocs)"

definition oc_ok :: "outcome \<Rightarrow> bool" where
  "oc_ok oc \<longleftrightarrow> oc_error oc = None \<and> oc_sni_error oc = None"

text \<open>
  A connection attempt in which every step succeeds resolves, connects, negotiates TLS and the
  websocket in this order, with the host, port and path of the URL and the port it connected
  to appended to the host; it then starts reading, is \<open>CONNECTED\<close>, and reports success once.
\<close>

theorem open_run_success:
  assumes "oc_ok o1" and "oc_ok o2" and "oc_ok o3" and "oc_ok o4"
    and "w = heap s r" and "host' = ws_host w @ '':'' @ dec (unat (oc_port o2))"
  shows "\<exists>s'. open_run cb s r Spawned [o0, o1, o2, o3, o4] = (cb True s', None) \<and>
    io s' = io s @ [ResolveOp r (ws_host w) (ws_port w), ConnectOp r, SslHandshakeOp r,
      WsHandshakeOp r host' (ws_path w), ReadOp r] \<and>
    heap s' = (heap s)(r := w\<lparr>ws_host := host', ws_status := CONNECTED\<rparr>) \<and> tables s' = tables s"
proof -
  let ?s1 = "start_io (ConnectOp r) (start_io (ResolveOp r (ws_host w) (ws_port w)) (set_ws_status r CONNECTING s))"
  let ?s2 = "start_io (SslHandshakeOp r)
    (upd_sock r (\<lambda>w. w\<lparr>ws_host := ws_host w @ '':'' @ dec (unat (oc_port o2))\<rparr>) ?s1)"
  let ?s' = "start_io (ReadOp r) (set_ws_status r CONNECTED (start_io (WsHandshakeOp r host' (ws_path w)) ?s2))"
  have "open_run cb s r Spawned [o0, o1, o2, o3, o4] = (cb True ?s', None)"
    using assms by (simp add: oc_ok_def Let_def)
  moreover have "io ?s' = io s @ [ResolveOp r (ws_host w) (ws_port w), ConnectOp r, SslHandshakeOp r,
      WsHandshakeOp r host' (ws_path w), ReadOp r]"
    by simp
  moreover have "heap ?s' = (heap s)(r := w\<lparr>ws_host := host', ws_status := CONNECTED\<rparr>)"
    using assms(5,6) by simp
  moreover have "tables ?s' = tables s" by simp
  ultimately show ?thesis by blast
qed

theorem open_run_success_example:
  "\<exists>s'. open_run (\<lambda>_ s. s) (WebsocketProxy_init demo_env 3 zero_mem) 0 Spawned
      (replicate 5 \<lparr>oc_error = None, oc_port = 443, oc_sni_error = None\<rparr>) = (s', None) \<and>
    ws_status (heap s' 0) = CONNECTED"
proof -
  let ?oc = "\<lparr>oc_error = None, oc_port = 443, oc_sni_error = None\<rparr>"
  have "oc_ok ?oc" by (simp add: oc_ok_def)
  from open_run_success [OF this this this this refl refl, where cb = "\<lambda>_ s. s" and r = 0 and ?o0.0 = ?oc
      and s = "WebsocketProxy_init demo_env 3 zero_mem"]
  show ?thesis by (auto simp: numeral_eq_Suc)
qed

end
