(* ===== verification/Proxy.thy ===== *)
theory Proxy
  imports Ws_Connection
begin

text \<open>
  The request handlers of \<open>WebsocketProxy\<close> (\<open>src/websocket_proxy.cpp\<close>).  \<open>p\<close> is the address of
  the request in the client queue's memory; the response fields and the status are written back
  there.  A handler that can throw yields \<open>Inl\<close> of the exception and the state it left behind.
\<close>

unbundle bit_operations_syntax

section \<open>Request fields\<close>

definition open_url :: "mem \<Rightarrow> nat \<Rightarrow> string" where
  "open_url m p = load_cstr m (fld WsOpen_layout ''url'' p) 512"

definition open_api_key :: "mem \<Rightarrow> nat \<Rightarrow> string" where
  "open_api_key m p = load_cstr m (fld WsOpen_layout ''api_key'' p) 512"

definition sub_symbol :: "mem \<Rightarrow> nat \<Rightarrow> string" where
  "sub_symbol m p = load_cstr m (fld WsSubscription_layout ''symbol'' p) 256"

definition sub_id :: "mem \<Rightarrow> nat \<Rightarrow> u64" where
  "sub_id m p = load_u64 m (fld WsSubscription_layout ''id'' p)"

definition sub_req_type :: "mem \<Rightarrow> nat \<Rightarrow> u8" where
  "sub_req_type m p = load_u8 m (fld WsSubscription_layout ''type'' p)"

definition sub_request :: "mem \<Rightarrow> nat \<Rightarrow> string" where
  "sub_request m p = load m (fld WsSubscription_layout ''request'' p)
     (unat (load_u32 m (fld WsSubscription_layout ''request_len'' p)))"

definition reply :: "nat \<Rightarrow> msg_status \<Rightarrow> proxy \<Rightarrow> proxy" where
  "reply p st s = upd_shm (\<lambda>m. set_status m p st) s"

section \<open>Clients\<close>

definition getClient :: "proxy \<Rightarrow> u64 \<Rightarrow> bool \<times> proxy" where
  "getClient s q = (case um_find (clients s) q of
     Some c \<Rightarrow>
       (True, (tick s)\<lparr>clients := um_assign (clients s) q
                (c\<lparr>ci_last_heartbeat_time := get_timestamp s\<rparr>)\<rparr>)
   | None \<Rightarrow> (False, s))"

definition handleClientRegistration :: "proxy \<Rightarrow> nat \<Rightarrow> proxy" where
  "handleClientRegistration s p =
     (let q = msg_pid (shm s) p;
          s1 = upd_shm (\<lambda>m. store_u64 m (fld RegisterMessage_layout ''server_pid'' p) (pid s)) s;
          s2 = s1\<lparr>shutdown_time := 0\<rparr>;
          s3 = s2\<lparr>clients := um_emplace (clients s2) q \<lparr>ci_pid = 0, ci_last_heartbeat_time = 0\<rparr>\<rparr>;
          s4 = (tick s3)\<lparr>clients := um_assign (clients s3) q
                 \<lparr>ci_pid = q, ci_last_heartbeat_time = get_timestamp s3\<rparr>\<rparr>
      in reply p SUCCESS s4)"

section \<open>Closing\<close>

definition closeWs_id :: "proxy \<Rightarrow> u64 \<Rightarrow> u64 \<Rightarrow> proxy" where
  "closeWs_id s i q = (case um_find (websocketsById s) i of
     Some r \<Rightarrow>
       (let s1 = (if q \<in> ws_clients (heap s r)
                  then upd_sock r (\<lambda>w. w\<lparr>ws_clients := ws_clients w - {q}\<rparr>) s else s)
        in if ws_clients (heap s1 r) = {} then
             (let s2 = websocket_close s1 r;
                  w = heap s2 r
              in s2\<lparr>websocketsByUrlApiKey :=
                      fm_erase (websocketsByUrlApiKey s2) (ws_url w, ws_api_key w),
                    websocketsById := um_erase (websocketsById s2) i\<rparr>)
           else s1)
   | None \<Rightarrow> s)"

definition closeWs :: "proxy \<Rightarrow> nat \<Rightarrow> proxy" where
  "closeWs s p =
     (case getClient s (msg_pid (shm s) p) of (client, s1) \<Rightarrow>
       reply p SUCCESS
         (if client then
            closeWs_id s1 (load_u64 (shm s1) (fld WsClose_layout ''id'' p)) (msg_pid (shm s1) p)
          else s1))"

text \<open>The loop over \<open>websocketsById_\<close>: the client leaves every websocket; those that have no client
  left are collected.\<close>

fun leave_all :: "u64 \<Rightarrow> (u64 \<times> nat) list \<Rightarrow> proxy \<Rightarrow> u64 list \<Rightarrow> proxy \<times> u64 list" where
  "leave_all q [] s to_close = (s, to_close)"
| "leave_all q ((i, r) # kvs) s to_close =
     (if q \<in> ws_clients (heap s r) then
        (let s1 = upd_sock r (\<lambda>w. w\<lparr>ws_clients := ws_clients w - {q}\<rparr>) s
         in if ws_clients (heap s1 r) = {} then leave_all q kvs s1 (to_close @ [i])
            else leave_all q kvs s1 to_close)
      else leave_all q kvs s to_close)"

definition unregisterClient_iter :: "proxy \<Rightarrow> u64 \<Rightarrow> proxy" where
  "unregisterClient_iter s q =
     (case leave_all q (websocketsById s) s [] of (s1, to_close) \<Rightarrow>
       (let s2 = fold (\<lambda>i s. closeWs_id s i q) to_close s1;
            s3 = s2\<lparr>clients := um_erase (clients s2) q\<rparr>
        in if clients s3 = [] then (tick s3)\<lparr>shutdown_time := get_timestamp s3\<rparr> else s3))"

definition unregisterClient :: "proxy \<Rightarrow> u64 \<Rightarrow> proxy" where
  "unregisterClient s q = (case um_find (clients s) q of
     Some _ \<Rightarrow>
       (case leave_all q (websocketsById s) s [] of (s1, to_close) \<Rightarrow>
         (let s2 = fold (\<lambda>i s. closeWs_id s i q) to_close s1;
              s3 = s2\<lparr>clients := um_erase (clients s2) q\<rparr>
          in if clients s3 = [] then (tick s3)\<lparr>shutdown_time := get_timestamp s3\<rparr> else s3))
   | None \<Rightarrow> s)"

definition handleClientHeartbeat :: "proxy \<Rightarrow> nat \<Rightarrow> proxy" where
  "handleClientHeartbeat s p = snd (getClient s (msg_pid (shm s) p))"

section \<open>Opening\<close>

text \<open>The callback that \<open>openNewWs\<close> hands to the coroutine of the websocket at \<open>r\<close>.\<close>

definition open_callback :: "nat \<Rightarrow> nat \<Rightarrow> bool \<Rightarrow> proxy \<Rightarrow> proxy" where
  "open_callback r p success s =
     (if success then
        (let i = ws_id (heap s r);
             s1 = onWsOpened s i (msg_pid (shm s) p);
             s2 = upd_shm (\<lambda>m. store_u64 m (fld WsOpen_layout ''id'' p) i) s1;
             s3 = upd_shm (\<lambda>m. store_u64 m (fld WsOpen_layout ''client_pid'' p) (msg_pid m p)) s2;
             s4 = upd_sock r (\<lambda>w. w\<lparr>ws_clients := insert (msg_pid (shm s3) p) (ws_clients w)\<rparr>) s3;
             s5 = s4\<lparr>websocketsByUrlApiKey := fm_emplace (websocketsByUrlApiKey s4)
                    (open_url (shm s4) p, open_api_key (shm s4) p) r\<rparr>;
             s6 = s5\<lparr>websocketsById := um_emplace (websocketsById s5) i r\<rparr>
         in reply p SUCCESS s6)
      else reply p FAILED s)"

definition openNewWs :: "proxy \<Rightarrow> nat \<Rightarrow> (exn \<times> proxy) + proxy" where
  "openNewWs s p =
     (let s1 = upd_shm (\<lambda>m. store_u8 m (fld WsOpen_layout ''new_connection'' p) 1) s;
          s2 = s1\<lparr>websocket_id := websocket_id s1 + 1\<rparr>;
          i = pid s2 * 10000 + ucast (websocket_id s2);
          r = next_ref s2
      in case Websocket_new i (open_url (shm s2) p) (open_api_key (shm s2) p) of
           Inl e \<Rightarrow> Inl (e, s2)
         | Inr w \<Rightarrow> Inr (s2\<lparr>heap := (heap s2)(r := w), next_ref := Suc r,
             opens := opens s2 @ [\<lparr>po_ref = r, po_msg = p, po_phase = Spawned\<rparr>]\<rparr>))"

definition share_ws :: "proxy \<Rightarrow> nat \<Rightarrow> nat \<Rightarrow> proxy" where
  "share_ws s p r =
     (let q = msg_pid (shm s) p;
          st = ws_status (heap s r);
          s1 = upd_sock r (\<lambda>w. w\<lparr>ws_clients := insert q (ws_clients w)\<rparr>) s;
          i = ws_id (heap s1 r);
          s2 = upd_shm (\<lambda>m. store_u64 m (fld WsOpen_layout ''id'' p) i) s1;
          s3 = upd_shm (\<lambda>m. store_u64 m (fld WsOpen_layout ''client_pid'' p) (msg_pid m p)) s2;
          s4 = upd_shm (\<lambda>m. store_u8 m (fld WsOpen_layout ''new_connection'' p)
                 (if st = CONNECTING then 1 else 0)) s3;
          s5 = onWsOpened s4 i (msg_pid (shm s4) p)
      in reply p SUCCESS s5)"

text \<open>\<open>snprintf(req->err, 256, "Client %llu not found", msg.pid)\<close>: cut to 255 characters and NUL.\<close>

definition client_not_found :: "u64 \<Rightarrow> string" where
  "client_not_found q = ''Client '' @ dec (unat q) @ '' not found''"

definition openWs :: "proxy \<Rightarrow> nat \<Rightarrow> (exn \<times> proxy) + proxy" where
  "openWs s p =
     (case getClient s (msg_pid (shm s) p) of (client, s1) \<Rightarrow>
       if client then
         (case fm_find (websocketsByUrlApiKey s1) (open_url (shm s1) p, open_api_key (shm s1) p) of
            Some r \<Rightarrow>
              if ws_status (heap s1 r) \<noteq> DISCONNECTING \<and> ws_status (heap s1 r) \<noteq> DISCONNECTED
              then Inr (share_ws s1 p r)
              else openNewWs s1 p
          | None \<Rightarrow> openNewWs s1 p)
       else
         (let text = take 255 (client_not_found (msg_pid (shm s1) p)) @ [CHR 0x00];
              s2 = upd_shm (\<lambda>m. store m (fld WsOpen_layout ''err'' p) text) s1
          in Inr (reply p FAILED s2)))"

section \<open>Subscriptions and requests\<close>

definition upd_subs ::
    "nat \<Rightarrow> ((string \<rightharpoonup> subscription) \<Rightarrow> (string \<rightharpoonup> subscription)) \<Rightarrow> proxy \<Rightarrow> proxy" where
  "upd_subs r f s = upd_sock r (\<lambda>w. w\<lparr>ws_subscriptions := f (ws_subscriptions w)\<rparr>) s"

definition handleSubscribe :: "proxy \<Rightarrow> nat \<Rightarrow> proxy" where
  "handleSubscribe s p =
     (case getClient s (msg_pid (shm s) p) of (client, s1) \<Rightarrow>
       (let q = msg_pid (shm s1) p;
            symbol = sub_symbol (shm s1) p;
            rtype = sub_req_type (shm s1) p
        in if client then
             (case um_find (websocketsById s1) (sub_id (shm s1) p) of
                Some r \<Rightarrow>
                  (case fm_find (ws_subscriptions (heap s1 r)) symbol of
                     None \<Rightarrow>
                       (let s2 = upd_subs r (\<lambda>m. fm_emplace m symbol
                                   \<lparr>sub_type = rtype, sub_clients = {}\<rparr>) s1;
                            s3 = upd_subs r (\<lambda>m. fm_assign m symbol
                                   \<lparr>sub_type = rtype, sub_clients = {q}\<rparr>) s2;
                            s4 = websocket_send s3 r (sub_request (shm s3) p)
                        in reply p SUCCESS s4)
                   | Some sub \<Rightarrow>
                       (let sub1 = sub\<lparr>sub_clients := insert q (sub_clients sub)\<rparr>;
                            s2 = upd_subs r (\<lambda>m. fm_assign m symbol sub1) s1;
                            s3 = (if sub_type sub1 AND rtype = 0 then
                                    upd_subs r (\<lambda>m. fm_assign m symbol
                                        (sub1\<lparr>sub_type := sub_type sub1 OR rtype\<rparr>))
                                      (websocket_send s2 r (sub_request (shm s2) p))
                                  else s2);
                            s4 = upd_shm (\<lambda>m. store_u8 m (fld WsSubscription_layout ''existing'' p) 1) s3
                        in reply p SUCCESS s4))
              | None \<Rightarrow> reply p FAILED s1)
           else reply p FAILED s1))"

definition handleUnsubscribe :: "proxy \<Rightarrow> nat \<Rightarrow> proxy" where
  "handleUnsubscribe s p =
     (case getClient s (msg_pid (shm s) p) of (client, s1) \<Rightarrow>
       (let q = msg_pid (shm s1) p;
            symbol = sub_symbol (shm s1) p
        in reply p SUCCESS
          (if client then
             (case um_find (websocketsById s1) (sub_id (shm s1) p) of
                Some r \<Rightarrow>
                  (case fm_find (ws_subscriptions (heap s1 r)) symbol of
                     Some sub \<Rightarrow>
                       (let sub1 = sub\<lparr>sub_clients := sub_clients sub - {q}\<rparr>;
                            s2 = upd_subs r (\<lambda>m. fm_assign m symbol sub1) s1
                        in if sub_clients sub1 = {} then
                             websocket_send (upd_subs r (\<lambda>m. fm_erase m symbol) s2) r
                               (sub_request (shm s2) p)
                           else s2)
                   | None \<Rightarrow> s1)
              | None \<Rightarrow> s1)
           else s1)))"

definition sendWsRequest :: "proxy \<Rightarrow> nat \<Rightarrow> proxy" where
  "sendWsRequest s p =
     (case getClient s (msg_pid (shm s) p) of (client, s1) \<Rightarrow>
       (let i = load_u64 (shm s1) (fld WsRequest_layout ''id'' p);
            len = load_u32 (shm s1) (fld WsRequest_layout ''len'' p)
        in if client then
             (case um_find (websocketsById s1) i of
                Some r \<Rightarrow>
                  reply p SUCCESS
                    (websocket_send s1 r (load (shm s1) (fld WsRequest_layout ''data'' p) (unat len)))
              | None \<Rightarrow>
                  (let err = ''Failed to send message. Websocket not found. id='' @ dec (unat i)
                   in reply p FAILED (onWsError s1 i err (of_nat (length err)))))
           else
             (let err = ''Failed to send message. Client not found. pid='' @
                    dec (unat (msg_pid (shm s1) p))
              in reply p FAILED (onWsError s1 i err (of_nat (length err))))))"

section \<open>Dispatch\<close>

definition handleClientMessage :: "proxy \<Rightarrow> nat \<Rightarrow> (exn \<times> proxy) + proxy" where
  "handleClientMessage s p = (case type_of_code (msg_type (shm s) p) of
     Some Register \<Rightarrow> Inr (handleClientRegistration s p)
   | Some Unregister \<Rightarrow> Inr (unregisterClient s (msg_pid (shm s) p))
   | Some Heartbeat \<Rightarrow> Inr (handleClientHeartbeat s p)
   | Some OpenWs \<Rightarrow> openWs s p
   | Some CloseWs \<Rightarrow> Inr (closeWs s p)
   | Some WsRequest \<Rightarrow> Inr (sendWsRequest s p)
   | Some Subscribe \<Rightarrow> Inr (handleSubscribe s p)
   | Some Unsubscribe \<Rightarrow> Inr (handleUnsubscribe s p)
   | Some LogLevel \<Rightarrow>
       Inr (emit (SetLogLevel (load_u8 (shm s) (fld LogLevel_layout ''level'' p))) s)
   | Some WsData \<Rightarrow> Inr s
   | Some WsError \<Rightarrow> Inr s
   | None \<Rightarrow> Inr s)"

section \<open>Heartbeats, closed sockets and shutdown\<close>

text \<open>\<open>client.last_heartbeat_time\<close> is older than 30 s, in unsigned arithmetic.\<close>

definition heartbeat_lost :: "u64 \<Rightarrow> client_info \<Rightarrow> bool" where
  "heartbeat_lost now c \<longleftrightarrow> now - ci_last_heartbeat_time c > 30000"

fun check_clients :: "u64 \<Rightarrow> (u64 \<times> client_info) list \<Rightarrow> proxy \<Rightarrow> proxy" where
  "check_clients now [] s = s"
| "check_clients now ((q, c) # cs) s =
     (if heartbeat_lost now c then check_clients now cs (unregisterClient_iter s q)
      else check_clients now cs s)"

definition checkHeartbeats :: "proxy \<Rightarrow> bool \<times> proxy" where
  "checkHeartbeats s =
     (if clients s = [] then (False, s)
      else (case sendHeartbeat (tick s) (get_timestamp s) of (hasActivity, s1) \<Rightarrow>
        (hasActivity, check_clients (get_timestamp s) (clients s1) s1)))"

definition startHeartbeat :: "proxy \<Rightarrow> proxy" where
  "startHeartbeat s =
     (let s1 = snd (checkHeartbeats s)
      in if run s1 then post StartHeartbeat s1 else s1)"

text \<open>\<open>ids\<close> are the values the reads of \<open>closed_sockets_\<close> return before the one that returns none.\<close>

fun removeClosedSockets :: "u64 list \<Rightarrow> proxy \<Rightarrow> proxy" where
  "removeClosedSockets [] s = s"
| "removeClosedSockets (i # ids) s = (case um_find (websocketsById s) i of
     Some r \<Rightarrow> removeClosedSockets ids
       (s\<lparr>websocketsByUrlApiKey := fm_erase (websocketsByUrlApiKey s)
            (ws_url (heap s r), ws_api_key (heap s r)),
          websocketsById := um_erase (websocketsById s) i\<rparr>)
   | None \<Rightarrow> removeClosedSockets ids s)"

definition shutdown :: "proxy \<Rightarrow> proxy" where
  "shutdown s = post ShutdownTask s"

text \<open>The handler that \<open>shutdown\<close> posts, and the one that one posts in turn.\<close>

fun close_all :: "(u64 \<times> nat) list \<Rightarrow> proxy \<Rightarrow> proxy" where
  "close_all [] s = s"
| "close_all ((i, r) # kvs) s =
     (let s1 = websocket_close s r
      in close_all kvs (s1\<lparr>websocketsByUrlApiKey := fm_erase (websocketsByUrlApiKey s1)
           (ws_url (heap s1 r), ws_api_key (heap s1 r))\<rparr>))"

definition shutdown_task :: "proxy \<Rightarrow> proxy" where
  "shutdown_task s =
     (let s1 = s\<lparr>run := False\<rparr>;
          s2 = close_all (websocketsById s1) s1;
          s3 = s2\<lparr>websocketsById := []\<rparr>
      in post ShutdownTimer s3)"

definition shutdown_timer_task :: "proxy \<Rightarrow> proxy" where
  "shutdown_timer_task s = start_io TimerOp s"

text \<open>
  One turn of the polling task: \<open>rd\<close> is the message the read of the client queue returned, if
  any.
\<close>

definition processClientMessage ::
    "proxy \<Rightarrow> nat option \<Rightarrow> u64 list \<Rightarrow> (exn \<times> proxy) + proxy" where
  "processClientMessage s rd ids =
     (case (case rd of Some p \<Rightarrow> handleClientMessage s p | None \<Rightarrow> Inr s) of
        Inl (e, s1) \<Rightarrow> Inl (e, s1)
      | Inr s1 \<Rightarrow>
          (let s2 = removeClosedSockets ids s1
           in Inr (if run s2 then
                     (if shutdown_time s2 \<noteq> 0 then
                        (let now = get_timestamp s2; s3 = tick s2
                         in if now - shutdown_time s3 \<ge> 60000 then shutdown s3
                            else post ProcessClientMessage s3)
                      else post ProcessClientMessage s2)
                   else s2)))"

end
