(* ===== verification/Proxy_Facts.thy ===== *)
theory Proxy_Facts
  imports Proxy
begin

text \<open>
  What each handler of \<open>Proxy\<close> changes and what it leaves alone, field by field: the lemmas the
  properties of the server are proved from.
\<close>

section \<open>Small updates\<close>

lemma upd_shm_fields [simp]:
  "env (upd_shm f s) = env s" "ticks (upd_shm f s) = ticks s" "run (upd_shm f s) = run s"
  "last_heartbeat_time (upd_shm f s) = last_heartbeat_time s"
  "shutdown_time (upd_shm f s) = shutdown_time s" "pid (upd_shm f s) = pid s"
  "clients (upd_shm f s) = clients s" "websocketsById (upd_shm f s) = websocketsById s"
  "websocketsByUrlApiKey (upd_shm f s) = websocketsByUrlApiKey s"
  "websocket_id (upd_shm f s) = websocket_id s" "heap (upd_shm f s) = heap s"
  "next_ref (upd_shm f s) = next_ref s" "shm (upd_shm f s) = f (shm s)"
  "opens (upd_shm f s) = opens s" "io (upd_shm f s) = io s" "tasks (upd_shm f s) = tasks s"
  "trace (upd_shm f s) = trace s"
  by (simp_all add: upd_shm_def)

lemma reply_fields [simp]:
  "env (reply p st s) = env s" "ticks (reply p st s) = ticks s" "run (reply p st s) = run s"
  "last_heartbeat_time (reply p st s) = last_heartbeat_time s"
  "shutdown_time (reply p st s) = shutdown_time s" "pid (reply p st s) = pid s"
  "clients (reply p st s) = clients s" "websocketsById (reply p st s) = websocketsById s"
  "websocketsByUrlApiKey (reply p st s) = websocketsByUrlApiKey s"
  "websocket_id (reply p st s) = websocket_id s" "heap (reply p st s) = heap s"
  "next_ref (reply p st s) = next_ref s" "shm (reply p st s) = set_status (shm s) p st"
  "opens (reply p st s) = opens s" "io (reply p st s) = io s" "tasks (reply p st s) = tasks s"
  "trace (reply p st s) = trace s"
  by (simp_all add: reply_def)

lemma post_fields [simp]:
  "clients (post t s) = clients s" "websocketsById (post t s) = websocketsById s"
  "websocketsByUrlApiKey (post t s) = websocketsByUrlApiKey s" "heap (post t s) = heap s"
  "next_ref (post t s) = next_ref s" "shm (post t s) = shm s" "opens (post t s) = opens s"
  "io (post t s) = io s" "tasks (post t s) = tasks s @ [t]" "trace (post t s) = trace s"
  "run (post t s) = run s" "env (post t s) = env s" "shutdown_time (post t s) = shutdown_time s"
  "pid (post t s) = pid s" "websocket_id (post t s) = websocket_id s"
  by (simp_all add: post_def)

lemma upd_subs_fields [simp]:
  "clients (upd_subs r f s) = clients s" "websocketsById (upd_subs r f s) = websocketsById s"
  "websocketsByUrlApiKey (upd_subs r f s) = websocketsByUrlApiKey s"
  "heap (upd_subs r f s) = (heap s)(r := (heap s r)\<lparr>ws_subscriptions := f (ws_subscriptions (heap s r))\<rparr>)"
  "next_ref (upd_subs r f s) = next_ref s" "shm (upd_subs r f s) = shm s"
  "opens (upd_subs r f s) = opens s" "io (upd_subs r f s) = io s" "tasks (upd_subs r f s) = tasks s"
  "trace (upd_subs r f s) = trace s" "env (upd_subs r f s) = env s" "run (upd_subs r f s) = run s"
  "shutdown_time (upd_subs r f s) = shutdown_time s" "pid (upd_subs r f s) = pid s"
  "websocket_id (upd_subs r f s) = websocket_id s"
  by (simp_all add: upd_subs_def)

section \<open>Looking up the sender\<close>

lemma getClient_found [simp]: "fst (getClient s q) \<longleftrightarrow> um_find (clients s) q \<noteq> None"
  by (simp add: getClient_def split: option.split)

lemma getClient_fields [simp]:
  "env (snd (getClient s q)) = env s" "run (snd (getClient s q)) = run s"
  "last_heartbeat_time (snd (getClient s q)) = last_heartbeat_time s"
  "shutdown_time (snd (getClient s q)) = shutdown_time s" "pid (snd (getClient s q)) = pid s"
  "websocketsById (snd (getClient s q)) = websocketsById s"
  "websocketsByUrlApiKey (snd (getClient s q)) = websocketsByUrlApiKey s"
  "websocket_id (snd (getClient s q)) = websocket_id s" "heap (snd (getClient s q)) = heap s"
  "next_ref (snd (getClient s q)) = next_ref s" "shm (snd (getClient s q)) = shm s"
  "opens (snd (getClient s q)) = opens s" "io (snd (getClient s q)) = io s"
  "tasks (snd (getClient s q)) = tasks s" "trace (snd (getClient s q)) = trace s"
  by (simp_all add: getClient_def split: option.split)

lemma getClient_ok: "um_ok (clients s) \<Longrightarrow> um_ok (clients (snd (getClient s q)))"
  by (simp add: getClient_def um.ok_assign split: option.split)

lemma getClient_find:
  assumes "um_ok (clients s)"
  shows "um_find (clients (snd (getClient s q))) x =
    (if x = q then map_option (\<lambda>c. c\<lparr>ci_last_heartbeat_time := get_timestamp s\<rparr>) (um_find (clients s) q)
     else um_find (clients s) x)"
  using assms by (simp add: getClient_def um.lookup_assign split: option.split)

section \<open>Leaving one websocket\<close>

lemma closeWs_id_absent: "um_find (websocketsById s) i = None \<Longrightarrow> closeWs_id s i q = s"
  by (simp add: closeWs_id_def)

text \<open>Whether the client was in the set or not, afterwards the set is without it.\<close>

definition leave_one :: "nat \<Rightarrow> u64 \<Rightarrow> proxy \<Rightarrow> proxy" where
  "leave_one r q s = (if q \<in> ws_clients (heap s r)
     then upd_sock r (\<lambda>w. w\<lparr>ws_clients := ws_clients w - {q}\<rparr>) s else s)"

lemma leave_one_heap:
  "heap (leave_one r q s) = (heap s)(r := (heap s r)\<lparr>ws_clients := ws_clients (heap s r) - {q}\<rparr>)"
proof (cases "q \<in> ws_clients (heap s r)")
  case False
  then have "(heap s)(r := (heap s r)\<lparr>ws_clients := ws_clients (heap s r) - {q}\<rparr>) = heap s"
    by (intro fun_upd_idem) simp
  with False show ?thesis by (simp add: leave_one_def)
qed (simp add: leave_one_def)

lemma leave_one_fields [simp]:
  "clients (leave_one r q s) = clients s" "websocketsById (leave_one r q s) = websocketsById s"
  "websocketsByUrlApiKey (leave_one r q s) = websocketsByUrlApiKey s"
  "next_ref (leave_one r q s) = next_ref s" "shm (leave_one r q s) = shm s"
  "opens (leave_one r q s) = opens s" "io (leave_one r q s) = io s" "tasks (leave_one r q s) = tasks s"
  "trace (leave_one r q s) = trace s" "run (leave_one r q s) = run s" "env (leave_one r q s) = env s"
  "shutdown_time (leave_one r q s) = shutdown_time s" "pid (leave_one r q s) = pid s"
  "websocket_id (leave_one r q s) = websocket_id s"
  by (simp_all add: leave_one_def)

lemma closeWs_id_stays:
  assumes "um_find (websocketsById s) i = Some r" and "ws_clients (heap s r) - {q} \<noteq> {}"
  shows "closeWs_id s i q = leave_one r q s"
proof -
  have "ws_clients (heap (leave_one r q s) r) \<noteq> {}"
    using assms(2) by (simp add: leave_one_heap)
  then show ?thesis
    using assms(1) by (simp add: closeWs_id_def leave_one_def [symmetric] Let_def)
qed

lemma closeWs_id_last:
  assumes "um_find (websocketsById s) i = Some r" and "ws_clients (heap s r) - {q} = {}"
  shows "closeWs_id s i q = (websocket_close (leave_one r q s) r)\<lparr>
      websocketsByUrlApiKey := fm_erase (websocketsByUrlApiKey s)
        (ws_url (heap s r), ws_api_key (heap s r)),
      websocketsById := um_erase (websocketsById s) i\<rparr>"
proof -
  have "ws_clients (heap (leave_one r q s) r) = {}"
    using assms(2) by (simp add: leave_one_heap)
  then show ?thesis
    using assms(1)
    by (simp add: closeWs_id_def leave_one_def [symmetric] Let_def heap_close leave_one_heap)
qed

definition downgrade :: "ws_status \<Rightarrow> ws_status" where
  "downgrade st = (if st < DISCONNECTING then DISCONNECTING else st)"

text \<open>All effects of \<open>closeWs\<close> on the tables at once.\<close>

lemma closeWs_id_effects:
  "clients (closeWs_id s i q) = clients s"
  "next_ref (closeWs_id s i q) = next_ref s" "shm (closeWs_id s i q) = shm s"
  "opens (closeWs_id s i q) = opens s" "tasks (closeWs_id s i q) = tasks s"
  "run (closeWs_id s i q) = run s" "env (closeWs_id s i q) = env s"
  "shutdown_time (closeWs_id s i q) = shutdown_time s" "pid (closeWs_id s i q) = pid s"
  "websocket_id (closeWs_id s i q) = websocket_id s"
  by (simp_all add: closeWs_id_def Let_def split: option.split)

lemma closeWs_id_heap:
  "heap (closeWs_id s i q) = (case um_find (websocketsById s) i of
     None \<Rightarrow> heap s
   | Some r \<Rightarrow> (heap s)(r := (heap s r)\<lparr>ws_clients := ws_clients (heap s r) - {q},
       ws_status := (if ws_clients (heap s r) - {q} = {} then downgrade (ws_status (heap s r))
                     else ws_status (heap s r))\<rparr>))"
proof (cases "um_find (websocketsById s) i")
  case None
  then show ?thesis by (simp add: closeWs_id_absent)
next
  case (Some r)
  show ?thesis
  proof (cases "ws_clients (heap s r) - {q} = {}")
    case True
    with Some show ?thesis
      by (simp add: closeWs_id_last heap_close leave_one_heap downgrade_def)
  next
    case False
    with Some show ?thesis by (simp add: closeWs_id_stays leave_one_heap)
  qed
qed

lemma closeWs_id_byId:
  "websocketsById (closeWs_id s i q) = (case um_find (websocketsById s) i of
     None \<Rightarrow> websocketsById s
   | Some r \<Rightarrow> if ws_clients (heap s r) - {q} = {} then um_erase (websocketsById s) i
               else websocketsById s)"
  by (cases "um_find (websocketsById s) i")
    (auto simp: closeWs_id_absent closeWs_id_last closeWs_id_stays)

lemma closeWs_id_byUrl:
  "websocketsByUrlApiKey (closeWs_id s i q) = (case um_find (websocketsById s) i of
     None \<Rightarrow> websocketsByUrlApiKey s
   | Some r \<Rightarrow> if ws_clients (heap s r) - {q} = {}
       then fm_erase (websocketsByUrlApiKey s) (ws_url (heap s r), ws_api_key (heap s r))
       else websocketsByUrlApiKey s)"
  by (cases "um_find (websocketsById s) i")
    (auto simp: closeWs_id_absent closeWs_id_last closeWs_id_stays)

end
