(* ===== verification/Sharing.thy ===== *)
theory Sharing
  imports Proxy_Facts
begin

text \<open>
  What the server promises about shared connections, stated over the abstract view \<open>conns\<close>:
  the set of clients of each open connection.  A connection exists as long as it has a client.
  The lemmas here say that leaving, unregistering and losing a client implement the abstract
  operations; \<open>tables_ok\<close> is what the code keeps true between its tables meanwhile.
\<close>

section \<open>Abstract view\<close>

type_synonym conn_view = "u64 \<rightharpoonup> u64 set"

definition conns :: "proxy \<Rightarrow> conn_view" where
  "conns s i = map_option (\<lambda>r. ws_clients (heap s r)) (um_find (websocketsById s) i)"

definition abs_leave :: "u64 \<Rightarrow> u64 \<Rightarrow> conn_view \<Rightarrow> conn_view" where
  "abs_leave i q C = (case C i of
     None \<Rightarrow> C
   | Some S \<Rightarrow> if S - {q} = {} then C(i := None) else C(i \<mapsto> S - {q}))"

definition abs_unregister :: "u64 \<Rightarrow> conn_view \<Rightarrow> conn_view" where
  "abs_unregister q C = (\<lambda>i. case C i of
     None \<Rightarrow> None
   | Some S \<Rightarrow> if S - {q} = {} then None else Some (S - {q}))"

definition abs_join :: "u64 \<Rightarrow> u64 \<Rightarrow> conn_view \<Rightarrow> conn_view" where
  "abs_join i q C = C(i \<mapsto> insert q (case C i of None \<Rightarrow> {} | Some S \<Rightarrow> S))"

section \<open>The invariant of the tables\<close>

definition byId_ok :: "proxy \<Rightarrow> bool" where
  "byId_ok s \<longleftrightarrow> um_ok (websocketsById s) \<and>
     (\<forall>i r. um_find (websocketsById s) i = Some r \<longrightarrow>
        r < next_ref s \<and> ws_id (heap s r) = i \<and> ws_clients (heap s r) \<noteq> {} \<and>
        ws_status (heap s r) \<noteq> CONNECTING \<and> r \<notin> po_ref ` set (opens s))"

definition byUrl_ok :: "proxy \<Rightarrow> bool" where
  "byUrl_ok s \<longleftrightarrow>
     (\<forall>k r. fm_find (websocketsByUrlApiKey s) k = Some r \<longrightarrow>
        r < next_ref s \<and> ws_status (heap s r) \<noteq> CONNECTING \<and> r \<notin> po_ref ` set (opens s))"

definition opens_ok :: "proxy \<Rightarrow> bool" where
  "opens_ok s \<longleftrightarrow> distinct (map po_ref (opens s)) \<and>
     (\<forall>po \<in> set (opens s). po_ref po < next_ref s)"

definition clients_ok :: "proxy \<Rightarrow> bool" where
  "clients_ok s \<longleftrightarrow> um_ok (clients s) \<and>
     (\<forall>q c. um_find (clients s) q = Some c \<longrightarrow> ci_pid c = q)"

text \<open>No subscription is kept without a subscriber.\<close>

definition subs_kept :: "websocket \<Rightarrow> bool" where
  "subs_kept w \<longleftrightarrow> (\<forall>sym sub. ws_subscriptions w sym = Some sub \<longrightarrow> sub_clients sub \<noteq> {})"

definition subs_ok :: "proxy \<Rightarrow> bool" where
  "subs_ok s \<longleftrightarrow> (\<forall>r. subs_kept (heap s r))"

definition tables_ok :: "proxy \<Rightarrow> bool" where
  "tables_ok s \<longleftrightarrow> byId_ok s \<and> byUrl_ok s \<and> opens_ok s \<and> clients_ok s \<and> subs_ok s"

lemmas tables_ok_defs = tables_ok_def byId_ok_def byUrl_ok_def opens_ok_def clients_ok_def subs_ok_def

lemma tables_ok_init: "tables_ok (WebsocketProxy_init e p m)"
  by (simp add: tables_ok_defs fm_find_def subs_kept_def no_websocket_def)

lemma byId_okD:
  assumes "byId_ok s" and "um_find (websocketsById s) i = Some r"
  shows "r < next_ref s" and "ws_id (heap s r) = i" and "ws_clients (heap s r) \<noteq> {}"
    and "ws_status (heap s r) \<noteq> CONNECTING" and "r \<notin> po_ref ` set (opens s)"
  using assms by (auto simp: byId_ok_def)

lemma byId_refs_distinct:
  assumes "byId_ok s"
  shows "distinct (map snd (websocketsById s))"
proof -
  have ok: "um_ok (websocketsById s)" using assms by (simp add: byId_ok_def)
  have id: "ws_id (heap s (snd kv)) = fst kv" if "kv \<in> set (websocketsById s)" for kv
    using byId_okD(2) [OF assms, of "fst kv" "snd kv"] um_in_set_find [OF ok, of "fst kv" "snd kv"] that
    by simp
  have "map fst (websocketsById s) = map (\<lambda>r. ws_id (heap s r)) (map snd (websocketsById s))"
    using id by simp
  then have "distinct (map (\<lambda>r. ws_id (heap s r)) (map snd (websocketsById s)))"
    using ok unfolding um_ok_def by (simp only:)
  then show ?thesis by (rule distinct_map [THEN iffD1, THEN conjunct1])
qed

text \<open>The invariant only reads these fields.\<close>

lemma tables_ok_cong:
  assumes "clients s = clients t" "websocketsById s = websocketsById t"
    "websocketsByUrlApiKey s = websocketsByUrlApiKey t" "heap s = heap t" "next_ref s = next_ref t"
    "opens s = opens t"
  shows "tables_ok s = tables_ok t"
  using assms by (simp add: tables_ok_defs)

lemma conns_cong:
  "websocketsById s = websocketsById t \<Longrightarrow> heap s = heap t \<Longrightarrow> conns s = conns t"
  by (simp add: conns_def fun_eq_iff)

section \<open>Changes of one websocket\<close>

text \<open>
  A change of the heap that keeps ids and client sets, does not empty a subscription and moves no
  websocket back to \<open>CONNECTING\<close>.
\<close>

definition mild :: "(nat \<Rightarrow> websocket) \<Rightarrow> (nat \<Rightarrow> websocket) \<Rightarrow> bool" where
  "mild h h' \<longleftrightarrow> (\<forall>r. ws_id (h' r) = ws_id (h r) \<and> ws_clients (h' r) = ws_clients (h r) \<and>
     (ws_status (h r) \<noteq> CONNECTING \<longrightarrow> ws_status (h' r) \<noteq> CONNECTING) \<and>
     (subs_kept (h r) \<longrightarrow> subs_kept (h' r)))"

lemma mild_refl [simp]: "mild h h"
  by (simp add: mild_def)

lemma mild_trans: "mild h h' \<Longrightarrow> mild h' h'' \<Longrightarrow> mild h h''"
  unfolding mild_def by metis

lemma subs_kept_cong: "ws_subscriptions w = ws_subscriptions w' \<Longrightarrow> subs_kept w = subs_kept w'"
  by (simp add: subs_kept_def)

lemma subs_kept_simps [simp]:
  "subs_kept (w\<lparr>ws_clients := c\<rparr>) = subs_kept w" "subs_kept (w\<lparr>ws_status := st\<rparr>) = subs_kept w"
  "subs_kept (w\<lparr>ws_w_buffer := b\<rparr>) = subs_kept w" "subs_kept (w\<lparr>ws_host := h\<rparr>) = subs_kept w"
  by (simp_all add: subs_kept_def)

lemma tables_ok_mild:
  assumes "tables_ok s" and "mild (heap s) (heap t)" and "clients s = clients t"
    and "websocketsById s = websocketsById t" and "websocketsByUrlApiKey s = websocketsByUrlApiKey t"
    and "next_ref s = next_ref t" and "opens s = opens t"
  shows "tables_ok t"
proof -
  note eq = assms(3-7) [symmetric]
  have m: "ws_id (heap t r) = ws_id (heap s r)" "ws_clients (heap t r) = ws_clients (heap s r)"
    "ws_status (heap s r) \<noteq> CONNECTING \<Longrightarrow> ws_status (heap t r) \<noteq> CONNECTING" for r
    using assms(2) by (simp_all add: mild_def)
  have "byId_ok t" "byUrl_ok t" "opens_ok t" "clients_ok t"
    using assms(1) m(3) by (auto simp: tables_ok_defs eq m(1,2))
  moreover have "subs_ok t"
    using assms(1,2) by (simp add: tables_ok_defs mild_def)
  ultimately show ?thesis by (simp add: tables_ok_def)
qed

lemma conns_mild:
  "mild (heap s) (heap t) \<Longrightarrow> websocketsById s = websocketsById t \<Longrightarrow> conns t = conns s"
  by (simp add: conns_def mild_def fun_eq_iff)

lemma mild_ws_step: "mild (heap s) (heap (ws_step s r e))"
proof -
  obtain st b where h: "heap (ws_step s r e) = (heap s)(r := (heap s r)\<lparr>ws_status := st, ws_w_buffer := b\<rparr>)"
    and le: "ws_status (heap s r) \<le> st"
    using heap_ws_step [of s r e] by blast
  have "st \<noteq> CONNECTING" if "ws_status (heap s r) \<noteq> CONNECTING"
    using le that by (cases "ws_status (heap s r)") (auto simp: less_eq_ws_status_def)
  then show ?thesis by (simp add: mild_def h)
qed

lemma tables_ok_ws_step: "tables_ok s \<Longrightarrow> tables_ok (ws_step s r e)"
  by (erule tables_ok_mild [OF _ mild_ws_step]) (cases e; simp)+

lemmas tables_ok_close = tables_ok_ws_step [where e = WsDoClose, unfolded ws_step.simps]
lemmas tables_ok_send = tables_ok_ws_step [where e = "WsDoSend b" for b, unfolded ws_step.simps]
lemmas mild_close = mild_ws_step [where e = WsDoClose, unfolded ws_step.simps]
lemmas mild_send = mild_ws_step [where e = "WsDoSend b" for b, unfolded ws_step.simps]

section \<open>One client leaves one connection\<close>

lemma downgrade_not_connecting [simp]: "downgrade st \<noteq> CONNECTING"
  by (cases st) (simp_all add: downgrade_def)

lemma conns_closeWs_id:
  assumes "byId_ok s"
  shows "conns (closeWs_id s i q) = abs_leave i q (conns s)"
proof (cases "um_find (websocketsById s) i")
  case None
  then show ?thesis by (simp add: closeWs_id_absent abs_leave_def conns_def)
next
  case (Some r)
  have ok: "um_ok (websocketsById s)" using assms by (simp add: byId_ok_def)
  have other: "r' \<noteq> r" if "um_find (websocketsById s) j = Some r'" "j \<noteq> i" for j r'
    using byId_okD(2) [OF assms] Some that by metis
  show ?thesis
  proof (rule ext)
    fix j
    show "conns (closeWs_id s i q) j = abs_leave i q (conns s) j"
      using Some other [of j]
      by (cases "um_find (websocketsById s) j")
        (auto simp: conns_def abs_leave_def closeWs_id_heap closeWs_id_byId um.lookup_remove ok)
  qed
qed

lemma tables_ok_closeWs_id:
  assumes "tables_ok s"
  shows "tables_ok (closeWs_id s i q)"
proof (cases "um_find (websocketsById s) i")
  case None
  with assms show ?thesis by (simp add: closeWs_id_absent)
next
  case (Some r)
  have ok: "um_ok (websocketsById s)" and b: "byId_ok s"
    using assms by (auto simp: tables_ok_defs)
  have other: "r' \<noteq> r" if "um_find (websocketsById s) j = Some r'" "j \<noteq> i" for j r'
    using byId_okD(2) [OF b] Some that by metis
  have "byId_ok (closeWs_id s i q)"
    using b Some other byId_okD [OF b]
    by (auto simp: byId_ok_def closeWs_id_heap closeWs_id_byId closeWs_id_effects um.lookup_remove
        um.ok_remove)
  moreover have "byUrl_ok (closeWs_id s i q)"
    using assms Some
    by (auto simp: tables_ok_defs closeWs_id_heap closeWs_id_byUrl closeWs_id_effects fm_laws)
  moreover have "opens_ok (closeWs_id s i q)" "clients_ok (closeWs_id s i q)"
    using assms by (auto simp: tables_ok_defs closeWs_id_effects)
  moreover have "subs_ok (closeWs_id s i q)"
    using assms Some by (auto simp: tables_ok_defs closeWs_id_heap)
  ultimately show ?thesis by (simp add: tables_ok_def)
qed

section \<open>One client leaves all connections\<close>

lemma leave_all_heap_only: "fst (leave_all q kvs s acc) = s\<lparr>heap := heap (fst (leave_all q kvs s acc))\<rparr>"
proof (induction q kvs s acc rule: leave_all.induct)
  case (1 q s acc)
  then show ?case by simp
next
  case (2 q i r kvs s acc)
  have upd: "(upd_sock r f s)\<lparr>heap := h\<rparr> = s\<lparr>heap := h\<rparr>" for f h
    by (simp add: upd_sock_def)
  show ?case
    using 2 by (simp add: Let_def upd)
qed

lemma leave_all_fields [simp]:
  "clients (fst (leave_all q kvs s acc)) = clients s"
  "websocketsById (fst (leave_all q kvs s acc)) = websocketsById s"
  "websocketsByUrlApiKey (fst (leave_all q kvs s acc)) = websocketsByUrlApiKey s"
  "next_ref (fst (leave_all q kvs s acc)) = next_ref s"
  "opens (fst (leave_all q kvs s acc)) = opens s"
  "shm (fst (leave_all q kvs s acc)) = shm s" "run (fst (leave_all q kvs s acc)) = run s"
  "tasks (fst (leave_all q kvs s acc)) = tasks s"
  "shutdown_time (fst (leave_all q kvs s acc)) = shutdown_time s"
  "pid (fst (leave_all q kvs s acc)) = pid s" "env (fst (leave_all q kvs s acc)) = env s"
  "trace (fst (leave_all q kvs s acc)) = trace s" "io (fst (leave_all q kvs s acc)) = io s"
  "websocket_id (fst (leave_all q kvs s acc)) = websocket_id s"
  by (subst leave_all_heap_only, simp)+

definition without :: "u64 \<Rightarrow> websocket \<Rightarrow> websocket" where
  "without q w = w\<lparr>ws_clients := ws_clients w - {q}\<rparr>"

lemma without_simps [simp]:
  "ws_clients (without q w) = ws_clients w - {q}" "ws_id (without q w) = ws_id w"
  "ws_status (without q w) = ws_status w" "ws_url (without q w) = ws_url w"
  "ws_api_key (without q w) = ws_api_key w" "ws_subscriptions (without q w) = ws_subscriptions w"
  "without q (without q w) = without q w"
  by (simp_all add: without_def)

lemma without_absent: "q \<notin> ws_clients w \<Longrightarrow> without q w = w"
  by (simp add: without_def)

lemma leave_all_heap:
  "heap (fst (leave_all q kvs s acc)) r =
     (if r \<in> snd ` set kvs then without q (heap s r) else heap s r)"
proof (induction q kvs s acc rule: leave_all.induct)
  case (1 q s acc)
  then show ?case by simp
next
  case (2 q i r' kvs s acc)
  show ?case
  proof (cases "q \<in> ws_clients (heap s r')")
    case True
    with 2 show ?thesis
      by (cases "ws_clients (heap s r') \<subseteq> {q}") (auto simp: Let_def without_def [symmetric])
  next
    case False
    with 2(3) show ?thesis by (auto simp: without_absent)
  qed
qed

lemma leave_all_ids:
  "distinct (map snd kvs) \<Longrightarrow> snd (leave_all q kvs s acc) =
     acc @ map fst (filter (\<lambda>kv. q \<in> ws_clients (heap s (snd kv)) \<and> ws_clients (heap s (snd kv)) \<subseteq> {q}) kvs)"
proof (induction q kvs s acc rule: leave_all.induct)
  case (1 q s acc)
  then show ?case by simp
next
  case (2 q i r kvs s acc)
  have keep: "filter (\<lambda>kv. q \<in> ws_clients (((heap s)(r := w)) (snd kv)) \<and> ws_clients (((heap s)(r := w)) (snd kv)) \<subseteq> {q}) kvs
      = filter (\<lambda>kv. q \<in> ws_clients (heap s (snd kv)) \<and> ws_clients (heap s (snd kv)) \<subseteq> {q}) kvs" for w
    using 2(4) by (intro filter_cong) force+
  show ?case
    using 2 keep [of "(heap s r)\<lparr>ws_clients := ws_clients (heap s r) - {q}\<rparr>"]
    by (cases "q \<in> ws_clients (heap s r)"; cases "ws_clients (heap s r) \<subseteq> {q}") (simp_all add: Let_def)
qed

text \<open>Closing a run of connections that the client was the last one to leave.\<close>

lemma close_fold_fields [simp]:
  "clients (fold (\<lambda>i s. closeWs_id s i q) ids s) = clients s"
  "next_ref (fold (\<lambda>i s. closeWs_id s i q) ids s) = next_ref s"
  "shm (fold (\<lambda>i s. closeWs_id s i q) ids s) = shm s"
  "opens (fold (\<lambda>i s. closeWs_id s i q) ids s) = opens s"
  "tasks (fold (\<lambda>i s. closeWs_id s i q) ids s) = tasks s"
  "run (fold (\<lambda>i s. closeWs_id s i q) ids s) = run s"
  "env (fold (\<lambda>i s. closeWs_id s i q) ids s) = env s"
  "shutdown_time (fold (\<lambda>i s. closeWs_id s i q) ids s) = shutdown_time s"
  "pid (fold (\<lambda>i s. closeWs_id s i q) ids s) = pid s"
  "websocket_id (fold (\<lambda>i s. closeWs_id s i q) ids s) = websocket_id s"
  by (induction ids arbitrary: s) (simp_all add: closeWs_id_effects)

lemma close_fold:
  assumes "um_ok (websocketsById s)" and "distinct ids" and "distinct (map snd (websocketsById s))"
    and "\<And>i. i \<in> set ids \<Longrightarrow> \<exists>r. um_find (websocketsById s) i = Some r \<and> ws_clients (heap s r) = {}"
  shows "websocketsById (fold (\<lambda>i s. closeWs_id s i q) ids s) =
      fold (\<lambda>k m. um_erase m k) ids (websocketsById s) \<and>
    (\<forall>r. heap (fold (\<lambda>i s. closeWs_id s i q) ids s) r =
       (if \<exists>i \<in> set ids. um_find (websocketsById s) i = Some r
        then (heap s r)\<lparr>ws_status := downgrade (ws_status (heap s r))\<rparr> else heap s r)) \<and>
    (\<forall>k r. fm_find (websocketsByUrlApiKey (fold (\<lambda>i s. closeWs_id s i q) ids s)) k = Some r \<longrightarrow>
       fm_find (websocketsByUrlApiKey s) k = Some r)"
  using assms
proof (induction ids arbitrary: s)
  case Nil
  then show ?case by simp
next
  case (Cons i ids)
  let ?s = "closeWs_id s i q"
  obtain r where r: "um_find (websocketsById s) i = Some r" "ws_clients (heap s r) = {}"
    using Cons.prems(4) by auto
  have id: "websocketsById ?s = um_erase (websocketsById s) i"
    using r by (simp add: closeWs_id_byId)
  have w: "(heap s r)\<lparr>ws_clients := {}, ws_status := st\<rparr> = (heap s r)\<lparr>ws_status := st\<rparr>" for st
    using r(2) by simp
  have h: "heap ?s = (heap s)(r := (heap s r)\<lparr>ws_status := downgrade (ws_status (heap s r))\<rparr>)"
  proof -
    have "heap ?s = (heap s)(r := (heap s r)\<lparr>ws_clients := {}, ws_status := downgrade (ws_status (heap s r))\<rparr>)"
      using r by (simp add: closeWs_id_heap)
    then show ?thesis by (simp only: w)
  qed
  have other: "r' \<noteq> r" if "um_find (websocketsById s) j = Some r'" "j \<noteq> i" for j r'
  proof
    assume "r' = r"
    with that r(1) have "(j, r) \<in> set (websocketsById s)" "(i, r) \<in> set (websocketsById s)"
      by (auto dest: um_find_in_set)
    then have "(j, r) = (i, r)"
      using Cons.prems(3) by (auto simp: distinct_map dest: inj_onD [where x = "(j, r)" and y = "(i, r)"])
    with \<open>j \<noteq> i\<close> show False by simp
  qed
  have ids: "um_find (websocketsById ?s) j = um_find (websocketsById s) j" if "j \<noteq> i" for j
    using that Cons.prems(1) by (simp add: id um.lookup_remove)
  have gone: "um_find (websocketsById ?s) i = None"
    using Cons.prems(1) by (simp add: id um.lookup_remove)
  have IH: "websocketsById (fold (\<lambda>i s. closeWs_id s i q) ids ?s) =
      fold (\<lambda>k m. um_erase m k) ids (websocketsById ?s) \<and>
    (\<forall>x. heap (fold (\<lambda>i s. closeWs_id s i q) ids ?s) x =
       (if \<exists>i \<in> set ids. um_find (websocketsById ?s) i = Some x
        then (heap ?s x)\<lparr>ws_status := downgrade (ws_status (heap ?s x))\<rparr> else heap ?s x)) \<and>
    (\<forall>k x. fm_find (websocketsByUrlApiKey (fold (\<lambda>i s. closeWs_id s i q) ids ?s)) k = Some x \<longrightarrow>
       fm_find (websocketsByUrlApiKey ?s) k = Some x)"
  proof (rule Cons.IH)
    show "um_ok (websocketsById ?s)" using Cons.prems(1) by (simp add: id um.ok_remove)
    show "distinct ids" using Cons.prems(2) by simp
    show "distinct (map snd (websocketsById ?s))"
      using Cons.prems(3) by (simp add: id um_erase_def distinct_map_filter)
    fix j assume "j \<in> set ids"
    then have "j \<noteq> i" using Cons.prems(2) by auto
    with \<open>j \<in> set ids\<close> Cons.prems(4) [of j] other ids
    show "\<exists>r. um_find (websocketsById ?s) j = Some r \<and> ws_clients (heap ?s r) = {}"
      by (auto simp: h)
  qed
  have byUrl: "fm_find (websocketsByUrlApiKey ?s) k = Some x \<Longrightarrow>
      fm_find (websocketsByUrlApiKey s) k = Some x" for k x
    using r by (auto simp: closeWs_id_byUrl fm_laws split: if_splits)
  have "(\<exists>j \<in> set ids. um_find (websocketsById ?s) j = Some x) \<longleftrightarrow>
      x \<noteq> r \<and> (\<exists>j \<in> set (i # ids). um_find (websocketsById s) j = Some x)" for x
    using ids gone other r(1) Cons.prems(2) by (metis distinct.simps(2) list.set_intros(2) option.inject set_ConsD)
  then show ?case
    using IH byUrl r(1) by (auto simp: id h)
qed

text \<open>
  The body that both overloads of \<open>unregisterClient\<close> share, and its effect on the tables.
\<close>

definition drop_client :: "proxy \<Rightarrow> u64 \<Rightarrow> proxy" where
  "drop_client s q = fold (\<lambda>i s. closeWs_id s i q) (snd (leave_all q (websocketsById s) s []))
     (fst (leave_all q (websocketsById s) s []))"

lemma unregister_iter_drop:
  "unregisterClient_iter s q =
    (let s3 = (drop_client s q)\<lparr>clients := um_erase (clients s) q\<rparr>
     in if clients s3 = [] then (tick s3)\<lparr>shutdown_time := get_timestamp s3\<rparr> else s3)"
  by (simp add: unregisterClient_iter_def drop_client_def split_beta Let_def)

lemma unregister_drop:
  "unregisterClient s q = (if um_find (clients s) q = None then s else unregisterClient_iter s q)"
  by (simp add: unregisterClient_def unregisterClient_iter_def split: option.split)

lemma drop_client_fields [simp]:
  "clients (drop_client s q) = clients s" "next_ref (drop_client s q) = next_ref s"
  "shm (drop_client s q) = shm s" "opens (drop_client s q) = opens s"
  "tasks (drop_client s q) = tasks s" "run (drop_client s q) = run s"
  "env (drop_client s q) = env s" "shutdown_time (drop_client s q) = shutdown_time s"
  "pid (drop_client s q) = pid s" "websocket_id (drop_client s q) = websocket_id s"
  by (simp_all add: drop_client_def)

lemma drop_client_tables:
  assumes "byId_ok s"
  shows "um_ok (websocketsById (drop_client s q))"
    and "um_find (websocketsById (drop_client s q)) i = (case um_find (websocketsById s) i of
        None \<Rightarrow> None
      | Some r \<Rightarrow> if ws_clients (heap s r) \<subseteq> {q} then None else Some r)"
    and "heap (drop_client s q) r =
      (if r \<in> snd ` set (websocketsById s) then
         (without q (heap s r))\<lparr>ws_status :=
            (if ws_clients (heap s r) \<subseteq> {q} then downgrade (ws_status (heap s r))
             else ws_status (heap s r))\<rparr>
       else heap s r)"
    and "fm_find (websocketsByUrlApiKey (drop_client s q)) k = Some r \<Longrightarrow>
      fm_find (websocketsByUrlApiKey s) k = Some r"
proof -
  let ?kvs = "websocketsById s"
  let ?s1 = "fst (leave_all q ?kvs s [])"
  let ?ids = "snd (leave_all q ?kvs s [])"
  have ok: "um_ok ?kvs" using assms by (simp add: byId_ok_def)
  note refs = byId_refs_distinct [OF assms]
  have last: "q \<in> ws_clients (heap s r) \<and> ws_clients (heap s r) \<subseteq> {q} \<longleftrightarrow> ws_clients (heap s r) \<subseteq> {q}"
    if "um_find ?kvs i = Some r" for i r
    using byId_okD(3) [OF assms that] by auto
  have ids: "i \<in> set ?ids \<longleftrightarrow> (\<exists>r. um_find ?kvs i = Some r \<and> ws_clients (heap s r) \<subseteq> {q})" for i
  proof -
    have "i \<in> set ?ids \<longleftrightarrow> (\<exists>r. (i, r) \<in> set ?kvs \<and> q \<in> ws_clients (heap s r) \<and> ws_clients (heap s r) \<subseteq> {q})"
      by (auto simp: leave_all_ids [OF refs]) (force intro: rev_image_eqI)
    then show ?thesis using last by (auto simp: um_set_iff [OF ok])
  qed
  have distinct_ids: "distinct ?ids"
    using ok by (simp add: leave_all_ids [OF refs] um_ok_def distinct_map_fst_filter)
  have in_refs: "r \<in> snd ` set ?kvs \<longleftrightarrow> (\<exists>i. um_find ?kvs i = Some r)" for r
    by (rule um_values_iff [OF ok])
  have emptied: "\<exists>r. um_find (websocketsById ?s1) i = Some r \<and> ws_clients (heap ?s1 r) = {}"
    if "i \<in> set ?ids" for i
    using that ids [of i] in_refs by (auto simp: leave_all_heap)
  have cf: "websocketsById (drop_client s q) = fold (\<lambda>k m. um_erase m k) ?ids ?kvs \<and>
    (\<forall>r. heap (drop_client s q) r =
       (if \<exists>i \<in> set ?ids. um_find ?kvs i = Some r
        then (heap ?s1 r)\<lparr>ws_status := downgrade (ws_status (heap ?s1 r))\<rparr> else heap ?s1 r)) \<and>
    (\<forall>k r. fm_find (websocketsByUrlApiKey (drop_client s q)) k = Some r \<longrightarrow>
       fm_find (websocketsByUrlApiKey s) k = Some r)"
    using close_fold [of ?s1 ?ids q] ok distinct_ids refs emptied by (simp add: drop_client_def)
  show "um_ok (websocketsById (drop_client s q))"
    using cf um.ok_remove_all [OF ok] by simp
  show "um_find (websocketsById (drop_client s q)) i = (case um_find ?kvs i of
        None \<Rightarrow> None | Some r \<Rightarrow> if ws_clients (heap s r) \<subseteq> {q} then None else Some r)"
    using cf ids [of i] by (auto simp: um.lookup_remove_all [OF ok] split: option.split)
  have "(\<exists>i \<in> set ?ids. um_find ?kvs i = Some r) \<longleftrightarrow> r \<in> snd ` set ?kvs \<and> ws_clients (heap s r) \<subseteq> {q}"
    using ids in_refs by force
  moreover have "w\<lparr>ws_status := ws_status w\<rparr> = w" for w :: websocket by simp
  ultimately show "heap (drop_client s q) r =
      (if r \<in> snd ` set ?kvs then
         (without q (heap s r))\<lparr>ws_status :=
            (if ws_clients (heap s r) \<subseteq> {q} then downgrade (ws_status (heap s r))
             else ws_status (heap s r))\<rparr>
       else heap s r)"
    using cf by (auto simp: leave_all_heap without_def)
  show "fm_find (websocketsByUrlApiKey (drop_client s q)) k = Some r \<Longrightarrow>
      fm_find (websocketsByUrlApiKey s) k = Some r"
    using cf by blast
qed

lemma conns_drop_client:
  assumes "byId_ok s"
  shows "conns (drop_client s q) = abs_unregister q (conns s)"
proof (rule ext)
  fix i
  have "r \<in> snd ` set (websocketsById s)" if "um_find (websocketsById s) i = Some r" for r
    using um_find_in_set [OF that] by force
  then show "conns (drop_client s q) i = abs_unregister q (conns s) i"
    by (auto simp: conns_def abs_unregister_def drop_client_tables [OF assms] split: option.split)
qed

lemma tables_ok_drop_client:
  assumes "tables_ok s"
  shows "tables_ok (drop_client s q)"
proof -
  have b: "byId_ok s" using assms by (simp add: tables_ok_def)
  note t = drop_client_tables [OF b, of q]
  have st: "ws_status (heap s r) \<noteq> CONNECTING \<Longrightarrow> ws_status (heap (drop_client s q) r) \<noteq> CONNECTING" for r
    by (simp add: t(3))
  have byId: "byId_ok (drop_client s q)"
  proof -
    have "r < next_ref s \<and> ws_id (heap (drop_client s q) r) = i \<and> ws_clients (heap (drop_client s q) r) \<noteq> {}
      \<and> ws_status (heap (drop_client s q) r) \<noteq> CONNECTING \<and> r \<notin> po_ref ` set (opens s)"
      if "um_find (websocketsById (drop_client s q)) i = Some r" for i r
    proof -
      have f: "um_find (websocketsById s) i = Some r" "\<not> ws_clients (heap s r) \<subseteq> {q}"
        using that by (auto simp: t(2) split: option.splits if_splits)
      then have "r \<in> snd ` set (websocketsById s)" using um_find_in_set by force
      with f byId_okD [OF b f(1)] st show ?thesis by (auto simp: t(3))
    qed
    then show ?thesis using t(1) by (simp add: byId_ok_def)
  qed
  have "byUrl_ok (drop_client s q)"
    using assms t(4) st by (simp add: tables_ok_def byUrl_ok_def) blast
  moreover have "opens_ok (drop_client s q)" "clients_ok (drop_client s q)"
    using assms by (auto simp: tables_ok_defs)
  moreover have "subs_ok (drop_client s q)"
    using assms by (auto simp: tables_ok_def subs_ok_def t(3) without_def)
  ultimately show ?thesis using byId by (simp add: tables_ok_def)
qed

section \<open>Unregistering\<close>

lemma clients_erase_ok:
  "clients_ok s \<Longrightarrow> tables_ok t \<Longrightarrow> clients t = clients s \<Longrightarrow> tables_ok (t\<lparr>clients := um_erase (clients s) q\<rparr>)"
  by (auto simp: tables_ok_defs um.ok_remove um.lookup_remove)

lemma tables_ok_unregister_iter:
  assumes "tables_ok s"
  shows "tables_ok (unregisterClient_iter s q)"
proof -
  have "tables_ok ((drop_client s q)\<lparr>clients := um_erase (clients s) q\<rparr>)"
    using assms tables_ok_drop_client [OF assms, of q]
    by (intro clients_erase_ok) (auto simp: tables_ok_def)
  then show ?thesis
    by (auto simp: unregister_iter_drop Let_def elim: tables_ok_cong [THEN iffD1, rotated -1])
qed

lemma unregister_iter_fields [simp]:
  "clients (unregisterClient_iter s q) = um_erase (clients s) q"
  "websocketsById (unregisterClient_iter s q) = websocketsById (drop_client s q)"
  "websocketsByUrlApiKey (unregisterClient_iter s q) = websocketsByUrlApiKey (drop_client s q)"
  "heap (unregisterClient_iter s q) = heap (drop_client s q)"
  "next_ref (unregisterClient_iter s q) = next_ref s" "opens (unregisterClient_iter s q) = opens s"
  "shm (unregisterClient_iter s q) = shm s" "run (unregisterClient_iter s q) = run s"
  "tasks (unregisterClient_iter s q) = tasks s" "pid (unregisterClient_iter s q) = pid s"
  "env (unregisterClient_iter s q) = env s" "websocket_id (unregisterClient_iter s q) = websocket_id s"
  by (simp_all add: unregister_iter_drop Let_def)

lemma conns_unregister_iter:
  assumes "byId_ok s"
  shows "conns (unregisterClient_iter s q) = abs_unregister q (conns s)"
  using conns_drop_client [OF assms, of q] by (simp add: conns_def fun_eq_iff)

lemma tables_ok_unregister: "tables_ok s \<Longrightarrow> tables_ok (unregisterClient s q)"
  by (simp add: unregister_drop tables_ok_unregister_iter)

end
