(* ===== verification/Proxy_Inv.thy ===== *)
theory Proxy_Inv
  imports Sharing
begin

text \<open>
  Every handler of the server keeps \<open>tables_ok\<close>, and its effect on the shared connections is an
  operation of the abstract view: joining, leaving, or nothing.
\<close>

section \<open>Handlers that change no table but the senders' time stamps\<close>

lemma clients_ok_getClient: "clients_ok s \<Longrightarrow> clients_ok (snd (getClient s q))"
  by (auto simp: clients_ok_def getClient_ok getClient_find split: if_splits)

lemma tables_ok_clients:
  assumes "tables_ok s" and "clients_ok t" and "websocketsById s = websocketsById t"
    and "websocketsByUrlApiKey s = websocketsByUrlApiKey t" and "heap s = heap t"
    and "next_ref s = next_ref t" and "opens s = opens t"
  shows "tables_ok t"
  using assms by (simp add: tables_ok_def byId_ok_def byUrl_ok_def opens_ok_def subs_ok_def)

lemma tables_ok_getClient: "tables_ok s \<Longrightarrow> tables_ok (snd (getClient s q))"
  by (rule tables_ok_clients [of s]) (simp_all add: clients_ok_getClient tables_ok_def)

lemma conns_getClient [simp]: "conns (snd (getClient s q)) = conns s"
  by (rule conns_cong) simp_all

lemma tables_ok_reply [simp]: "tables_ok (reply p st s) = tables_ok s"
  by (rule tables_ok_cong) simp_all

lemma conns_reply [simp]: "conns (reply p st s) = conns s"
  by (rule conns_cong) simp_all

lemma tables_ok_upd_shm [simp]: "tables_ok (upd_shm f s) = tables_ok s"
  by (rule tables_ok_cong) simp_all

lemma conns_upd_shm [simp]: "conns (upd_shm f s) = conns s"
  by (rule conns_cong) simp_all

lemma tables_ok_onWs [simp]:
  "tables_ok (onWsOpened s i c) = tables_ok s" "tables_ok (onWsClosed s i) = tables_ok s"
  "tables_ok (onWsError s i e len) = tables_ok s" "tables_ok (onWsData s i d len rm) = tables_ok s"
  "tables_ok (tick s) = tables_ok s" "tables_ok (emit a s) = tables_ok s"
  "tables_ok (post t s) = tables_ok s"
  "tables_ok (snd (sendHeartbeat s now)) = tables_ok s"
  by (rule tables_ok_cong; simp)+

lemma conns_onWs [simp]:
  "conns (onWsOpened s i c) = conns s" "conns (onWsClosed s i) = conns s"
  "conns (onWsError s i e len) = conns s" "conns (onWsData s i d len rm) = conns s"
  "conns (tick s) = conns s" "conns (emit a s) = conns s" "conns (post t s) = conns s"
  "conns (snd (sendHeartbeat s now)) = conns s"
  by (rule conns_cong; simp)+

lemma registration_clients:
  "clients (handleClientRegistration s p) =
     um_assign (um_emplace (clients s) (msg_pid (shm s) p) \<lparr>ci_pid = 0, ci_last_heartbeat_time = 0\<rparr>)
       (msg_pid (shm s) p) \<lparr>ci_pid = msg_pid (shm s) p, ci_last_heartbeat_time = get_timestamp s\<rparr>"
  by (simp add: handleClientRegistration_def Let_def get_timestamp_def upd_shm_def)

lemma tables_ok_handleClientRegistration:
  assumes "tables_ok s"
  shows "tables_ok (handleClientRegistration s p)"
proof -
  have ok: "um_ok (clients s)" using assms by (simp add: tables_ok_defs)
  have "clients_ok (handleClientRegistration s p)"
    using assms by (auto simp: registration_clients clients_ok_def tables_ok_def um.lookup_assign
        um.lookup_place um.ok_assign um.ok_place ok split: if_splits)
  then show ?thesis
    by (rule tables_ok_clients [OF assms]) (simp_all add: handleClientRegistration_def Let_def)
qed

lemma registration_fields [simp]:
  "websocketsById (handleClientRegistration s p) = websocketsById s"
  "heap (handleClientRegistration s p) = heap s"
  "opens (handleClientRegistration s p) = opens s"
  "run (handleClientRegistration s p) = run s"
  by (simp_all add: handleClientRegistration_def Let_def)

lemma tables_ok_handleClientHeartbeat: "tables_ok s \<Longrightarrow> tables_ok (handleClientHeartbeat s p)"
  by (simp add: handleClientHeartbeat_def tables_ok_getClient)

lemma tables_ok_closeWs: "tables_ok s \<Longrightarrow> tables_ok (closeWs s p)"
  by (simp add: closeWs_def split_beta tables_ok_closeWs_id tables_ok_getClient)

section \<open>Requests and subscriptions\<close>

lemma mild_upd_subs:
  assumes "subs_kept (heap s r) \<Longrightarrow>
    subs_kept ((heap s r)\<lparr>ws_subscriptions := f (ws_subscriptions (heap s r))\<rparr>)"
  shows "mild (heap s) (heap (upd_subs r f s))"
  using assms by (simp add: mild_def)

lemma upd_subs_twice: "upd_subs r f (upd_subs r g s) = upd_subs r (\<lambda>m. f (g m)) s"
  by (simp add: upd_subs_def upd_sock_def)

lemma fm_assign_emplace: "fm_assign (fm_emplace m k v) k v' = fm_assign m k v'"
  by (auto simp: fm_eval)

lemma fm_assign_assign: "fm_assign (fm_assign m k v) k v' = fm_assign m k v'"
  by (simp add: fm_eval)

lemma fm_erase_assign: "fm_erase (fm_assign m k v) k = fm_erase m k"
  by (simp add: fm_eval)

lemma subs_kept_assign:
  "subs_kept w \<Longrightarrow> sub_clients sub \<noteq> {} \<Longrightarrow>
    subs_kept (w\<lparr>ws_subscriptions := fm_assign (ws_subscriptions w) k sub\<rparr>)"
  by (simp add: subs_kept_def fm_assign_def)

lemma subs_kept_erase:
  "subs_kept w \<Longrightarrow> subs_kept (w\<lparr>ws_subscriptions := fm_erase (ws_subscriptions w) k\<rparr>)"
  by (simp add: subs_kept_def fm_erase_def)

text \<open>The branches of \<open>handleSubscribe\<close> and \<open>handleUnsubscribe\<close>.\<close>

abbreviation sender :: "proxy \<Rightarrow> nat \<Rightarrow> u64" where
  "sender s p \<equiv> msg_pid (shm s) p"

abbreviation known :: "proxy \<Rightarrow> u64 \<Rightarrow> bool" where
  "known s q \<equiv> um_find (clients s) q \<noteq> None"

abbreviation stamped :: "proxy \<Rightarrow> nat \<Rightarrow> proxy" where
  "stamped s p \<equiv> snd (getClient s (sender s p))"

lemma subscribe_failed:
  assumes "\<not> known s (sender s p) \<or> um_find (websocketsById s) (sub_id (shm s) p) = None"
  shows "handleSubscribe s p = reply p FAILED (stamped s p)"
  using assms by (auto simp: handleSubscribe_def split_beta Let_def)

lemma subscribe_first:
  assumes "known s (sender s p)" and "um_find (websocketsById s) (sub_id (shm s) p) = Some r"
    and "fm_find (ws_subscriptions (heap s r)) (sub_symbol (shm s) p) = None"
  shows "handleSubscribe s p = reply p SUCCESS (websocket_send
    (upd_subs r (\<lambda>m. fm_assign m (sub_symbol (shm s) p)
       \<lparr>sub_type = sub_req_type (shm s) p, sub_clients = {sender s p}\<rparr>) (stamped s p))
    r (sub_request (shm s) p))"
  using assms
  by (simp add: handleSubscribe_def split_beta Let_def upd_subs_twice fm_assign_emplace)

lemma subscribe_again:
  assumes "known s (sender s p)" and "um_find (websocketsById s) (sub_id (shm s) p) = Some r"
    and "fm_find (ws_subscriptions (heap s r)) (sub_symbol (shm s) p) = Some sub"
    and "sub1 = sub\<lparr>sub_clients := insert (sender s p) (sub_clients sub)\<rparr>"
  shows "handleSubscribe s p = reply p SUCCESS
    (upd_shm (\<lambda>m. store_u8 m (fld WsSubscription_layout ''existing'' p) 1)
      (if sub_type sub AND sub_req_type (shm s) p = 0 then
         upd_subs r (\<lambda>m. fm_assign m (sub_symbol (shm s) p)
             (sub1\<lparr>sub_type := sub_type sub OR sub_req_type (shm s) p\<rparr>))
           (websocket_send (upd_subs r (\<lambda>m. fm_assign m (sub_symbol (shm s) p) sub1) (stamped s p))
             r (sub_request (shm s) p))
       else upd_subs r (\<lambda>m. fm_assign m (sub_symbol (shm s) p) sub1) (stamped s p)))"
  using assms by (simp add: handleSubscribe_def split_beta Let_def)

lemma unsubscribe_nothing:
  assumes "\<not> known s (sender s p) \<or> um_find (websocketsById s) (sub_id (shm s) p) = None \<or>
    (\<exists>r. um_find (websocketsById s) (sub_id (shm s) p) = Some r \<and>
       fm_find (ws_subscriptions (heap s r)) (sub_symbol (shm s) p) = None)"
  shows "handleUnsubscribe s p = reply p SUCCESS (stamped s p)"
  using assms by (auto simp: handleUnsubscribe_def split_beta Let_def)

lemma unsubscribe_some:
  assumes "known s (sender s p)" and "um_find (websocketsById s) (sub_id (shm s) p) = Some r"
    and "fm_find (ws_subscriptions (heap s r)) (sub_symbol (shm s) p) = Some sub"
  shows "handleUnsubscribe s p = reply p SUCCESS
    (if sub_clients sub - {sender s p} = {} then
       websocket_send (upd_subs r (\<lambda>m. fm_erase m (sub_symbol (shm s) p)) (stamped s p)) r
         (sub_request (shm s) p)
     else upd_subs r (\<lambda>m. fm_assign m (sub_symbol (shm s) p)
       (sub\<lparr>sub_clients := sub_clients sub - {sender s p}\<rparr>)) (stamped s p))"
  using assms
  by (simp add: handleUnsubscribe_def split_beta Let_def upd_subs_twice fm_erase_assign)

lemma handleSubscribe_mild: "mild (heap s) (heap (handleSubscribe s p))"
proof (cases "known s (sender s p) \<and> um_find (websocketsById s) (sub_id (shm s) p) \<noteq> None")
  case False
  then show ?thesis using subscribe_failed [of s p] by auto
next
  case True
  then obtain r where r: "known s (sender s p)" "um_find (websocketsById s) (sub_id (shm s) p) = Some r"
    by auto
  show ?thesis
  proof (cases "fm_find (ws_subscriptions (heap s r)) (sub_symbol (shm s) p)")
    case None
    show ?thesis
      unfolding subscribe_first [OF r None]
      by (simp add: mild_def heap_send subs_kept_assign del: fun_upd_apply) (simp add: subs_kept_assign)
  next
    case (Some sub)
    show ?thesis
      unfolding subscribe_again [OF r Some refl]
      by (simp add: mild_def heap_send) (simp add: subs_kept_def fm_eval)
  qed
qed

lemma handleUnsubscribe_mild: "mild (heap s) (heap (handleUnsubscribe s p))"
proof (cases "\<exists>r sub. known s (sender s p) \<and> um_find (websocketsById s) (sub_id (shm s) p) = Some r \<and>
    fm_find (ws_subscriptions (heap s r)) (sub_symbol (shm s) p) = Some sub")
  case False
  then have "\<not> known s (sender s p) \<or> um_find (websocketsById s) (sub_id (shm s) p) = None \<or>
    (\<exists>r. um_find (websocketsById s) (sub_id (shm s) p) = Some r \<and>
       fm_find (ws_subscriptions (heap s r)) (sub_symbol (shm s) p) = None)"
    by (meson not_Some_eq)
  from unsubscribe_nothing [OF this] show ?thesis by simp
next
  case True
  then obtain r sub where r: "known s (sender s p)" "um_find (websocketsById s) (sub_id (shm s) p) = Some r"
    "fm_find (ws_subscriptions (heap s r)) (sub_symbol (shm s) p) = Some sub"
    by blast
  show ?thesis
    unfolding unsubscribe_some [OF r]
    by (simp add: mild_def heap_send) (simp add: subs_kept_assign subs_kept_erase)
qed

lemma subscribe_fields:
  "websocketsById (handleSubscribe s p) = websocketsById s"
  "websocketsByUrlApiKey (handleSubscribe s p) = websocketsByUrlApiKey s"
  "next_ref (handleSubscribe s p) = next_ref s" "opens (handleSubscribe s p) = opens s"
  "clients (handleSubscribe s p) = clients (stamped s p)" "run (handleSubscribe s p) = run s"
  by (simp_all add: handleSubscribe_def split_beta Let_def split: option.split)

lemma unsubscribe_fields:
  "websocketsById (handleUnsubscribe s p) = websocketsById s"
  "websocketsByUrlApiKey (handleUnsubscribe s p) = websocketsByUrlApiKey s"
  "next_ref (handleUnsubscribe s p) = next_ref s" "opens (handleUnsubscribe s p) = opens s"
  "clients (handleUnsubscribe s p) = clients (stamped s p)" "run (handleUnsubscribe s p) = run s"
  by (simp_all add: handleUnsubscribe_def split_beta Let_def split: option.split)

lemma tables_ok_handleSubscribe:
  assumes "tables_ok s"
  shows "tables_ok (handleSubscribe s p)"
  by (rule tables_ok_mild [OF tables_ok_getClient [OF assms]])
    (use handleSubscribe_mild [of s p] in \<open>simp_all add: subscribe_fields\<close>)

lemma tables_ok_handleUnsubscribe:
  assumes "tables_ok s"
  shows "tables_ok (handleUnsubscribe s p)"
  by (rule tables_ok_mild [OF tables_ok_getClient [OF assms]])
    (use handleUnsubscribe_mild [of s p] in \<open>simp_all add: unsubscribe_fields\<close>)

lemma conns_handleSubscribe: "conns (handleSubscribe s p) = conns s"
  by (rule conns_mild [OF handleSubscribe_mild]) (simp add: subscribe_fields)

lemma conns_handleUnsubscribe: "conns (handleUnsubscribe s p) = conns s"
  by (rule conns_mild [OF handleUnsubscribe_mild]) (simp add: unsubscribe_fields)

lemma tables_ok_sendWsRequest: "tables_ok s \<Longrightarrow> tables_ok (sendWsRequest s p)"
  by (simp add: sendWsRequest_def split_beta Let_def tables_ok_getClient tables_ok_send
      split: option.split)

lemma conns_websocket_send [simp]: "conns (websocket_send s r b) = conns s"
  by (rule conns_mild [OF mild_send]) simp

lemma conns_sendWsRequest: "conns (sendWsRequest s p) = conns s"
  by (simp add: sendWsRequest_def split_beta Let_def split: option.split)

section \<open>Opening\<close>

lemma tables_ok_upd_clients:
  assumes "tables_ok s" and "C \<noteq> {}"
  shows "tables_ok (upd_sock r (\<lambda>w. w\<lparr>ws_clients := C\<rparr>) s)"
  using assms by (auto simp: tables_ok_defs)

lemma share_ws_fields [simp]:
  "websocketsById (share_ws s p r) = websocketsById s"
  "websocketsByUrlApiKey (share_ws s p r) = websocketsByUrlApiKey s"
  "clients (share_ws s p r) = clients s" "opens (share_ws s p r) = opens s"
  "next_ref (share_ws s p r) = next_ref s" "run (share_ws s p r) = run s"
  "heap (share_ws s p r) =
     (heap s)(r := (heap s r)\<lparr>ws_clients := insert (msg_pid (shm s) p) (ws_clients (heap s r))\<rparr>)"
  by (simp_all add: share_ws_def Let_def)

lemma tables_ok_share_ws:
  assumes "tables_ok s"
  shows "tables_ok (share_ws s p r)"
proof -
  have "tables_ok (upd_sock r (\<lambda>w. w\<lparr>ws_clients := insert (msg_pid (shm s) p) (ws_clients (heap s r))\<rparr>) s)"
    using assms by (rule tables_ok_upd_clients) simp
  then show ?thesis by (rule tables_ok_cong [THEN iffD1, rotated -1]) simp_all
qed

lemma conns_share_ws:
  assumes "byId_ok s"
  shows "conns (share_ws s p r) =
    (if um_find (websocketsById s) (ws_id (heap s r)) = Some r
     then abs_join (ws_id (heap s r)) (sender s p) (conns s) else conns s)"
proof (rule ext)
  fix i
  have "ws_id (heap s r') = i" if "um_find (websocketsById s) i = Some r'" for r'
    using byId_okD(2) [OF assms that] .
  then show "conns (share_ws s p r) i = (if um_find (websocketsById s) (ws_id (heap s r)) = Some r
     then abs_join (ws_id (heap s r)) (sender s p) (conns s) else conns s) i"
    by (cases "um_find (websocketsById s) i") (auto simp: conns_def abs_join_def)
qed

lemma Websocket_new_fields:
  assumes "Websocket_new i url key = Inr w"
  shows "ws_id w = i" and "ws_url w = url" and "ws_api_key w = key" and "ws_clients w = {}"
    and "ws_subscriptions w = Map.empty" and "ws_status w = DISCONNECTED" and "ws_w_buffer w = []"
  using assms by (auto simp: Websocket_new_def split: sum.splits)

lemma openNewWs_Inr:
  assumes "openNewWs s p = Inr t"
  obtains w where "Websocket_new (pid s * 10000 + ucast (websocket_id s + 1))
      (open_url (shm t) p) (open_api_key (shm t) p) = Inr w"
    and "heap t = (heap s)(next_ref s := w)" and "next_ref t = Suc (next_ref s)"
    and "opens t = opens s @ [\<lparr>po_ref = next_ref s, po_msg = p, po_phase = Spawned\<rparr>]"
    and "websocketsById t = websocketsById s" and "websocketsByUrlApiKey t = websocketsByUrlApiKey s"
    and "clients t = clients s" and "run t = run s"
  using assms by (auto simp: openNewWs_def Let_def split: sum.splits)

lemma openNewWs_Inl:
  assumes "openNewWs s p = Inl (e, t)"
  shows "heap t = heap s \<and> next_ref t = next_ref s \<and> opens t = opens s \<and>
    websocketsById t = websocketsById s \<and> websocketsByUrlApiKey t = websocketsByUrlApiKey s \<and>
    clients t = clients s \<and> run t = run s \<and> tasks t = tasks s"
  using assms by (auto simp: openNewWs_def Let_def split: sum.splits)

lemma tables_ok_openNewWs_Inr:
  assumes "tables_ok s" and "openNewWs s p = Inr t"
  shows "tables_ok t"
proof -
  obtain w where w: "Websocket_new (pid s * 10000 + ucast (websocket_id s + 1))
      (open_url (shm t) p) (open_api_key (shm t) p) = Inr w"
    and eq: "heap t = (heap s)(next_ref s := w)" "next_ref t = Suc (next_ref s)"
      "opens t = opens s @ [\<lparr>po_ref = next_ref s, po_msg = p, po_phase = Spawned\<rparr>]"
      "websocketsById t = websocketsById s" "websocketsByUrlApiKey t = websocketsByUrlApiKey s"
      "clients t = clients s"
    using assms(2) by (rule openNewWs_Inr)
  have b: "byId_ok s" "byUrl_ok s" "opens_ok s" "clients_ok s" "subs_ok s"
    using assms(1) by (simp_all add: tables_ok_def)
  have "byId_ok t"
    using b(1) byId_okD [OF b(1)] by (auto simp: byId_ok_def eq less_Suc_eq)
  moreover have "byUrl_ok t"
    using b(2) by (auto simp: byUrl_ok_def eq less_Suc_eq)
  moreover have "opens_ok t"
    using b(3) by (auto simp: opens_ok_def eq less_Suc_eq)
  moreover have "clients_ok t"
    using b(4) by (simp add: clients_ok_def eq)
  moreover have "subs_ok t"
    using b(5) Websocket_new_fields(5) [OF w] by (simp add: subs_ok_def subs_kept_def eq)
  ultimately show ?thesis by (simp add: tables_ok_def)
qed

text \<open>What a handler that may throw leaves behind, either way.\<close>

definition result_state :: "(exn \<times> proxy) + proxy \<Rightarrow> proxy" where
  "result_state r = (case r of Inl (e, s) \<Rightarrow> s | Inr s \<Rightarrow> s)"

lemma result_state_simps [simp]:
  "result_state (Inl (e, s)) = s" "result_state (Inr s) = s"
  by (simp_all add: result_state_def)

lemma tables_ok_openNewWs:
  assumes "tables_ok s"
  shows "tables_ok (result_state (openNewWs s p))"
proof (cases "openNewWs s p")
  case (Inl a)
  then obtain e t where "openNewWs s p = Inl (e, t)" by (cases a) auto
  then show ?thesis
    using openNewWs_Inl [of s p e t] tables_ok_cong [of t s] assms by simp
next
  case (Inr t)
  then show ?thesis using tables_ok_openNewWs_Inr [OF assms Inr] by simp
qed

lemma tables_ok_openWs:
  assumes "tables_ok s"
  shows "tables_ok (result_state (openWs s p))"
  using tables_ok_getClient [OF assms, of "sender s p"]
  by (simp add: openWs_def split_beta Let_def tables_ok_share_ws tables_ok_openNewWs split: option.split)

section \<open>The coroutine\<close>

definition detached :: "proxy \<Rightarrow> nat \<Rightarrow> bool" where
  "detached s r \<longleftrightarrow> r < next_ref s \<and> r \<notin> po_ref ` set (opens s) \<and>
     (\<forall>i. um_find (websocketsById s) i \<noteq> Some r) \<and>
     (\<forall>k. fm_find (websocketsByUrlApiKey s) k \<noteq> Some r)"

lemma tables_ok_detach:
  assumes "tables_ok s" and "po \<in> set (opens s)"
  shows "tables_ok (s\<lparr>opens := remove1 po (opens s)\<rparr>)"
    and "detached (s\<lparr>opens := remove1 po (opens s)\<rparr>) (po_ref po)"
proof -
  have d: "distinct (map po_ref (opens s))" and o: "distinct (opens s)"
    using assms(1) by (auto simp: tables_ok_defs distinct_map)
  have sub: "po_ref ` set (remove1 po (opens s)) \<subseteq> po_ref ` set (opens s)"
    by (rule image_mono) (rule set_remove1_subset)
  have sub': "x \<notin> po_ref ` set (opens s) \<Longrightarrow> x \<notin> po_ref ` set (remove1 po (opens s))" for x
    using sub by blast
  have mem: "po_ref po \<in> po_ref ` set (opens s)" using assms(2) by (rule imageI)
  have "po_ref po \<notin> po_ref ` set (remove1 po (opens s))"
    using d o assms(2) by (auto simp: distinct_map dest: inj_onD)
  moreover have "distinct (map po_ref (remove1 po (opens s)))"
    using d o by (auto simp: distinct_map intro: inj_on_subset)
  moreover have "\<forall>po' \<in> set (remove1 po (opens s)). po_ref po' < next_ref s" "po_ref po < next_ref s"
    using assms set_remove1_subset [of po "opens s"] by (auto simp: tables_ok_defs)
  moreover have "byId_ok (s\<lparr>opens := remove1 po (opens s)\<rparr>)" "byUrl_ok (s\<lparr>opens := remove1 po (opens s)\<rparr>)"
    using assms(1) sub' by (simp_all add: tables_ok_def byId_ok_def byUrl_ok_def)
  moreover have "um_find (websocketsById s) i \<noteq> Some (po_ref po)"
    "fm_find (websocketsByUrlApiKey s) k \<noteq> Some (po_ref po)" for i k
    using assms(1) mem unfolding tables_ok_def byId_ok_def byUrl_ok_def by blast+
  ultimately show "tables_ok (s\<lparr>opens := remove1 po (opens s)\<rparr>)"
    and "detached (s\<lparr>opens := remove1 po (opens s)\<rparr>) (po_ref po)"
    using assms(1) by (simp_all add: tables_ok_def detached_def opens_ok_def clients_ok_def subs_ok_def)
qed

lemma tables_ok_detached_upd:
  assumes "tables_ok s" and "detached s r" and "heap t = (heap s)(r := w)" and "subs_kept w"
    and "clients s = clients t" and "websocketsById s = websocketsById t"
    and "websocketsByUrlApiKey s = websocketsByUrlApiKey t" and "next_ref s = next_ref t"
    and "opens s = opens t"
  shows "tables_ok t" and "detached t r"
proof -
  note eq = assms(5-9) [symmetric]
  have ne: "um_find (websocketsById s) i = Some x \<Longrightarrow> x \<noteq> r" "fm_find (websocketsByUrlApiKey s) k = Some x \<Longrightarrow> x \<noteq> r"
    for i k x
    using assms(2) unfolding detached_def by blast+
  show "tables_ok t"
    using assms(1,4) ne by (auto simp: tables_ok_defs eq assms(3))
  show "detached t r"
    using assms(2) by (simp add: detached_def eq)
qed

lemma tables_ok_attach:
  assumes "tables_ok s" and "detached s r"
  shows "tables_ok (s\<lparr>opens := opens s @ [po\<lparr>po_ref := r, po_phase := ph\<rparr>]\<rparr>)"
  using assms by (auto simp: tables_ok_defs detached_def)

lemma open_callback_fields:
  "clients (open_callback r p True s) = clients s" "next_ref (open_callback r p True s) = next_ref s"
  "opens (open_callback r p True s) = opens s" "run (open_callback r p True s) = run s"
  "heap (open_callback r p True s) = (heap s)(r := (heap s r)\<lparr>ws_clients :=
     insert (msg_pid (shm (open_callback r p True s)) p) (ws_clients (heap s r))\<rparr>)"
  "websocketsById (open_callback r p True s) = um_emplace (websocketsById s) (ws_id (heap s r)) r"
  "\<exists>k. websocketsByUrlApiKey (open_callback r p True s) = fm_emplace (websocketsByUrlApiKey s) k r"
  by (auto simp: open_callback_def Let_def layout)

lemma tables_ok_open_callback:
  assumes "tables_ok s" and "detached s r" and "ws_status (heap s r) \<noteq> CONNECTING"
  shows "tables_ok (open_callback r p True s)"
proof -
  let ?t = "open_callback r p True s"
  obtain k where k: "websocketsByUrlApiKey ?t = fm_emplace (websocketsByUrlApiKey s) k r"
    using open_callback_fields(7) by blast
  have b: "byId_ok s" "byUrl_ok s" "opens_ok s" "clients_ok s" "subs_ok s"
    using assms(1) by (simp_all add: tables_ok_def)
  have ok: "um_ok (websocketsById s)" using b(1) by (simp add: byId_ok_def)
  have byId: "byId_ok ?t"
    using b(1) assms(2,3)
    by (auto simp: byId_ok_def detached_def open_callback_fields um.lookup_place um.ok_place
        split: if_splits)
  have "byUrl_ok ?t"
    using b(2) assms(2,3)
    by (auto simp: byUrl_ok_def detached_def open_callback_fields(1-6) k fm_laws split: if_splits)
  moreover have "opens_ok ?t" "clients_ok ?t" "subs_ok ?t"
    using b(3-5) by (auto simp: opens_ok_def clients_ok_def subs_ok_def open_callback_fields)
  ultimately show ?thesis using byId by (simp add: tables_ok_def)
qed

lemma conns_open_callback:
  assumes "byId_ok s" and "detached s r" and "um_find (websocketsById s) (ws_id (heap s r)) = None"
    and "ws_clients (heap s r) = {}"
  shows "conns (open_callback r p True s) = abs_join (ws_id (heap s r)) (sender (open_callback r p True s) p) (conns s)"
proof (rule ext)
  fix i
  have ok: "um_ok (websocketsById s)" using assms(1) by (simp add: byId_ok_def)
  have "um_find (websocketsById s) i \<noteq> Some r" using assms(2) by (simp add: detached_def)
  then show "conns (open_callback r p True s) i =
      abs_join (ws_id (heap s r)) (sender (open_callback r p True s) p) (conns s) i"
    using assms(3,4)
    by (cases "um_find (websocketsById s) i")
      (auto simp: conns_def abs_join_def open_callback_fields um.lookup_place ok)
qed

end
