(* ===== verification/Event_Loop.thy ===== *)
theory Event_Loop
  imports Proxy_Inv
begin

text \<open>
  The server's event loop (\<open>WebsocketProxy::run\<close>): which handlers are waiting, and the relation
  \<open>loop_step\<close> of what can happen next.  The loop runs on one thread, so a handler runs to its end;
  which waiting handler runs next, when an operation completes and with which result, and what the
  clients write into their queue meanwhile, is not determined.
\<close>

section \<open>The loop\<close>

definition first_heartbeat_task :: "proxy \<Rightarrow> proxy" where
  "first_heartbeat_task s = startHeartbeat (snd (sendHeartbeat (tick s) (get_timestamp s)))"

definition run_start :: "proxy \<Rightarrow> proxy" where
  "run_start s = post ProcessClientMessage (post FirstHeartbeat s)"

definition take_task :: "task \<Rightarrow> proxy \<Rightarrow> proxy" where
  "take_task t s = s\<lparr>tasks := remove1 t (tasks s)\<rparr>"

definition take_io :: "io_op \<Rightarrow> proxy \<Rightarrow> proxy" where
  "take_io op s = s\<lparr>io := remove1 op (io s)\<rparr>"

definition take_open :: "pending_open \<Rightarrow> proxy \<Rightarrow> proxy" where
  "take_open po s = s\<lparr>opens := remove1 po (opens s)\<rparr>"

text \<open>The coroutine \<open>po\<close> runs on from where it waits.\<close>

definition resume_open :: "proxy \<Rightarrow> pending_open \<Rightarrow> outcome \<Rightarrow> proxy" where
  "resume_open s po oc =
     (case websocket_open (open_callback (po_ref po) (po_msg po)) (take_open po s) (po_ref po)
         (po_phase po) oc of
        (s1, None) \<Rightarrow> s1
      | (s1, Some ph) \<Rightarrow> s1\<lparr>opens := opens s1 @ [po\<lparr>po_phase := ph\<rparr>]\<rparr>)"

text \<open>
  An exception that a handler lets through ends the handler; \<open>run\<close> catches it and goes on with
  what is still waiting, which is \<open>result_state\<close>.
\<close>

inductive loop_step :: "proxy \<Rightarrow> proxy \<Rightarrow> bool" where
  client_write: "loop_step s (s\<lparr>shm := m\<rparr>)"
| step_first: "FirstHeartbeat \<in> set (tasks s) \<Longrightarrow>
    loop_step s (first_heartbeat_task (take_task FirstHeartbeat s))"
| step_heartbeat: "StartHeartbeat \<in> set (tasks s) \<Longrightarrow>
    loop_step s (startHeartbeat (take_task StartHeartbeat s))"
| step_poll: "ProcessClientMessage \<in> set (tasks s) \<Longrightarrow> (\<forall>i \<in> set ids. PushClosed i \<in> set (trace s)) \<Longrightarrow>
    loop_step s (result_state (processClientMessage (take_task ProcessClientMessage s) rd ids))"
| step_signal: "loop_step s (shutdown s)"
| step_shutdown: "ShutdownTask \<in> set (tasks s) \<Longrightarrow> loop_step s (shutdown_task (take_task ShutdownTask s))"
| step_shutdown_timer: "ShutdownTimer \<in> set (tasks s) \<Longrightarrow>
    loop_step s (shutdown_timer_task (take_task ShutdownTimer s))"
| step_timer: "TimerOp \<in> set (io s) \<Longrightarrow> loop_step s (emit IocStop (take_io TimerOp s))"
| step_resume: "po \<in> set (opens s) \<Longrightarrow> loop_step s (resume_open s po oc)"
| step_open_exception: "po \<in> set (opens s) \<Longrightarrow> loop_step s (reply (po_msg po) FAILED (take_open po s))"
| step_written: "WriteOp r b \<in> set (io s) \<Longrightarrow>
    loop_step s (websocket_on_write (take_io (WriteOp r b) s) r ec n)"
| step_read: "ReadOp r \<in> set (io s) \<Longrightarrow> loop_step s (websocket_on_read (take_io (ReadOp r) s) r ec d n)"
| step_closed: "CloseOp r \<in> set (io s) \<Longrightarrow> loop_step s (websocket_on_close (take_io (CloseOp r) s) r ec)"

definition loop_init :: "proxy \<Rightarrow> bool" where
  "loop_init s \<longleftrightarrow> (\<exists>e p m. s = run_start (WebsocketProxy_init e p m))"

abbreviation reachable :: "proxy \<Rightarrow> bool" where
  "reachable s \<equiv> reach loop_init loop_step s"

text \<open>The step from \<open>s\<close> to \<open>t\<close> is the turn of the polling task that read the message at \<open>p\<close>.\<close>

definition handles :: "proxy \<Rightarrow> proxy \<Rightarrow> nat \<Rightarrow> msg_type \<Rightarrow> bool" where
  "handles s t p ty \<longleftrightarrow> ProcessClientMessage \<in> set (tasks s) \<and>
     type_of_code (msg_type (shm s) p) = Some ty \<and>
     (\<exists>ids. t = result_state (processClientMessage (take_task ProcessClientMessage s) (Some p) ids))"

text \<open>
  The same relation as a function of what happens: a label names the handler that runs and the results
  it is given, \<open>loop_can\<close> says when it may run and \<open>loop_do\<close> what it does.
\<close>

datatype loop_label =
    ClientWrites mem
  | FirstBeat
  | Beat
  | Polls "nat option" "u64 list"
  | Signalled
  | ShutsDown
  | TimerStarts
  | TimerEnds
  | Resumes pending_open outcome
  | OpenThrows pending_open
  | Written nat string "error_code option" nat
  | Reads nat "error_code option" string nat
  | ClosedDone nat "error_code option"

fun loop_can :: "loop_label \<Rightarrow> proxy \<Rightarrow> bool" where
  "loop_can (ClientWrites m) s \<longleftrightarrow> True"
| "loop_can FirstBeat s \<longleftrightarrow> FirstHeartbeat \<in> set (tasks s)"
| "loop_can Beat s \<longleftrightarrow> StartHeartbeat \<in> set (tasks s)"
| "loop_can (Polls rd ids) s \<longleftrightarrow> ProcessClientMessage \<in> set (tasks s) \<and> (\<forall>i \<in> set ids. PushClosed i \<in> set (trace s))"
| "loop_can Signalled s \<longleftrightarrow> True"
| "loop_can ShutsDown s \<longleftrightarrow> ShutdownTask \<in> set (tasks s)"
| "loop_can TimerStarts s \<longleftrightarrow> ShutdownTimer \<in> set (tasks s)"
| "loop_can TimerEnds s \<longleftrightarrow> TimerOp \<in> set (io s)"
| "loop_can (Resumes po oc) s \<longleftrightarrow> po \<in> set (opens s)"
| "loop_can (OpenThrows po) s \<longleftrightarrow> po \<in> set (opens s)"
| "loop_can (Written r b ec n) s \<longleftrightarrow> WriteOp r b \<in> set (io s)"
| "loop_can (Reads r ec d n) s \<longleftrightarrow> ReadOp r \<in> set (io s)"
| "loop_can (ClosedDone r ec) s \<longleftrightarrow> CloseOp r \<in> set (io s)"

fun loop_do :: "loop_label \<Rightarrow> proxy \<Rightarrow> proxy" where
  "loop_do (ClientWrites m) s = s\<lparr>shm := m\<rparr>"
| "loop_do FirstBeat s = first_heartbeat_task (take_task FirstHeartbeat s)"
| "loop_do Beat s = startHeartbeat (take_task StartHeartbeat s)"
| "loop_do (Polls rd ids) s = result_state (processClientMessage (take_task ProcessClientMessage s) rd ids)"
| "loop_do Signalled s = shutdown s"
| "loop_do ShutsDown s = shutdown_task (take_task ShutdownTask s)"
| "loop_do TimerStarts s = shutdown_timer_task (take_task ShutdownTimer s)"
| "loop_do TimerEnds s = emit IocStop (take_io TimerOp s)"
| "loop_do (Resumes po oc) s = resume_open s po oc"
| "loop_do (OpenThrows po) s = reply (po_msg po) FAILED (take_open po s)"
| "loop_do (Written r b ec n) s = websocket_on_write (take_io (WriteOp r b) s) r ec n"
| "loop_do (Reads r ec d n) s = websocket_on_read (take_io (ReadOp r) s) r ec d n"
| "loop_do (ClosedDone r ec) s = websocket_on_close (take_io (CloseOp r) s) r ec"

lemma loop_can_step: "loop_can l s \<Longrightarrow> loop_step s (loop_do l s)"
  by (cases l) (auto intro: loop_step.intros)

lemma loop_step_label:
  assumes "loop_step s t"
  obtains l where "loop_can l s" and "t = loop_do l s"
proof -
  have "\<exists>l. loop_can l s \<and> t = loop_do l s"
    using assms
  proof (cases rule: loop_step.cases)
    case (client_write m)
    then show ?thesis by (intro exI [of _ "ClientWrites m"]) simp
  next
    case step_first
    then show ?thesis by (intro exI [of _ FirstBeat]) simp
  next
    case step_heartbeat
    then show ?thesis by (intro exI [of _ Beat]) simp
  next
    case (step_poll ids rd)
    then show ?thesis by (intro exI [of _ "Polls rd ids"]) simp
  next
    case step_signal
    then show ?thesis by (intro exI [of _ Signalled]) simp
  next
    case step_shutdown
    then show ?thesis by (intro exI [of _ ShutsDown]) simp
  next
    case step_shutdown_timer
    then show ?thesis by (intro exI [of _ TimerStarts]) simp
  next
    case step_timer
    then show ?thesis by (intro exI [of _ TimerEnds]) simp
  next
    case (step_resume po oc)
    then show ?thesis by (intro exI [of _ "Resumes po oc"]) simp
  next
    case (step_open_exception po)
    then show ?thesis by (intro exI [of _ "OpenThrows po"]) simp
  next
    case (step_written r b ec n)
    then show ?thesis by (intro exI [of _ "Written r b ec n"]) simp
  next
    case (step_read r ec d n)
    then show ?thesis by (intro exI [of _ "Reads r ec d n"]) simp
  next
    case (step_closed r ec)
    then show ?thesis by (intro exI [of _ "ClosedDone r ec"]) simp
  qed
  then show ?thesis using that by blast
qed

lemmas take_defs = take_task_def take_io_def take_open_def

section \<open>Every handler keeps the tables\<close>

lemma tables_ok_take [simp]:
  "tables_ok (take_task t s) = tables_ok s" "tables_ok (take_io op s) = tables_ok s"
  by (rule tables_ok_cong; simp add: take_defs)+

lemma tables_ok_check_clients: "tables_ok s \<Longrightarrow> tables_ok (check_clients now cs s)"
  by (induction now cs s rule: check_clients.induct) (simp_all add: tables_ok_unregister_iter)

lemma tables_ok_checkHeartbeats: "tables_ok s \<Longrightarrow> tables_ok (snd (checkHeartbeats s))"
  by (simp add: checkHeartbeats_def split_beta tables_ok_check_clients)

lemma tables_ok_startHeartbeat: "tables_ok s \<Longrightarrow> tables_ok (startHeartbeat s)"
  by (simp add: startHeartbeat_def Let_def tables_ok_checkHeartbeats)

lemma tables_ok_erase:
  assumes "tables_ok s"
  shows "tables_ok (s\<lparr>websocketsByUrlApiKey := fm_erase (websocketsByUrlApiKey s) k,
    websocketsById := um_erase (websocketsById s) i\<rparr>)"
  using assms by (auto simp: tables_ok_defs um.ok_remove um.lookup_remove fm_laws)

lemma tables_ok_erase_url:
  assumes "tables_ok s"
  shows "tables_ok (s\<lparr>websocketsByUrlApiKey := fm_erase (websocketsByUrlApiKey s) k\<rparr>)"
  using assms by (auto simp: tables_ok_defs fm_laws)

lemma tables_ok_removeClosedSockets: "tables_ok s \<Longrightarrow> tables_ok (removeClosedSockets ids s)"
  by (induction ids s rule: removeClosedSockets.induct) (simp_all add: tables_ok_erase split: option.split)

lemma tables_ok_close_all: "tables_ok s \<Longrightarrow> tables_ok (close_all kvs s)"
proof (induction kvs s rule: close_all.induct)
  case (1 s)
  then show ?case by simp
next
  case (2 i r kvs s)
  have "tables_ok (websocket_close s r)" using 2(2) by (rule tables_ok_close)
  from tables_ok_erase_url [OF this] show ?case
    using 2(1) [OF refl] by (simp add: Let_def)
qed

lemma tables_ok_shutdown_task: "tables_ok s \<Longrightarrow> tables_ok (shutdown_task s)"
proof -
  assume "tables_ok s"
  then have "tables_ok (s\<lparr>run := False\<rparr>)" by (rule tables_ok_cong [THEN iffD1, rotated -1]) simp_all
  then have "tables_ok ((close_all (websocketsById s) (s\<lparr>run := False\<rparr>))\<lparr>websocketsById := []\<rparr>)"
    using tables_ok_close_all [of "s\<lparr>run := False\<rparr>"] by (simp add: tables_ok_defs)
  then show ?thesis by (simp add: shutdown_task_def Let_def)
qed

lemma tables_ok_handleClientMessage:
  assumes "tables_ok s"
  shows "tables_ok (result_state (handleClientMessage s p))"
  using assms
  by (simp add: handleClientMessage_def tables_ok_handleClientRegistration tables_ok_unregister
      tables_ok_handleClientHeartbeat tables_ok_openWs tables_ok_closeWs tables_ok_sendWsRequest
      tables_ok_handleSubscribe tables_ok_handleUnsubscribe split: option.split msg_type.split)

lemma processClientMessage_result:
  "result_state (processClientMessage s rd ids) =
     (case (case rd of Some p \<Rightarrow> handleClientMessage s p | None \<Rightarrow> Inr s) of
        Inl (e, s1) \<Rightarrow> s1
      | Inr s1 \<Rightarrow>
          (let s2 = removeClosedSockets ids s1
           in if run s2 then
                (if shutdown_time s2 \<noteq> 0 then
                   (if get_timestamp s2 - shutdown_time s2 \<ge> 60000 then post ShutdownTask (tick s2)
                    else post ProcessClientMessage (tick s2))
                 else post ProcessClientMessage s2)
              else s2))"
  by (auto simp: processClientMessage_def shutdown_def Let_def split: sum.split)

lemma tables_ok_processClientMessage:
  assumes "tables_ok s"
  shows "tables_ok (result_state (processClientMessage s rd ids))"
proof -
  have "tables_ok (result_state (case rd of Some p \<Rightarrow> handleClientMessage s p | None \<Rightarrow> Inr s))"
    using assms by (simp add: tables_ok_handleClientMessage split: option.split)
  then show ?thesis
    unfolding processClientMessage_result
    by (cases "case rd of Some p \<Rightarrow> handleClientMessage s p | None \<Rightarrow> Inr s")
      (auto simp: Let_def tables_ok_removeClosedSockets)
qed

lemma tables_ok_fail_callback:
  assumes "tables_ok s"
  shows "tables_ok (websocket_fail s r e (Some (open_callback r' p)) True)"
  using assms by (simp add: websocket_fail_def Let_def open_callback_def tables_ok_close)

lemma tables_ok_resume_open:
  assumes "tables_ok s" and "po \<in> set (opens s)"
  shows "tables_ok (resume_open s po oc)"
proof -
  let ?s = "take_open po s" and ?r = "po_ref po"
  have ok: "tables_ok ?s" "detached ?s ?r"
    using tables_ok_detach [OF assms] by (simp_all add: take_open_def)
  have attach: "tables_ok (t\<lparr>opens := opens ?s @ [po\<lparr>po_phase := ph\<rparr>]\<rparr>)"
    if "heap t = (heap ?s)(?r := w)" "subs_kept w" "tables t = tables ?s" for t w ph
  proof -
    note f = tables_fields [OF that(3), symmetric]
    have "tables_ok t" "detached t ?r"
      using tables_ok_detached_upd [OF ok that(1,2) f(5,6,7,9,11)] by auto
    then have "tables_ok (t\<lparr>opens := opens t @ [po\<lparr>po_ref := ?r, po_phase := ph\<rparr>]\<rparr>)"
      by (rule tables_ok_attach)
    moreover have "po\<lparr>po_ref := ?r, po_phase := ph\<rparr> = po\<lparr>po_phase := ph\<rparr>" by simp
    ultimately show ?thesis by (simp add: f(11))
  qed
  have kept: "subs_kept (heap ?s ?r)" using ok(1) by (simp add: tables_ok_def subs_ok_def)
  have fail: "tables_ok (websocket_fail ?s ?r e (Some (open_callback ?r (po_msg po))) True)" for e
    using ok(1) by (rule tables_ok_fail_callback)
  have self: "heap ?s = (heap ?s)(?r := heap ?s ?r)" by simp
  show ?thesis
  proof (cases "po_phase po")
    case Spawned
    then show ?thesis
      unfolding resume_open_def
      by (simp add: Let_def) (rule attach [where w = "(heap ?s ?r)\<lparr>ws_status := CONNECTING\<rparr>"]; simp add: kept)
  next
    case Resolving
    show ?thesis
    proof (cases "oc_error oc")
      case None
      with Resolving show ?thesis
        unfolding resume_open_def
        by simp (rule attach [where w = "heap ?s ?r"]; simp add: kept)
    qed (use Resolving fail in \<open>simp add: resume_open_def\<close>)
  next
    case Connecting
    show ?thesis
    proof (cases "oc_error oc")
      case None
      show ?thesis
      proof (cases "oc_sni_error oc")
        case N: None
        from Connecting None N show ?thesis
          unfolding resume_open_def
          by (simp add: Let_def)
            (rule attach [where w = "(heap ?s ?r)\<lparr>ws_host := ws_host (heap ?s ?r) @ '':'' @
              dec (unat (oc_port oc))\<rparr>"]; simp add: kept)
      qed (use Connecting None fail in \<open>simp add: resume_open_def\<close>)
    qed (use Connecting fail in \<open>simp add: resume_open_def\<close>)
  next
    case SslHandshaking
    show ?thesis
    proof (cases "oc_error oc")
      case None
      with SslHandshaking show ?thesis
        unfolding resume_open_def
        by simp (rule attach [where w = "heap ?s ?r"]; simp add: kept)
    qed (use SslHandshaking fail in \<open>simp add: resume_open_def\<close>)
  next
    case WsHandshaking
    show ?thesis
    proof (cases "oc_error oc")
      case None
      let ?t = "start_io (ReadOp ?r) (set_ws_status ?r CONNECTED ?s)"
      have "tables_ok ?t" "detached ?t ?r"
        using tables_ok_detached_upd [OF ok, of ?t "(heap ?s ?r)\<lparr>ws_status := CONNECTED\<rparr>"] kept
        by simp_all
      then have "tables_ok (open_callback ?r (po_msg po) True ?t)"
        by (rule tables_ok_open_callback) simp
      with WsHandshaking None show ?thesis by (simp add: resume_open_def)
    qed (use WsHandshaking fail in \<open>simp add: resume_open_def\<close>)
  qed
qed

lemma tables_ok_loop_step:
  assumes "tables_ok s" and "loop_step s t"
  shows "tables_ok t"
  using assms(2,1)
proof (cases rule: loop_step.cases)
  case (client_write m)
  then show ?thesis using assms(1) tables_ok_cong [of t s] by simp
next
  case (step_open_exception po)
  then show ?thesis using tables_ok_detach(1) [OF assms(1)] by (simp add: take_open_def)
next
  case (step_written r b ec n)
  then show ?thesis using tables_ok_ws_step [of "take_io (WriteOp r b) s" r "WsWritten ec n"] assms(1) by simp
next
  case (step_read r ec d n)
  then show ?thesis using tables_ok_ws_step [of "take_io (ReadOp r) s" r "WsRead ec d n"] assms(1) by simp
next
  case (step_closed r ec)
  then show ?thesis using tables_ok_ws_step [of "take_io (CloseOp r) s" r "WsClosedDone ec"] assms(1) by simp
qed (use assms(1) in \<open>simp_all add: first_heartbeat_task_def tables_ok_startHeartbeat
    tables_ok_processClientMessage shutdown_def tables_ok_shutdown_task shutdown_timer_task_def
    tables_ok_resume_open tables_ok_cong [OF frame_start_io(5-7) heap_start_io frame_start_io(9,11)]\<close>)

interpretation server: invariant_system loop_init loop_step tables_ok
proof unfold_locales
  fix s t
  show "loop_init s \<Longrightarrow> tables_ok s"
    by (auto simp: loop_init_def run_start_def tables_ok_init)
  show "tables_ok s \<Longrightarrow> loop_step s t \<Longrightarrow> tables_ok t"
    by (rule tables_ok_loop_step)
qed

end
