(* ===== verification/Server_Props.thy ===== *)
theory Server_Props
  imports Event_Loop
begin

text \<open>
  The properties of the server: what a client can rely on after each request, on every branch, and
  what holds in every state of the event loop.
\<close>

section \<open>Reading replies\<close>

lemma status_of_reply [simp]: "msg_status (shm (reply p st s)) p = status_code st"
  by simp

text \<open>The waiting handlers and the run flag are changed by no request.\<close>

lemma tasks_run_frames [simp]:
  "tasks (handleClientRegistration s p) = tasks s" "run (handleClientRegistration s p) = run s"
  "tasks (closeWs s p) = tasks s" "run (closeWs s p) = run s"
  "tasks (unregisterClient s q) = tasks s" "run (unregisterClient s q) = run s"
  "tasks (handleClientHeartbeat s p) = tasks s" "run (handleClientHeartbeat s p) = run s"
  "tasks (handleSubscribe s p) = tasks s" "run (handleSubscribe s p) = run s"
  "tasks (handleUnsubscribe s p) = tasks s" "run (handleUnsubscribe s p) = run s"
  "tasks (sendWsRequest s p) = tasks s" "run (sendWsRequest s p) = run s"
  "tasks (share_ws s p r) = tasks s" "run (share_ws s p r) = run s"
  "tasks (result_state (openNewWs s p)) = tasks s" "run (result_state (openNewWs s p)) = run s"
  by (simp_all add: handleClientRegistration_def closeWs_def unregister_drop handleClientHeartbeat_def
      handleSubscribe_def handleUnsubscribe_def sendWsRequest_def share_ws_def openNewWs_def Let_def
      split_beta closeWs_id_effects split: option.split sum.split)

lemma tasks_openWs [simp]:
  "tasks (result_state (openWs s p)) = tasks s" "run (result_state (openWs s p)) = run s"
  by (simp_all add: openWs_def Let_def split_beta split: option.split)

lemma tasks_handleClientMessage [simp]:
  "tasks (result_state (handleClientMessage s p)) = tasks s"
  "run (result_state (handleClientMessage s p)) = run s"
  by (simp_all add: handleClientMessage_def split: option.split msg_type.split)

lemma removeClosedSockets_fields [simp]:
  "tasks (removeClosedSockets ids s) = tasks s" "run (removeClosedSockets ids s) = run s"
  "heap (removeClosedSockets ids s) = heap s" "clients (removeClosedSockets ids s) = clients s"
  "shutdown_time (removeClosedSockets ids s) = shutdown_time s"
  "opens (removeClosedSockets ids s) = opens s" "shm (removeClosedSockets ids s) = shm s"
  "next_ref (removeClosedSockets ids s) = next_ref s" "env (removeClosedSockets ids s) = env s"
  by (induction ids s rule: removeClosedSockets.induct) (simp_all split: option.split)

lemma check_clients_fields [simp]:
  "tasks (check_clients now cs s) = tasks s" "run (check_clients now cs s) = run s"
  by (induction now cs s rule: check_clients.induct) simp_all

lemma checkHeartbeats_fields [simp]:
  "tasks (snd (checkHeartbeats s)) = tasks s" "run (snd (checkHeartbeats s)) = run s"
  by (simp_all add: checkHeartbeats_def split_beta)

section \<open>A state for the examples\<close>

text \<open>Two clients, 7 and 8; one connection, 30001, which only 7 uses.\<close>

definition demo_ws :: websocket where
  "demo_ws = no_websocket\<lparr>ws_url := ''wss://host.com'', ws_host := ''host.com'', ws_path := ''/'',
     ws_port := 443, ws_id := 30001, ws_clients := {7}, ws_status := CONNECTED\<rparr>"

definition demo_state :: proxy where
  "demo_state = (WebsocketProxy_init demo_env 3 zero_mem)\<lparr>
     clients := [(7, \<lparr>ci_pid = 7, ci_last_heartbeat_time = 900\<rparr>), (8, \<lparr>ci_pid = 8, ci_last_heartbeat_time = 1000\<rparr>)],
     websocketsById := [(30001, 0)],
     websocketsByUrlApiKey := [(''wss://host.com'', []) \<mapsto> 0],
     heap := (\<lambda>_. no_websocket)(0 := demo_ws), next_ref := 1\<rparr>"

lemma demo_ws_simps [simp]:
  "ws_id demo_ws = 30001" "ws_clients demo_ws = {7}" "ws_status demo_ws = CONNECTED"
  "ws_url demo_ws = ''wss://host.com''" "ws_subscriptions demo_ws = Map.empty"
  "ws_api_key demo_ws = []" "ws_w_buffer demo_ws = []"
  by (simp_all add: demo_ws_def no_websocket_def)

lemma demo_simps [simp]:
  "clients demo_state = [(7, \<lparr>ci_pid = 7, ci_last_heartbeat_time = 900\<rparr>), (8, \<lparr>ci_pid = 8, ci_last_heartbeat_time = 1000\<rparr>)]"
  "websocketsById demo_state = [(30001, 0)]" "heap demo_state = (\<lambda>_. no_websocket)(0 := demo_ws)"
  "websocketsByUrlApiKey demo_state = [(''wss://host.com'', []) \<mapsto> 0]"
  "next_ref demo_state = 1" "opens demo_state = []" "shm demo_state = zero_mem" "run demo_state"
  "env demo_state = demo_env" "ticks demo_state = 0" "pid demo_state = 3" "io demo_state = []"
  "tasks demo_state = []" "trace demo_state = []" "websocket_id demo_state = 0"
  "shutdown_time demo_state = 0" "last_heartbeat_time demo_state = 0"
  by (simp_all add: demo_state_def)

lemma tables_ok_demo [simp]: "tables_ok demo_state"
  by (auto simp: tables_ok_defs um_ok_def fm_find_def subs_kept_def no_websocket_def split: if_splits)

lemma conns_demo [simp]: "conns demo_state = [30001 \<mapsto> {7}]"
  by (auto simp: conns_def fun_eq_iff)

section \<open>Registration\<close>

text \<open>
  A registration always succeeds: the reply says so and carries the server's pid, the client is
  known from then on with a fresh heartbeat, no other client is touched, and a pending shutdown of
  the idle server is called off.
\<close>

theorem registration_succeeds:
  assumes "um_ok (clients s)" and "q = msg_pid (shm s) p" and "t = handleClientRegistration s p"
  shows "msg_status (shm t) p = status_code SUCCESS \<and>
    load_u64 (shm t) (fld RegisterMessage_layout ''server_pid'' p) = pid s \<and>
    um_find (clients t) q = Some \<lparr>ci_pid = q, ci_last_heartbeat_time = get_timestamp s\<rparr> \<and>
    (\<forall>x. x = q \<or> um_find (clients t) x = um_find (clients s) x) \<and>
    shutdown_time t = 0 \<and> conns t = conns s"
proof -
  have "shm t = set_status (store_u64 (shm s) (fld RegisterMessage_layout ''server_pid'' p) (pid s)) p SUCCESS"
    "shutdown_time t = 0"
    by (simp_all add: assms(3) handleClientRegistration_def Let_def)
  moreover have "conns t = conns s"
    by (rule conns_cong) (simp_all add: assms(3))
  ultimately show ?thesis
    using assms(1)
    by (auto simp: assms(2,3) registration_clients um.lookup_assign um.lookup_place um.ok_place layout)
qed

theorem registration_succeeds_example:
  "msg_status (shm (handleClientRegistration (WebsocketProxy_init demo_env 3 zero_mem) 0)) 0 = 1"
  using registration_succeeds [of "WebsocketProxy_init demo_env 3 zero_mem" _ 0, OF _ refl refl] by simp

section \<open>Leaving\<close>

text \<open>
  C3: Unregistering a client implements the abstract operation: the client leaves every connection
  it shared, connections it was the last client of disappear, every other connection keeps exactly
  its other clients.  The client is forgotten, the others are not, and the idle time starts running
  when it was the last one.
\<close>

theorem unregister_refines:
  assumes "tables_ok s" and "um_find (clients s) q = Some c" and "t = unregisterClient s q"
  shows "conns t = abs_unregister q (conns s) \<and>
    (\<forall>x. um_find (clients t) x = (if x = q then None else um_find (clients s) x)) \<and>
    shutdown_time t = (if clients t = [] then get_timestamp (drop_client s q) else shutdown_time s)"
proof -
  have t: "t = unregisterClient_iter s q"
    using assms(2,3) by (simp add: unregister_drop)
  have ok: "um_ok (clients s)" "byId_ok s" using assms(1) by (auto simp: tables_ok_defs)
  have "shutdown_time t = (if clients t = [] then get_timestamp (drop_client s q) else shutdown_time s)"
    by (simp add: t) (simp add: unregister_iter_drop Let_def get_timestamp_def)
  then show ?thesis
    using ok by (simp add: t conns_unregister_iter um.lookup_remove)
qed

theorem unregister_refines_witness:
  "conns (unregisterClient demo_state 7) 30001 = None \<and>
   um_find (clients (unregisterClient demo_state 7)) 8 \<noteq> None"
  using unregister_refines [of demo_state 7 _ "unregisterClient demo_state 7"]
  by (simp add: abs_unregister_def)

text \<open>
  Losing its last client closes a connection.  When a client unregisters, every websocket it was
  the only client of is on its way down, and no websocket that still has another client changes its
  status.
\<close>

theorem unregister_closes_unused:
  assumes "tables_ok s" and "um_find (clients s) q = Some c"
    and "um_find (websocketsById s) i = Some r" and "t = unregisterClient s q"
  shows "ws_status (heap t r) = (if ws_clients (heap s r) = {q} then downgrade (ws_status (heap s r))
      else ws_status (heap s r)) \<and>
    (um_find (websocketsById t) i = None \<longleftrightarrow> ws_clients (heap s r) = {q})"
proof -
  have t: "t = unregisterClient_iter s q"
    using assms(2,4) by (simp add: unregister_drop)
  have b: "byId_ok s" using assms(1) by (simp add: tables_ok_def)
  have "r \<in> snd ` set (websocketsById s)" using um_find_in_set [OF assms(3)] by force
  moreover have "ws_clients (heap s r) \<subseteq> {q} \<longleftrightarrow> ws_clients (heap s r) = {q}"
    using byId_okD(3) [OF b assms(3)] by auto
  ultimately show ?thesis
    using assms(3) by (simp add: t drop_client_tables [OF b])
qed

theorem unregister_closes_unused_example:
  "ws_status (heap (unregisterClient demo_state 7) 0) = DISCONNECTING \<and>
   ws_status (heap (unregisterClient demo_state 8) 0) = CONNECTED"
  using unregister_closes_unused [of demo_state 7 _ 30001 0 "unregisterClient demo_state 7"]
    unregister_closes_unused [of demo_state 8 _ 30001 0 "unregisterClient demo_state 8"]
  by (simp add: downgrade_def)

text \<open>
  A close request takes exactly the sender out of exactly the connection it names, always
  answers \<open>SUCCESS\<close>, and does nothing else to the connections; from an unknown sender it changes
  no connection.
\<close>

theorem close_request_refines:
  assumes "tables_ok s" and "q = msg_pid (shm s) p"
    and "i = load_u64 (shm s) (fld WsClose_layout ''id'' p)"
  shows "conns (closeWs s p) = (if um_find (clients s) q = None then conns s else abs_leave i q (conns s)) \<and>
    msg_status (shm (closeWs s p)) p = status_code SUCCESS"
proof -
  have "byId_ok (snd (getClient s q))"
    using tables_ok_getClient [OF assms(1)] by (simp add: tables_ok_def)
  then show ?thesis
    by (auto simp: closeWs_def split_beta conns_closeWs_id assms(2,3))
qed

theorem close_request_refines_example:
  "conns (closeWs (demo_state\<lparr>shm := store_u64 (set_pid zero_mem 0 7) 10 30001\<rparr>) 0) = Map.empty"
proof -
  let ?s = "demo_state\<lparr>shm := store_u64 (set_pid zero_mem 0 7) 10 30001\<rparr>"
  have "tables_ok ?s" by (rule tables_ok_cong [THEN iffD1, of demo_state]) simp_all
  moreover have "conns ?s = [30001 \<mapsto> {7}]"
    using conns_cong [of ?s demo_state] by simp
  moreover have "msg_pid (shm ?s) 0 = 7" "load_u64 (shm ?s) (fld WsClose_layout ''id'' 0) = 30001"
    by (simp_all add: layout)
  ultimately show ?thesis
    using close_request_refines [of ?s _ 0, OF _ refl refl] by (simp add: abs_leave_def fun_eq_iff)
qed

section \<open>Lost heartbeats\<close>

lemma check_clients_clients:
  assumes "um_ok (clients s)"
  shows "um_find (clients (check_clients now cs s)) q =
    (if \<exists>c. (q, c) \<in> set cs \<and> heartbeat_lost now c then None else um_find (clients s) q)"
  using assms
proof (induction now cs s rule: check_clients.induct)
  case (1 now s)
  then show ?case by simp
next
  case (2 now x c cs s)
  then show ?case by (auto simp: um.ok_remove um.lookup_remove)
qed

definition abs_drop :: "u64 set \<Rightarrow> conn_view \<Rightarrow> conn_view" where
  "abs_drop L C = (\<lambda>i. case C i of
     None \<Rightarrow> None
   | Some S \<Rightarrow> if S - L = {} then None else Some (S - L))"

lemma abs_drop_unregister: "abs_drop L (abs_unregister q C) = abs_drop (insert q L) C"
  by (auto simp: abs_drop_def abs_unregister_def fun_eq_iff split: option.split)

lemma conns_nonempty: "byId_ok s \<Longrightarrow> conns s i = Some S \<Longrightarrow> S \<noteq> {}"
  by (auto simp: conns_def dest: byId_okD(3))

lemma abs_drop_empty: "byId_ok s \<Longrightarrow> abs_drop {} (conns s) = conns s"
  by (auto simp: abs_drop_def fun_eq_iff dest: conns_nonempty split: option.split)

lemma conns_check_clients:
  assumes "tables_ok s"
  shows "conns (check_clients now cs s) =
    abs_drop {q. \<exists>c. (q, c) \<in> set cs \<and> heartbeat_lost now c} (conns s)"
  using assms
proof (induction now cs s rule: check_clients.induct)
  case (1 now s)
  then show ?case by (simp add: abs_drop_empty tables_ok_def)
next
  case (2 now q c cs s)
  have "{x. \<exists>d. (x, d) \<in> set ((q, c) # cs) \<and> heartbeat_lost now d} =
      (if heartbeat_lost now c then insert q {x. \<exists>d. (x, d) \<in> set cs \<and> heartbeat_lost now d}
       else {x. \<exists>d. (x, d) \<in> set cs \<and> heartbeat_lost now d})"
    by auto
  moreover have "byId_ok s" using 2(3) by (simp add: tables_ok_def)
  ultimately show ?case
    using 2(1) [OF _ tables_ok_unregister_iter [OF 2(3)]] 2(2) 2(3)
    by (simp add: conns_unregister_iter abs_drop_unregister)
qed

text \<open>
  C4: One round of heartbeat checks removes exactly the clients whose last sign of life is more than
  30 s old, whatever the order of the client map, and takes them out of every connection; all
  other clients and their shares stay.
\<close>

theorem checkHeartbeats_refines:
  assumes "tables_ok s" and "now = get_timestamp s" and "t = snd (checkHeartbeats s)"
    and "L = {q. \<exists>c. um_find (clients s) q = Some c \<and> now - ci_last_heartbeat_time c > 30000}"
  shows "(\<forall>q. um_find (clients t) q = (if q \<in> L then None else um_find (clients s) q)) \<and>
    conns t = abs_drop L (conns s)"
proof (cases "clients s = []")
  case True
  then have "L = {}" and "t = s" using assms(3,4) by (simp_all add: checkHeartbeats_def)
  then show ?thesis using abs_drop_empty [of s] assms(1) by (simp add: tables_ok_def)
next
  case False
  let ?s1 = "snd (sendHeartbeat (tick s) now)"
  have ok: "um_ok (clients s)" using assms(1) by (simp add: tables_ok_defs)
  have t: "t = check_clients now (clients s) ?s1"
    using False assms(2,3) by (simp add: checkHeartbeats_def split_beta)
  have L: "L = {q. \<exists>c. (q, c) \<in> set (clients s) \<and> heartbeat_lost now c}"
    using assms(4) by (auto simp: um_set_iff [OF ok] heartbeat_lost_def)
  have "um_find (clients t) q = (if q \<in> L then None else um_find (clients s) q)" for q
    using check_clients_clients [of ?s1 now "clients s" q] ok by (simp only: t L) auto
  moreover have "conns t = abs_drop L (conns s)"
    using conns_check_clients [of ?s1 now "clients s"] assms(1) by (simp add: t L)
  ultimately show ?thesis by blast
qed

theorem checkHeartbeats_refines_witness:
  "conns (snd (checkHeartbeats (demo_state\<lparr>env := demo_env\<lparr>env_clock := (\<lambda>n. 30950)\<rparr>\<rparr>))) 30001 = None \<and>
   um_find (clients (snd (checkHeartbeats (demo_state\<lparr>env := demo_env\<lparr>env_clock := (\<lambda>n. 30950)\<rparr>\<rparr>)))) 8 \<noteq> None"
proof -
  let ?s = "demo_state\<lparr>env := demo_env\<lparr>env_clock := (\<lambda>n. 30950)\<rparr>\<rparr>"
  have "tables_ok ?s" by (rule tables_ok_cong [THEN iffD1, of demo_state]) simp_all
  moreover have "conns ?s = [30001 \<mapsto> {7}]"
    using conns_cong [of ?s demo_state] by simp
  moreover have "{q. \<exists>c. um_find (clients ?s) q = Some c \<and> get_timestamp ?s - ci_last_heartbeat_time c > 30000} = {7}"
    by (auto simp: get_timestamp_def split: if_splits)
  ultimately show ?thesis
    using checkHeartbeats_refines [of ?s _ "snd (checkHeartbeats ?s)" "{7}", OF _ refl refl]
    by (simp add: abs_drop_def)
qed

section \<open>Closed sockets and shutdown\<close>

text \<open>
  Sockets reported closed disappear from the table of connections; all others stay.
\<close>

theorem removeClosedSockets_removes:
  assumes "um_ok (websocketsById s)"
  shows "conns (removeClosedSockets ids s) = (\<lambda>i. if i \<in> set ids then None else conns s i)"
  using assms
proof (induction ids s rule: removeClosedSockets.induct)
  case (1 s)
  then show ?case by simp
next
  case (2 i ids s)
  then show ?case
    by (cases "um_find (websocketsById s) i")
      (auto simp: fun_eq_iff conns_def um.ok_remove um.lookup_remove)
qed

theorem removeClosedSockets_removes_example:
  "conns (removeClosedSockets [30001] demo_state) = Map.empty"
  using removeClosedSockets_removes [of demo_state "[30001]"] by (auto simp: um_ok_def fun_eq_iff)

lemma close_all_heap:
  "ws_status (heap (close_all kvs s) r) =
     (if r \<in> snd ` set kvs then downgrade (ws_status (heap s r)) else ws_status (heap s r))"
proof (induction kvs s rule: close_all.induct)
  case (1 s)
  then show ?case by simp
next
  case (2 i r' kvs s)
  have idem: "downgrade (downgrade st) = downgrade st" for st
    by (cases st) (simp_all add: downgrade_def)
  have "ws_status (heap (websocket_close s r') r) =
      (if r = r' then downgrade (ws_status (heap s r)) else ws_status (heap s r))"
    by (simp add: heap_close downgrade_def)
  with 2 show ?case by (auto simp: Let_def idem)
qed

lemma close_all_fields [simp]:
  "clients (close_all kvs s) = clients s" "websocketsById (close_all kvs s) = websocketsById s"
  "tasks (close_all kvs s) = tasks s" "run (close_all kvs s) = run s" "opens (close_all kvs s) = opens s"
  by (induction kvs s rule: close_all.induct) (simp_all add: Let_def)

text \<open>
  The idle server ends itself after a minute, and only then.  As long as the loop runs, a turn
  of the polling task that reads nothing waits for its next turn, unless the last client left at
  least 60 s ago: then it starts the shutdown instead.
\<close>

theorem idle_shutdown:
  assumes "run s"
  shows "tasks (result_state (processClientMessage s None ids)) = tasks s @
    [if shutdown_time s \<noteq> 0 \<and> get_timestamp (removeClosedSockets ids s) - shutdown_time s \<ge> 60000
     then ShutdownTask else ProcessClientMessage]"
  using assms by (simp add: processClientMessage_result Let_def)

theorem idle_shutdown_example:
  "tasks (result_state (processClientMessage (WebsocketProxy_init demo_env 3 zero_mem) None [])) =
    [ProcessClientMessage]"
  using idle_shutdown [of "WebsocketProxy_init demo_env 3 zero_mem" "[]"] by simp

end
