(* ===== verification/Server_Requests.thy ===== *)
theory Server_Requests
  imports Server_Props
begin

text \<open>
  What a request to open, subscribe, unsubscribe or send does on each of its branches: the answer
  in the request's memory, the shared tables, and the operations started on the network.
\<close>

section \<open>Subscriptions\<close>

lemma io_send: "buffer_laws (env s) \<Longrightarrow>
    io (websocket_send s r b) = io s @ [WriteOp r (ws_w_buffer (heap s r) @ b)]"
  by (simp add: websocket_send_def Let_def buffer_laws_def)

lemma io_upd [simp]: "io (reply p st s) = io s" "io (upd_shm f s) = io s" "io (upd_subs r g s) = io s"
  "io (snd (getClient s q)) = io s"
  by (simp_all add: reply_def upd_shm_def upd_subs_def getClient_def tick_def split: option.split)

lemma existing_set_status [simp]:
  "load_u8 (set_status m p st) (fld WsSubscription_layout ''existing'' p) =
     load_u8 m (fld WsSubscription_layout ''existing'' p)"
  by (simp add: layout)

text \<open>What the handler makes of the entry of a symbol for a subscription of type \<open>ty\<close> by client \<open>q\<close>, and
  when it sends.\<close>

definition abs_subscribe :: "u64 \<Rightarrow> u8 \<Rightarrow> subscription option \<Rightarrow> subscription" where
  "abs_subscribe q ty old = (case old of
     None \<Rightarrow> \<lparr>sub_type = ty, sub_clients = {q}\<rparr>
   | Some b \<Rightarrow> \<lparr>sub_type = (if sub_type b AND ty = 0 then sub_type b OR ty else sub_type b),
                sub_clients = insert q (sub_clients b)\<rparr>)"

definition new_upstream :: "u8 \<Rightarrow> subscription option \<Rightarrow> bool" where
  "new_upstream ty old = (case old of None \<Rightarrow> True | Some b \<Rightarrow> sub_type b AND ty = 0)"

lemma subscribe_effect:
  assumes "buffer_laws (env s)" and "known s (sender s p)"
    and "um_find (websocketsById s) (sub_id (shm s) p) = Some r"
    and "old = ws_subscriptions (heap s r) (sub_symbol (shm s) p)" and "t = handleSubscribe s p"
  shows "ws_subscriptions (heap t r) = (ws_subscriptions (heap s r))(sub_symbol (shm s) p \<mapsto>
      abs_subscribe (sender s p) (sub_req_type (shm s) p) old) \<and>
    io t = io s @ (if new_upstream (sub_req_type (shm s) p) old
      then [WriteOp r (ws_w_buffer (heap s r) @ sub_request (shm s) p)] else []) \<and>
    msg_status (shm t) p = status_code SUCCESS \<and>
    load_u8 (shm t) (fld WsSubscription_layout ''existing'' p) =
      (if old = None then load_u8 (shm s) (fld WsSubscription_layout ''existing'' p) else 1) \<and>
    conns t = conns s"
proof (cases old)
  case None
  then have n: "fm_find (ws_subscriptions (heap s r)) (sub_symbol (shm s) p) = None"
    using assms(4) by (simp add: fm_find_def)
  show ?thesis
    unfolding assms(5)
    using None assms(1) conns_handleSubscribe [of s p]
    by (simp add: subscribe_first [OF assms(2,3) n] io_send heap_send abs_subscribe_def new_upstream_def
        fm_assign_def)
next
  case (Some b)
  then have n: "fm_find (ws_subscriptions (heap s r)) (sub_symbol (shm s) p) = Some b"
    using assms(4) by (simp add: fm_find_def)
  have c: "conns t = conns s" unfolding assms(5) by (rule conns_handleSubscribe)
  show ?thesis
    using Some assms(1) c unfolding assms(5) subscribe_again [OF assms(2,3) n refl]
    by (cases b) (simp add: io_send heap_send abs_subscribe_def new_upstream_def fm_assign_def)
qed

text \<open>
  The kinds of data that the server has asked for upstream for a symbol, whether a request wants more
  than that, and whether it wants more and also something that has been asked for already.
\<close>

definition recorded :: "subscription option \<Rightarrow> u8" where
  "recorded old = (case old of None \<Rightarrow> 0 | Some b \<Rightarrow> sub_type b)"

definition wanted :: "u8 \<Rightarrow> subscription option \<Rightarrow> bool" where
  "wanted ty old \<longleftrightarrow> old = None \<or> ty AND NOT (recorded old) \<noteq> 0"

definition partly :: "u8 \<Rightarrow> subscription option \<Rightarrow> bool" where
  "partly ty old \<longleftrightarrow> ty AND NOT (recorded old) \<noteq> 0 \<and> ty AND recorded old \<noteq> 0"

definition subscribers :: "subscription option \<Rightarrow> u64 set" where
  "subscribers old = (case old of None \<Rightarrow> {} | Some b \<Rightarrow> sub_clients b)"

lemma mask_cases:
  fixes ty r :: u8
  shows "ty AND NOT r = 0 \<Longrightarrow> r OR ty = r" and "ty AND NOT r = 0 \<Longrightarrow> r AND ty = ty"
    and "r AND ty = 0 \<Longrightarrow> ty AND NOT r = ty"
  by (auto simp: bit_eq_iff bit_simps)

text \<open>What the test of the code amounts to.\<close>

lemma entry_meaning:
  assumes "ty \<noteq> 0"
  shows "abs_subscribe q ty old = \<lparr>sub_type = (if partly ty old then recorded old else recorded old OR ty),
      sub_clients = insert q (subscribers old)\<rparr>"
    and "new_upstream ty old \<longleftrightarrow> wanted ty old \<and> \<not> partly ty old"
proof -
  note m = mask_cases(1,2) [of ty "recorded old"] mask_cases(3) [of "recorded old" ty]
  have c: "ty AND recorded old = recorded old AND ty" by (rule and.commute)
  show "abs_subscribe q ty old = \<lparr>sub_type = (if partly ty old then recorded old else recorded old OR ty),
      sub_clients = insert q (subscribers old)\<rparr>"
    using m assms c by (cases old) (auto simp: abs_subscribe_def partly_def recorded_def subscribers_def)
  show "new_upstream ty old \<longleftrightarrow> wanted ty old \<and> \<not> partly ty old"
    using m assms c by (cases old) (auto simp: new_upstream_def wanted_def partly_def recorded_def)
qed

lemma one_kind: "ty = sub_Quotes \<or> ty = sub_Trades \<Longrightarrow> \<not> partly ty old"
proof
  assume ty: "ty = sub_Quotes \<or> ty = sub_Trades" and p: "partly ty old"
  from ty obtain n where n: "ty = push_bit n 1" "n < 8"
  proof
    assume "ty = sub_Quotes"
    then show ?thesis using that [of 0] by (simp add: sub_Quotes_def)
  next
    assume "ty = sub_Trades"
    then show ?thesis using that [of 1] by (simp add: sub_Trades_def)
  qed
  have "x AND ty = 0 \<or> ty AND NOT x = 0" for x :: u8
  proof (cases "bit x n")
    case True
    then have "ty AND NOT x = 0" by (intro bit_word_eqI) (auto simp: n bit_simps)
    then show ?thesis ..
  next
    case False
    then have "x AND ty = 0" by (intro bit_word_eqI) (auto simp: n bit_simps)
    then show ?thesis ..
  qed
  with p show False by (metis and.commute partly_def)
qed

text \<open>
  C15: A subscription to a listed connection enters its sender under the symbol and is answered
  \<open>SUCCESS\<close>, with the mark \<open>existing\<close> if the symbol had an entry.  The request goes upstream exactly if it
  wants data that has not been asked for, which is recorded then; so it is for every request for a
  single kind of data, and for every request whose kinds are all new or all there.  But a request for
  several kinds of which only some have been asked for is not sent, and what is missing is not recorded.
\<close>

theorem subscribe_refines:
  assumes "buffer_laws (env s)" and "known s (sender s p)"
    and "um_find (websocketsById s) (sub_id (shm s) p) = Some r"
    and "old = ws_subscriptions (heap s r) (sub_symbol (shm s) p)" and "t = handleSubscribe s p"
    and "ty = sub_req_type (shm s) p" and "ty \<noteq> 0"
  shows "ws_subscriptions (heap t r) = (ws_subscriptions (heap s r))(sub_symbol (shm s) p \<mapsto>
      \<lparr>sub_type = (if partly ty old then recorded old else recorded old OR ty),
       sub_clients = insert (sender s p) (subscribers old)\<rparr>) \<and>
    io t = io s @ (if wanted ty old \<and> \<not> partly ty old
      then [WriteOp r (ws_w_buffer (heap s r) @ sub_request (shm s) p)] else []) \<and>
    (ty = sub_Quotes \<or> ty = sub_Trades \<longrightarrow> \<not> partly ty old) \<and>
    msg_status (shm t) p = status_code SUCCESS \<and>
    load_u8 (shm t) (fld WsSubscription_layout ''existing'' p) =
      (if old = None then load_u8 (shm s) (fld WsSubscription_layout ''existing'' p) else 1) \<and>
    conns t = conns s"
  using subscribe_effect [OF assms(1-5)] entry_meaning [OF assms(7)] one_kind [of ty old]
  by (simp add: assms(6))

text \<open>A subscription request of client 8 on connection 30001, for the examples.\<close>

definition sub_demo :: "u64 \<Rightarrow> u8 \<Rightarrow> mem" where
  "sub_demo q ty = store_u8 (store_u64 (store (set_pid zero_mem 0 q) 10 ''AAPL'') 266 30001) 279 ty"

lemma sub_demo_fields [simp]:
  "msg_pid (sub_demo q ty) 0 = q" "sub_id (sub_demo q ty) 0 = 30001" "sub_req_type (sub_demo q ty) 0 = ty"
  "sub_symbol (sub_demo q ty) 0 = ''AAPL''" "sub_request (sub_demo q ty) 0 = []"
proof -
  show "msg_pid (sub_demo q ty) 0 = q" "sub_id (sub_demo q ty) 0 = 30001" "sub_req_type (sub_demo q ty) 0 = ty"
    by (simp_all add: sub_demo_def sub_id_def sub_req_type_def layout)
  have "load_u32 zero_mem a = 0" for a by (simp add: load_u32_def load_zero_mem numeral_eq_Suc)
  then show "sub_request (sub_demo q ty) 0 = []"
    by (simp add: sub_request_def sub_demo_def layout)
  have "load (set_pid zero_mem 0 q) 10 256 = replicate 256 (CHR 0x00)"
    by (simp add: set_pid_def store_u64_def load_store_disjoint load_zero_mem layout_defs)
  then have "load_cstr (store (set_pid zero_mem 0 q) 10 ''AAPL'') 10 256 = ''AAPL''"
    by (rule load_cstr_store_zero [rotated 2]) (simp_all add: nul_free_def)
  then show "sub_symbol (sub_demo q ty) 0 = ''AAPL''"
    by (simp add: sub_symbol_def sub_demo_def layout)
qed

lemma sub_demo_state [simp]: "tables_ok (demo_state\<lparr>shm := m\<rparr>)" "conns (demo_state\<lparr>shm := m\<rparr>) = [30001 \<mapsto> {7}]"
  using tables_ok_cong [of "demo_state\<lparr>shm := m\<rparr>" demo_state] conns_cong [of "demo_state\<lparr>shm := m\<rparr>" demo_state]
  by simp_all

theorem subscribe_refines_witness:
  "io (handleSubscribe (demo_state\<lparr>shm := sub_demo 8 1\<rparr>) 0) = [WriteOp 0 []] \<and>
   msg_status (shm (handleSubscribe (demo_state\<lparr>shm := sub_demo 8 1\<rparr>) 0)) 0 = 1"
  using subscribe_refines [of "demo_state\<lparr>shm := sub_demo 8 1\<rparr>" 0 0 None "handleSubscribe (demo_state\<lparr>shm := sub_demo 8 1\<rparr>) 0"]
  by (simp add: wanted_def partly_def recorded_def)

text \<open>
  A subscription that cannot be carried out, because its sender is not registered or its
  connection is not listed, is answered \<open>FAILED\<close>, and neither tables nor network are touched.
\<close>

theorem subscribe_refused:
  assumes "\<not> known s (sender s p) \<or> um_find (websocketsById s) (sub_id (shm s) p) = None"
    and "t = handleSubscribe s p"
  shows "msg_status (shm t) p = status_code FAILED \<and> io t = io s \<and> heap t = heap s \<and> conns t = conns s \<and>
    trace t = trace s"
proof -
  have "trace (snd (getClient s q)) = trace s" for q
    by (simp add: getClient_def tick_def split: option.split)
  then show ?thesis
    using conns_handleSubscribe [of s p]
    by (simp add: assms(2) subscribe_failed [OF assms(1)] reply_def upd_shm_def)
qed

theorem subscribe_refused_example:
  "msg_status (shm (handleSubscribe (demo_state\<lparr>shm := sub_demo 9 1\<rparr>) 0)) 0 = 2"
  using subscribe_refused [of "demo_state\<lparr>shm := sub_demo 9 1\<rparr>" 0, OF _ refl] by simp

text \<open>
  C16: An unsubscription takes exactly its sender out of the symbol's entry.  The entry disappears
  and the request goes upstream exactly when nobody else is left; the answer is \<open>SUCCESS\<close>.
\<close>

theorem unsubscribe_refines:
  assumes "buffer_laws (env s)" and "known s (sender s p)"
    and "um_find (websocketsById s) (sub_id (shm s) p) = Some r"
    and "ws_subscriptions (heap s r) (sub_symbol (shm s) p) = Some old" and "t = handleUnsubscribe s p"
    and "left = sub_clients old - {sender s p}"
  shows "ws_subscriptions (heap t r) = (ws_subscriptions (heap s r))(sub_symbol (shm s) p :=
      (if left = {} then None else Some (old\<lparr>sub_clients := left\<rparr>))) \<and>
    io t = io s @ (if left = {}
      then [WriteOp r (ws_w_buffer (heap s r) @ sub_request (shm s) p)] else []) \<and>
    msg_status (shm t) p = status_code SUCCESS \<and> conns t = conns s"
proof -
  have n: "fm_find (ws_subscriptions (heap s r)) (sub_symbol (shm s) p) = Some old"
    using assms(4) by (simp add: fm_find_def)
  have c: "conns t = conns s" unfolding assms(5) by (rule conns_handleUnsubscribe)
  show ?thesis
    using assms(1,6) c unfolding assms(5) unsubscribe_some [OF assms(2,3) n]
    by (simp add: io_send heap_send fm_assign_def fm_erase_def)
qed

definition demo_subscribed :: "u64 set \<Rightarrow> mem \<Rightarrow> proxy" where
  "demo_subscribed S m = demo_state\<lparr>shm := m, heap := (\<lambda>_. no_websocket)(0 := demo_ws\<lparr>
     ws_clients := {7, 8}, ws_subscriptions := [''AAPL'' \<mapsto> \<lparr>sub_type = sub_Quotes, sub_clients = S\<rparr>]\<rparr>)\<rparr>"

lemma demo_subscribed_fields [simp]:
  "env (demo_subscribed S m) = demo_env" "shm (demo_subscribed S m) = m"
  "clients (demo_subscribed S m) = clients demo_state" "io (demo_subscribed S m) = []"
  "websocketsById (demo_subscribed S m) = [(30001, 0)]"
  "heap (demo_subscribed S m) 0 = demo_ws\<lparr>ws_clients := {7, 8},
     ws_subscriptions := [''AAPL'' \<mapsto> \<lparr>sub_type = sub_Quotes, sub_clients = S\<rparr>]\<rparr>"
  by (simp_all add: demo_subscribed_def)

theorem unsubscribe_refines_witness:
  "io (handleUnsubscribe (demo_subscribed {8} (sub_demo 8 1)) 0) = [WriteOp 0 []] \<and>
   io (handleUnsubscribe (demo_subscribed {7, 8} (sub_demo 8 1)) 0) = []"
proof -
  have "{7} = {7, 8} - {8 :: u64}" by auto
  then show ?thesis
    using unsubscribe_refines [of "demo_subscribed {8} (sub_demo 8 1)" 0 0 _ _ "{}", OF _ _ _ _ refl]
    unsubscribe_refines [of "demo_subscribed {7, 8} (sub_demo 8 1)" 0 0 _ _ "{7}", OF _ _ _ _ refl]
    by simp
qed

section \<open>Subscribers that are gone\<close>

text \<open>Unregistering a client does not take it out of the subscriptions.\<close>

lemma unregister_subscriptions:
  assumes "byId_ok s"
  shows "ws_subscriptions (heap (unregisterClient s q) r) = ws_subscriptions (heap s r)"
  by (simp add: unregister_drop drop_client_tables [OF assms] without_def)

lemma unregister_lookup:
  assumes "tables_ok s" and "um_find (websocketsById s) i = Some r" and "ws_clients (heap s r) \<noteq> {q}"
  shows "um_find (websocketsById (unregisterClient s q)) i = Some r"
proof -
  have b: "byId_ok s" using assms(1) by (simp add: tables_ok_def)
  have "\<not> ws_clients (heap s r) \<subseteq> {q}"
    using byId_okD(3) [OF b assms(2)] assms(3) by auto
  then show ?thesis
    using assms(2) by (simp add: unregister_drop drop_client_tables [OF b])
qed

lemma unregister_clients:
  "um_ok (clients s) \<Longrightarrow> x \<noteq> q \<Longrightarrow> um_find (clients (unregisterClient s q)) x = um_find (clients s) x"
  by (simp add: unregister_drop um.lookup_remove)

text \<open>
  C26: A subscriber that has gone keeps a subscription alive.  After client \<open>q\<close> has been
  unregistered, an unsubscription by any other client of a symbol \<open>q\<close> had subscribed to never goes
  upstream: the entry stays, with \<open>q\<close> in it.
\<close>

theorem gone_subscriber_stays:
  assumes "tables_ok s" and "um_find (websocketsById s) (sub_id m p) = Some r"
    and "ws_subscriptions (heap s r) (sub_symbol m p) = Some sub" and "q \<in> sub_clients sub"
    and "ws_clients (heap s r) \<noteq> {q}" and "msg_pid m p \<noteq> q"
    and "u = (unregisterClient s q)\<lparr>shm := m\<rparr>" and "v = handleUnsubscribe u p"
  shows "io v = io u \<and>
    (\<exists>sub'. ws_subscriptions (heap v r) (sub_symbol m p) = Some sub' \<and> q \<in> sub_clients sub')"
proof (cases "known u (sender u p)")
  case False
  then have "v = reply p SUCCESS (stamped u p)"
    using assms(8) by (simp add: unsubscribe_nothing)
  then show ?thesis
    using assms(1,3,4,7) by (simp add: unregister_subscriptions tables_ok_def)
next
  case True
  have f: "um_find (websocketsById u) (sub_id (shm u) p) = Some r"
    "fm_find (ws_subscriptions (heap u r)) (sub_symbol (shm u) p) = Some sub"
    using unregister_lookup [OF assms(1,2,5)] assms(1,3,7)
    by (simp_all add: unregister_subscriptions tables_ok_def fm_find_def)
  have "sub_clients sub - {sender u p} \<noteq> {}" using assms(4,6,7) by auto
  then have "v = reply p SUCCESS (upd_subs r (\<lambda>m. fm_assign m (sub_symbol (shm u) p)
      (sub\<lparr>sub_clients := sub_clients sub - {sender u p}\<rparr>)) (stamped u p))"
    by (simp add: assms(8) unsubscribe_some [OF True f])
  then show ?thesis
    using assms(4,6,7) by (simp add: fm_assign_def)
qed

lemma tables_ok_demo_subscribed: "S \<noteq> {} \<Longrightarrow> tables_ok (demo_subscribed S m)"
  by (auto simp: demo_subscribed_def tables_ok_defs um_ok_def fm_find_def subs_kept_def no_websocket_def
      split: if_splits)

theorem gone_subscriber_stays_witness:
  "io (handleUnsubscribe ((unregisterClient (demo_subscribed {7, 8} zero_mem) 7)\<lparr>shm := sub_demo 8 1\<rparr>) 0) =
   io ((unregisterClient (demo_subscribed {7, 8} zero_mem) 7)\<lparr>shm := sub_demo 8 1\<rparr>)"
  using gone_subscriber_stays [of "demo_subscribed {7, 8} zero_mem" "sub_demo 8 1" 0 0 _ 7, OF _ _ _ _ _ _ refl refl]
  by (simp add: tables_ok_demo_subscribed insert_ident)

section \<open>Requests that are passed on\<close>

definition request_data :: "mem \<Rightarrow> nat \<Rightarrow> string" where
  "request_data m p = load m (fld WsRequest_layout ''data'' p)
     (unat (load_u32 m (fld WsRequest_layout ''len'' p)))"

definition request_id :: "mem \<Rightarrow> nat \<Rightarrow> u64" where
  "request_id m p = load_u64 m (fld WsRequest_layout ''id'' p)"

lemma trace_getClient [simp]: "trace (snd (getClient s q)) = trace s"
  by (simp add: getClient_def tick_def split: option.split)

lemma io_trace_onWsError [simp]: "io (onWsError s i e len) = io s"
  by (simp add: onWsError_def Let_def send_defs upd_defs)

text \<open>
  A request is passed on or refused, never both.  From a registered sender to a listed connection
  its payload is written behind what is still unwritten, and the answer is \<open>SUCCESS\<close>; otherwise
  nothing is written, one error message is published, and the answer is \<open>FAILED\<close>.
\<close>

theorem request_passed_on:
  assumes "buffer_laws (env s)" and "t = sendWsRequest s p"
  shows "case um_find (websocketsById s) (request_id (shm s) p) of
      Some r \<Rightarrow> if known s (sender s p)
        then io t = io s @ [WriteOp r (ws_w_buffer (heap s r) @ request_data (shm s) p)] \<and>
          msg_status (shm t) p = status_code SUCCESS \<and> length (trace t) = Suc (length (trace s))
        else io t = io s \<and> msg_status (shm t) p = status_code FAILED \<and>
          (\<exists>bs. trace t = trace s @ [Publish bs])
    | None \<Rightarrow> io t = io s \<and> msg_status (shm t) p = status_code FAILED \<and>
        (\<exists>bs. trace t = trace s @ [Publish bs])"
  using assms(1)
  by (simp add: assms(2) sendWsRequest_def split_beta Let_def request_id_def request_data_def io_send
      websocket_send_def onWsError_def buffer_laws_def reply_def upd_shm_def split: option.split)

theorem request_passed_on_example:
  "msg_status (shm (sendWsRequest (demo_state\<lparr>shm := set_pid zero_mem 0 9\<rparr>) 0)) 0 = 2"
proof -
  have "load_u64 zero_mem a = 0" for a by (simp add: load_u64_def load_zero_mem numeral_eq_Suc)
  then have "request_id (set_pid zero_mem 0 9) 0 = 0" by (simp add: request_id_def layout)
  then show ?thesis
    using request_passed_on [of "demo_state\<lparr>shm := set_pid zero_mem 0 9\<rparr>" _ 0, OF _ refl] by simp
qed

end
