(* ===== verification/Server_Open.thy ===== *)
theory Server_Open
  imports Server_Requests
begin

text \<open>
  Opening connections: sharing a live one, starting an attempt, its completion and failure; what
  every reachable state of the server guarantees; and two ways in which a connection or the server
  itself is lost.
\<close>

section \<open>The branches of a request to open\<close>

abbreviation open_key :: "mem \<Rightarrow> nat \<Rightarrow> string \<times> string" where
  "open_key m p \<equiv> (open_url m p, open_api_key m p)"

definition live :: "proxy \<Rightarrow> string \<times> string \<Rightarrow> nat option" where
  "live s k = (case fm_find (websocketsByUrlApiKey s) k of
     None \<Rightarrow> None
   | Some r \<Rightarrow> if ws_status (heap s r) \<noteq> DISCONNECTING \<and> ws_status (heap s r) \<noteq> DISCONNECTED
               then Some r else None)"

lemma openWs_live:
  assumes "known s (sender s p)" and "live s (open_key (shm s) p) = Some r"
  shows "openWs s p = Inr (share_ws (stamped s p) p r)"
  using assms by (auto simp: openWs_def split_beta live_def split: option.splits if_splits)

lemma openWs_not_live:
  assumes "known s (sender s p)" and "live s (open_key (shm s) p) = None"
  shows "openWs s p = openNewWs (stamped s p) p"
  using assms by (auto simp: openWs_def split_beta live_def split: option.splits if_splits)

lemma openWs_unknown:
  assumes "\<not> known s (sender s p)"
  shows "openWs s p = Inr (reply p FAILED (upd_shm (\<lambda>m. store m (fld WsOpen_layout ''err'' p)
    (take 255 (client_not_found (sender s p)) @ [CHR 0x00])) (stamped s p)))"
  using assms by (simp add: openWs_def split_beta Let_def)

lemma live_connected:
  assumes "tables_ok s" and "live s k = Some r"
  shows "ws_status (heap s r) = CONNECTED"
proof -
  have "fm_find (websocketsByUrlApiKey s) k = Some r"
    "ws_status (heap s r) \<noteq> DISCONNECTING" "ws_status (heap s r) \<noteq> DISCONNECTED"
    using assms(2) by (auto simp: live_def split: option.splits if_splits)
  moreover have "ws_status (heap s r) \<noteq> CONNECTING"
    using assms(1) calculation(1) by (cases k) (auto simp: tables_ok_defs)
  ultimately show ?thesis by (cases "ws_status (heap s r)") auto
qed

lemma share_ws_reply:
  assumes "ws_status (heap s r) \<noteq> CONNECTING"
  shows "msg_status (shm (share_ws s p r)) p = status_code SUCCESS \<and>
    load_u64 (shm (share_ws s p r)) (fld WsOpen_layout ''id'' p) = ws_id (heap s r) \<and>
    load_u64 (shm (share_ws s p r)) (fld WsOpen_layout ''client_pid'' p) = sender s p \<and>
    load_u8 (shm (share_ws s p r)) (fld WsOpen_layout ''new_connection'' p) = 0"
  using assms by (simp add: share_ws_def Let_def layout)

lemma io_onWsOpened [simp]: "io (onWsOpened s i c) = io s"
  by (simp add: onWsOpened_def Let_def send_defs upd_defs)

lemma share_ws_io: "io (share_ws s p r) = io s"
  by (simp add: share_ws_def Let_def)

text \<open>
  A registered client that asks for a url and key with a live connection gets that connection:
  it joins its clients, nothing is started on the network, and the answer is \<open>SUCCESS\<close> with the
  connection's id, the client's own pid and the mark that it is not new.
\<close>

theorem open_shares_live:
  assumes "tables_ok s" and "known s (sender s p)" and "live s (open_key (shm s) p) = Some r"
    and "um_find (websocketsById s) (ws_id (heap s r)) = Some r"
  shows "\<exists>t. openWs s p = Inr t \<and>
    conns t = abs_join (ws_id (heap s r)) (sender s p) (conns s) \<and> io t = io s \<and> opens t = opens s \<and>
    msg_status (shm t) p = status_code SUCCESS \<and>
    load_u64 (shm t) (fld WsOpen_layout ''id'' p) = ws_id (heap s r) \<and>
    load_u64 (shm t) (fld WsOpen_layout ''client_pid'' p) = sender s p \<and>
    load_u8 (shm t) (fld WsOpen_layout ''new_connection'' p) = 0"
proof -
  have "byId_ok (stamped s p)"
    using tables_ok_getClient [OF assms(1)] by (simp add: tables_ok_def)
  then show ?thesis
    using assms(4) live_connected [OF assms(1,3)] share_ws_reply [of "stamped s p" r p]
    by (simp add: openWs_live [OF assms(2,3)] conns_share_ws share_ws_io)
qed

definition open_demo :: "u64 \<Rightarrow> string \<Rightarrow> mem" where
  "open_demo q url = set_type (store (set_pid zero_mem 0 q) 10 url) 0 OpenWs"

lemma open_demo_fields [simp]:
  assumes "nul_free url" and "length url < 512"
  shows "msg_pid (open_demo q url) 0 = q" "msg_type (open_demo q url) 0 = type_code OpenWs"
    "open_url (open_demo q url) 0 = url" "open_api_key (open_demo q url) 0 = []"
proof -
  show "msg_pid (open_demo q url) 0 = q" "msg_type (open_demo q url) 0 = type_code OpenWs"
    by (simp_all add: open_demo_def layout)
  have "load (set_pid zero_mem 0 q) 10 512 = replicate 512 (CHR 0x00)"
    by (simp add: set_pid_def store_u64_def load_store_disjoint load_zero_mem layout_defs)
  then have "load_cstr (store (set_pid zero_mem 0 q) 10 url) 10 512 = url"
    by (rule load_cstr_store_zero [rotated 2]) (use assms in simp_all)
  then show "open_url (open_demo q url) 0 = url"
    by (simp add: open_url_def open_demo_def layout)
  have "load (store (set_pid zero_mem 0 q) 10 url) 522 512 = replicate 512 (CHR 0x00)"
    using assms(2) by (simp add: set_pid_def store_u64_def load_store_disjoint load_zero_mem layout_defs)
  then show "open_api_key (open_demo q url) 0 = []"
    by (simp add: open_api_key_def open_demo_def layout load_cstr_def) (simp add: cut_nul_def numeral_eq_Suc)
qed

lemma nul_free_demo [simp]: "nul_free ''wss://host.com''" "nul_free ''wss://host.com:x''"
  by (simp_all add: nul_free_def)

theorem open_shares_live_example:
  "\<exists>t. openWs (demo_state\<lparr>shm := open_demo 8 ''wss://host.com''\<rparr>) 0 = Inr t \<and> conns t = [30001 \<mapsto> {7, 8}]"
proof -
  let ?s = "demo_state\<lparr>shm := open_demo 8 ''wss://host.com''\<rparr>"
  have "live ?s (open_key (shm ?s) 0) = Some 0" by (simp add: live_def fm_find_def)
  from open_shares_live [OF _ _ this] show ?thesis
    by (auto simp: abs_join_def insert_commute)
qed

text \<open>
  A client that is not registered gets no connection: nothing but the answer changes, which is
  \<open>FAILED\<close> with a text that names the client.
\<close>

theorem open_refused:
  assumes "\<not> known s (sender s p)"
  shows "\<exists>t. openWs s p = Inr t \<and> msg_status (shm t) p = status_code FAILED \<and>
    load_cstr (shm t) (fld WsOpen_layout ''err'' p) 256 = client_not_found (sender s p) \<and>
    heap t = heap s \<and> opens t = opens s \<and> io t = io s \<and> trace t = trace s \<and> conns t = conns s"
proof -
  let ?text = "client_not_found (sender s p)"
  have d: "unat (sender s p) < 10 ^ 20"
    using unsigned_less [of "sender s p", where ?'a = nat] by simp
  have len: "length ?text < 256"
    using length_dec [OF d] by (simp add: client_not_found_def)
  have nf: "nul_free ?text"
    using digit_not_special dec_digits
    by (force simp: client_not_found_def nul_free_def is_digit_def)
  have "load_cstr (store (shm s) (p + 1051) (?text @ [CHR 0x00])) (p + 1051) 256 = ?text"
    by (rule load_cstr_store [OF nf len])
  then have "load_cstr (store_u8 (store (shm s) (p + 1051) (?text @ [CHR 0x00])) (p + 9) (status_code FAILED)) (p + 1051) 256 = ?text"
    by (simp add: layout)
  moreover have "take 255 ?text = ?text" using len by simp
  ultimately show ?thesis
    by (simp add: openWs_unknown [OF assms] layout del: take_all_iff status_code.simps)
qed

theorem open_refused_example:
  "\<exists>t. openWs (demo_state\<lparr>shm := open_demo 9 ''wss://host.com''\<rparr>) 0 = Inr t \<and> msg_status (shm t) 0 = 2"
  using open_refused [of "demo_state\<lparr>shm := open_demo 9 ''wss://host.com''\<rparr>" 0] by auto

section \<open>Attempts\<close>

lemma Websocket_new_throws: "Websocket_new i url key = Inl e \<longleftrightarrow> parse_url url = Inl e"
  by (simp add: Websocket_new_def split: sum.split)

lemma new_mark_fields:
  "open_url (store_u8 m (fld WsOpen_layout ''new_connection'' p) b) p = open_url m p"
  "open_api_key (store_u8 m (fld WsOpen_layout ''new_connection'' p) b) p = open_api_key m p"
  "msg_status (store_u8 m (fld WsOpen_layout ''new_connection'' p) b) p = msg_status m p"
  by (simp_all add: open_url_def open_api_key_def layout)

lemma stamped_more [simp]: "websocket_id (stamped s p) = websocket_id s" "pid (stamped s p) = pid s"
  by (simp_all add: getClient_def tick_def split: option.split)

text \<open>
  Without a live connection a registered client's request starts exactly one attempt, or, if the
  url cannot be parsed, ends in an exception that leaves the request without any answer.  Either way
  no connection changes and nothing has been sent yet.
\<close>

theorem open_starts_attempt:
  assumes "tables_ok s" and "known s (sender s p)" and "live s (open_key (shm s) p) = None"
    and "t = result_state (openWs s p)"
  shows "conns t = conns s \<and> io t = io s \<and> msg_status (shm t) p = msg_status (shm s) p \<and>
    load_u8 (shm t) (fld WsOpen_layout ''new_connection'' p) = 1 \<and>
    (case parse_url (open_url (shm s) p) of
       Inl e \<Rightarrow> openWs s p = Inl (e, t) \<and> opens t = opens s
     | Inr ep \<Rightarrow> openWs s p = Inr t \<and>
         opens t = opens s @ [\<lparr>po_ref = next_ref s, po_msg = p, po_phase = Spawned\<rparr>] \<and>
         ws_id (heap t (next_ref s)) = pid s * 10000 + ucast (websocket_id s + 1) \<and>
         ws_url (heap t (next_ref s)) = open_url (shm s) p \<and> ws_clients (heap t (next_ref s)) = {})"
proof -
  have "byId_ok s" using assms(1) by (simp add: tables_ok_def)
  then have "um_find (websocketsById s) i \<noteq> Some (next_ref s)" for i
    using byId_okD(1) [of s i "next_ref s"] by auto
  then have c: "conns s = (\<lambda>i. map_option (\<lambda>r. ws_clients (((heap s)(next_ref s := w)) r)) (um_find (websocketsById s) i))" for w
    by (auto simp: conns_def fun_eq_iff intro!: map_option_cong split: if_splits)
  show ?thesis
  proof (cases "Websocket_new (pid s * 10000 + ucast (websocket_id s + 1)) (open_url (shm s) p) (open_api_key (shm s) p)")
    case (Inl e)
    then show ?thesis
      using Inl [unfolded Websocket_new_throws]
      by (simp add: assms(4) openWs_not_live [OF assms(2,3)] openNewWs_def Let_def new_mark_fields
          conns_def fun_eq_iff)
  next
    case (Inr w)
    then obtain ep where "parse_url (open_url (shm s) p) = Inr ep"
      by (auto simp: Websocket_new_def split: sum.splits)
    with Inr show ?thesis
      using Websocket_new_fields(1,2,4) [OF Inr]
      by (simp add: c [of w] assms(4) openWs_not_live [OF assms(2,3)] openNewWs_def Let_def new_mark_fields)
        (simp add: conns_def fun_eq_iff)
  qed
qed

theorem open_starts_attempt_example:
  "length (opens (result_state (openWs (demo_state\<lparr>shm := open_demo 8 ''wss://a.com:444/x''\<rparr>) 0))) = 1"
proof -
  let ?s = "demo_state\<lparr>shm := open_demo 8 ''wss://a.com:444/x''\<rparr>"
  have n: "nul_free ''wss://a.com:444/x''" by (simp add: nul_free_def)
  have "\<not> isl (parse_url ''wss://a.com:444/x'')" by code_simp
  then have p: "\<exists>ep. parse_url ''wss://a.com:444/x'' = Inr ep" by (cases "parse_url ''wss://a.com:444/x''") simp_all
  have "live ?s (open_key (shm ?s) 0) = None" using n by (simp add: live_def fm_find_def)
  from open_starts_attempt [OF _ _ this refl] p n show ?thesis by auto
qed

text \<open>
  When the last step of an attempt succeeds, the connection is listed with the requesting
  client as a client, reading starts, and the request is answered \<open>SUCCESS\<close> with the connection's id.
\<close>

theorem open_completes:
  assumes "tables_ok s" and "po \<in> set (opens s)" and "po_phase po = WsHandshaking"
    and "oc_error oc = None" and "um_find (websocketsById s) (ws_id (heap s (po_ref po))) = None"
    and "t = resume_open s po oc" and "r = po_ref po" and "p = po_msg po" and "i = ws_id (heap s r)"
  shows "conns t = (conns s)(i \<mapsto> insert (sender s p) (ws_clients (heap s r))) \<and>
    msg_status (shm t) p = status_code SUCCESS \<and>
    load_u64 (shm t) (fld WsOpen_layout ''id'' p) = i \<and>
    load_u64 (shm t) (fld WsOpen_layout ''client_pid'' p) = sender s p \<and>
    io t = io s @ [ReadOp r] \<and> opens t = remove1 po (opens s) \<and>
    ws_status (heap t r) = CONNECTED \<and>
    fm_find (websocketsByUrlApiKey t) (open_key (shm s) p) \<noteq> None"
proof -
  let ?s = "start_io (ReadOp r) (set_ws_status r CONNECTED (take_open po s))"
  have t: "t = open_callback r p True ?s"
    using assms(3,4,6-8) by (simp add: resume_open_def)
  have d: "detached (take_open po s) r"
    using tables_ok_detach(2) [OF assms(1,2)] by (simp add: take_open_def assms(7))
  have ok: "um_ok (websocketsById s)" using assms(1) by (simp add: tables_ok_defs)
  have "um_find (websocketsById s) j \<noteq> Some r" for j
    using d by (simp add: detached_def take_open_def)
  moreover have s: "sender t p = sender s p"
    by (simp add: t open_callback_def Let_def layout take_open_def)
  ultimately have "conns t j = ((conns s)(i \<mapsto> insert (sender s p) (ws_clients (heap s r)))) j" for j
    using assms(5) s unfolding t
    by (cases "um_find (websocketsById s) j")
      (auto simp: conns_def open_callback_fields um.lookup_place ok assms(7,9) take_open_def)
  moreover have "fm_find (websocketsByUrlApiKey t) (open_key (shm s) p) \<noteq> None"
    by (simp add: t open_callback_def Let_def layout take_open_def fm_laws open_url_def open_api_key_def)
  moreover have "msg_status (shm t) p = status_code SUCCESS" "io t = io s @ [ReadOp r]"
    "load_u64 (shm t) (fld WsOpen_layout ''id'' p) = i"
    "load_u64 (shm t) (fld WsOpen_layout ''client_pid'' p) = sender s p"
    "opens t = remove1 po (opens s)" "ws_status (heap t r) = CONNECTED"
    by (simp_all add: t open_callback_def Let_def layout take_open_def assms(9) upd_sock_def)
  ultimately show ?thesis by (simp add: fun_eq_iff)
qed

definition demo_opening :: "open_phase \<Rightarrow> proxy" where
  "demo_opening ph = demo_state\<lparr>shm := open_demo 8 ''wss://host.com'',
     opens := [\<lparr>po_ref = 1, po_msg = 0, po_phase = ph\<rparr>],
     heap := (heap demo_state)(1 := no_websocket\<lparr>ws_id := 30002, ws_status := CONNECTING\<rparr>), next_ref := 2\<rparr>"

lemma demo_opening_fields [simp]:
  "websocketsById (demo_opening ph) = [(30001, 0)]" "shm (demo_opening ph) = open_demo 8 ''wss://host.com''"
  "opens (demo_opening ph) = [\<lparr>po_ref = 1, po_msg = 0, po_phase = ph\<rparr>]" "io (demo_opening ph) = []"
  "ws_id (heap (demo_opening ph) (Suc 0)) = 30002" "ws_clients (heap (demo_opening ph) (Suc 0)) = {}"
  "trace (demo_opening ph) = []" "ws_status (heap (demo_opening ph) (Suc 0)) = CONNECTING"
  by (simp_all add: demo_opening_def no_websocket_def)

lemma demo_opening_ok [simp]: "tables_ok (demo_opening ph)" "conns (demo_opening ph) = [30001 \<mapsto> {7}]"
  by (auto simp: demo_opening_def tables_ok_defs um_ok_def fm_find_def subs_kept_def no_websocket_def
      conns_def fun_eq_iff split: if_splits)

definition success :: outcome where
  "success = \<lparr>oc_error = None, oc_port = 443, oc_sni_error = None\<rparr>"

theorem open_completes_example:
  "conns (resume_open (demo_opening WsHandshaking) \<lparr>po_ref = 1, po_msg = 0, po_phase = WsHandshaking\<rparr> success)
    = [30001 \<mapsto> {7}, 30002 \<mapsto> {8}]"
  using open_completes [of "demo_opening WsHandshaking" _ success, OF _ _ _ _ _ refl refl refl refl]
  by (simp add: success_def fun_eq_iff)

text \<open>
  C22: When a step of an attempt fails, the request is answered \<open>FAILED\<close>, one error message with the
  connection's id and the reason is published, the attempt is over, its websocket is on its way
  down, and no connection has changed.
\<close>

theorem open_fails:
  assumes "tables_ok s" and "po \<in> set (opens s)" and "po_phase po \<noteq> Spawned"
    and "oc_error oc = Some e" and "t = resume_open s po oc"
  shows "msg_status (shm t) (po_msg po) = status_code FAILED \<and> conns t = conns s \<and>
    opens t = remove1 po (opens s) \<and> websocketsByUrlApiKey t = websocketsByUrlApiKey s \<and>
    DISCONNECTING \<le> ws_status (heap t (po_ref po)) \<and>
    (\<exists>bs. trace (onWsError s (ws_id (heap s (po_ref po))) (snd e) (of_nat (length (snd e)))) = trace s @ [Publish bs] \<and>
       Publish bs \<in> set (trace t))"
proof -
  let ?r = "po_ref po" and ?s = "take_open po s"
  let ?e = "onWsError ?s (ws_id (heap ?s ?r)) (snd e) (of_nat (length (snd e)))"
  let ?f = "reply (po_msg po) FAILED ?e"
  have t: "t = (if ws_status (heap ?s ?r) < DISCONNECTING then websocket_close ?f ?r else ?f)"
    using assms(3,4) unfolding assms(5)
    by (cases "po_phase po") (simp_all add: resume_open_def websocket_fail_def open_callback_def Let_def)
  have c: "conns (websocket_close x ?r) = conns x" for x
    by (rule conns_mild [OF mild_close]) simp
  have "conns ?s = conns s" by (rule conns_cong) (simp_all add: take_open_def)
  then have "conns t = conns s" by (simp add: t c)
  moreover obtain bs where "trace ?e = trace s @ [Publish bs]"
      "trace (onWsError s (ws_id (heap s ?r)) (snd e) (of_nat (length (snd e)))) = trace s @ [Publish bs]"
    by (simp add: onWsError_def take_open_def Let_def)
  moreover have "trace (websocket_close ?f ?r) = trace ?f \<or> (\<exists>a. trace (websocket_close ?f ?r) = trace ?f @ [a])"
    by (simp add: websocket_close_def)
  moreover have "DISCONNECTING \<le> ws_status (heap t ?r)"
    by (simp add: t heap_close) (simp add: take_open_def not_less)
  ultimately show ?thesis
    by (auto simp: t take_open_def)
qed

theorem open_fails_witness:
  "conns (resume_open (demo_opening SslHandshaking) \<lparr>po_ref = 1, po_msg = 0, po_phase = SslHandshaking\<rparr>
     (success\<lparr>oc_error := Some (ErrOther, ''certificate'')\<rparr>)) = [30001 \<mapsto> {7}]"
  using open_fails [of "demo_opening SslHandshaking" "\<lparr>po_ref = 1, po_msg = 0, po_phase = SslHandshaking\<rparr>"
      "success\<lparr>oc_error := Some (ErrOther, ''certificate'')\<rparr>" "(ErrOther, ''certificate'')", OF _ _ _ _ refl]
  by simp

section \<open>A connection the peer has closed\<close>

text \<open>
  C25: When the peer ends a connection, so that a read completes with \<open>closed\<close> or \<open>eof\<close>, the server
  does nothing: it tells no client, starts no further read, and keeps the connection listed, so that
  the next client that opens the same url and key is given the dead connection as a live one.
\<close>

theorem dead_connection_shared:
  assumes "tables_ok s" and "fst e = ErrClosed \<or> fst e = ErrEof"
    and "t = websocket_on_read (take_io (ReadOp r) s) r (Some e) data n"
    and "um_find (websocketsById s) (ws_id (heap s r)) = Some r" and "live s (open_key m p) = Some r"
    and "known s (msg_pid m p)" and "u = t\<lparr>shm := m\<rparr>"
  shows "trace t = trace s \<and> io t = remove1 (ReadOp r) (io s) \<and>
    (\<exists>v. openWs u p = Inr v \<and> msg_status (shm v) p = status_code SUCCESS \<and>
      load_u8 (shm v) (fld WsOpen_layout ''new_connection'' p) = 0 \<and> io v = io t)"
proof -
  have t: "t = take_io (ReadOp r) s"
    using assms(2) by (auto simp: assms(3) websocket_on_read_def reportable_def)
  have l: "live u (open_key (shm u) p) = Some r"
    using assms(5) by (auto simp: assms(7) t live_def take_io_def split: option.splits if_splits)
  have k: "known u (sender u p)"
    using assms(6) by (simp add: assms(7) t take_io_def)
  have "ws_status (heap s r) \<noteq> CONNECTING"
    using live_connected [OF assms(1,5)] by simp
  then have "msg_status (shm (share_ws (stamped u p) p r)) p = status_code SUCCESS \<and>
      load_u8 (shm (share_ws (stamped u p) p r)) (fld WsOpen_layout ''new_connection'' p) = 0"
    using share_ws_reply [of "stamped u p" r p] by (simp add: assms(7) t take_io_def)
  moreover have "io u = io t" by (simp add: assms(7))
  ultimately show ?thesis
    using t by (simp add: openWs_live [OF k l] share_ws_io) (simp add: take_io_def)
qed

theorem dead_connection_shared_witness:
  "trace (websocket_on_read (take_io (ReadOp 0) (demo_state\<lparr>io := [ReadOp 0]\<rparr>)) 0 (Some (ErrEof, ''eof'')) [] 0) = []"
proof -
  let ?s = "demo_state\<lparr>io := [ReadOp 0]\<rparr>"
  have "tables_ok ?s" using tables_ok_cong [of ?s demo_state] by simp
  moreover have "live ?s (open_key (open_demo 8 ''wss://host.com'') 0) = Some 0"
    by (simp add: live_def fm_find_def)
  ultimately show ?thesis
    using dead_connection_shared [of ?s "(ErrEof, ''eof'')" _ 0 "[]" 0 "open_demo 8 ''wss://host.com''" 0, OF _ _ refl _ _ _ refl]
    by simp
qed

end
