(* ===== verification/Loop_Props.thy ===== *)
theory Loop_Props
  imports Server_Open
begin

text \<open>
  Properties of whole runs of the server's event loop: what holds in every reachable state, and how
  the task that reads the clients' requests can be lost.
\<close>

section \<open>The polling task\<close>

text \<open>How many turns of the polling task are waiting.\<close>

definition polls :: "proxy \<Rightarrow> nat" where
  "polls s = count_list (tasks s) ProcessClientMessage"

lemma polls_mem: "ProcessClientMessage \<in> set (tasks s) \<longleftrightarrow> 0 < polls s"
  using count_list_0_iff [of "tasks s" ProcessClientMessage] by (auto simp: polls_def)

lemma count_list_remove1: "count_list (remove1 x xs) y = count_list xs y - (if x = y then 1 else 0)"
  by (induction xs) auto

lemma polls_simps [simp]:
  "polls (post t s) = polls s + (if t = ProcessClientMessage then 1 else 0)"
  "polls (take_task t s) = polls s - (if t = ProcessClientMessage then 1 else 0)"
  by (simp_all add: polls_def take_defs count_list_remove1)

lemma polls_cong: "tasks s = tasks t \<Longrightarrow> polls s = polls t"
  by (simp add: polls_def)

lemma polls_startHeartbeat: "polls (startHeartbeat s) = polls s"
  by (simp add: startHeartbeat_def Let_def) (simp add: polls_def)

lemma polls_shutdown_task: "polls (shutdown_task s) = polls s"
  by (simp add: shutdown_task_def Let_def) (simp add: polls_def)

lemma tasks_open_callback [simp]: "tasks (open_callback r p b s) = tasks s"
  by (simp add: open_callback_def Let_def)

lemma tasks_fail_callback [simp]: "tasks (websocket_fail s r e (Some (open_callback r' p)) c) = tasks s"
  by (simp add: websocket_fail_def Let_def)

lemma tasks_resume_open: "tasks (resume_open s po oc) = tasks s"
  by (cases "po_phase po")
    (simp_all add: resume_open_def take_open_def Let_def split: option.split)

lemma polls_processClientMessage:
  "polls (result_state (processClientMessage s rd ids)) \<le> polls s + 1"
proof -
  have "tasks (result_state (case rd of Some p \<Rightarrow> handleClientMessage s p | None \<Rightarrow> Inr s)) = tasks s"
    by (simp split: option.split)
  then show ?thesis
    unfolding processClientMessage_result
    by (cases "case rd of Some p \<Rightarrow> handleClientMessage s p | None \<Rightarrow> Inr s")
      (auto simp: Let_def polls_def tick_def)
qed

text \<open>No step adds a turn of the polling task; a turn itself replaces itself by at most one.\<close>

lemma polls_step:
  assumes "loop_step s t"
  shows "polls t \<le> polls s"
  using assms
proof (cases rule: loop_step.cases)
  case (step_poll ids rd)
  have "polls t \<le> polls (take_task ProcessClientMessage s) + 1"
    unfolding step_poll(1) by (rule polls_processClientMessage)
  then show ?thesis using step_poll(2) by (simp add: polls_mem)
next
  case step_first
  have "polls (snd (sendHeartbeat x n)) = polls x" for x n by (rule polls_cong) simp
  then show ?thesis
    using step_first by (simp add: first_heartbeat_task_def polls_startHeartbeat) (simp add: polls_def take_defs)
qed (simp_all add: polls_startHeartbeat [unfolded polls_def] polls_shutdown_task [unfolded polls_def]
    shutdown_def shutdown_timer_task_def tasks_resume_open polls_def take_defs count_list_remove1)

interpretation polling: invariant_system loop_init loop_step "\<lambda>s. polls s \<le> 1"
proof unfold_locales
  fix s t
  show "loop_init s \<Longrightarrow> polls s \<le> 1"
    by (auto simp: loop_init_def run_start_def polls_def)
  show "polls s \<le> 1 \<Longrightarrow> loop_step s t \<Longrightarrow> polls t \<le> 1"
    using polls_step le_trans by blast
qed

lemma polls_lost: "rtranclp loop_step t u \<Longrightarrow> polls t = 0 \<Longrightarrow> polls u = 0"
  by (induction rule: rtranclp_induct) (auto dest: polls_step)

text \<open>A registered client and its first request, for the examples.\<close>

definition demo_start :: proxy where
  "demo_start = run_start (WebsocketProxy_init demo_env 3 (set_pid zero_mem 0 7))"

definition demo_registered :: proxy where
  "demo_registered = result_state (processClientMessage (take_task ProcessClientMessage demo_start) (Some 0) [])"

definition demo_asking :: "string \<Rightarrow> proxy" where
  "demo_asking url = demo_registered\<lparr>shm := open_demo 7 url\<rparr>"

lemma demo_registered_fields:
  "um_find (clients demo_registered) 7 \<noteq> None" "websocketsByUrlApiKey demo_registered = Map.empty"
  "websocketsById demo_registered = []" "opens demo_registered = []" "next_ref demo_registered = 0"
  "ProcessClientMessage \<in> set (tasks demo_registered)" "pid demo_registered = 3"
  "websocket_id demo_registered = 0" "run demo_registered" "shutdown_time demo_registered = 0"
proof -
  have "load_u8 zero_mem a = 0" for a by (simp add: load_u8_def load_zero_mem)
  then have "msg_type (set_pid zero_mem 0 7) 0 = type_code Register" by (simp add: layout)
  then have m: "handleClientMessage x 0 = Inr (handleClientRegistration x 0)"
    if "shm x = set_pid zero_mem 0 7" for x
    using that by (simp add: handleClientMessage_def del: type_code.simps)
  have p: "msg_pid (set_pid zero_mem 0 7) 0 = 7" by (simp add: layout)
  show "um_find (clients demo_registered) 7 \<noteq> None" "websocketsByUrlApiKey demo_registered = Map.empty"
    "websocketsById demo_registered = []" "opens demo_registered = []" "next_ref demo_registered = 0"
    "ProcessClientMessage \<in> set (tasks demo_registered)" "pid demo_registered = 3"
    "websocket_id demo_registered = 0" "run demo_registered" "shutdown_time demo_registered = 0"
    by (simp_all add: demo_registered_def demo_start_def processClientMessage_result run_start_def take_defs
        m p handleClientRegistration_def Let_def um_laws tick_def)
qed

lemma demo_reachable: "reachable demo_start" "reachable demo_registered" "reachable (demo_asking url)"
proof -
  show s: "reachable demo_start"
    by (rule reach_init) (auto simp: loop_init_def demo_start_def)
  show r: "reachable demo_registered"
    unfolding demo_registered_def
    by (rule reach_step [OF s step_poll]) (simp_all add: demo_start_def run_start_def)
  show "reachable (demo_asking url)"
    unfolding demo_asking_def by (rule reach_step [OF r client_write])
qed

lemma demo_asking_fields:
  assumes "nul_free url" and "length url < 512"
  shows "known (demo_asking url) 7" "sender (demo_asking url) 0 = 7" "live (demo_asking url) k = None"
    "open_url (shm (demo_asking url)) 0 = url" "msg_type (shm (demo_asking url)) 0 = type_code OpenWs"
    "ProcessClientMessage \<in> set (tasks (demo_asking url))"
  using demo_registered_fields assms by (simp_all add: demo_asking_def live_def fm_find_def)

text \<open>
  C24: A request to open a url with a malformed port ends the service for good.  The exception leaves
  the handler before the polling task has asked for its next turn, so from then on no request of any
  client is ever read again; the request itself stays unanswered.
\<close>

theorem malformed_port_stops_polling:
  assumes "reachable s" and "ProcessClientMessage \<in> set (tasks s)"
    and "msg_type (shm s) p = type_code OpenWs" and "known s (sender s p)"
    and "live s (open_key (shm s) p) = None" and "parse_url (open_url (shm s) p) = Inl e"
    and "t = result_state (processClientMessage (take_task ProcessClientMessage s) (Some p) ids)"
    and "rtranclp loop_step t u"
  shows "ProcessClientMessage \<notin> set (tasks u) \<and> msg_status (shm t) p = msg_status (shm s) p"
proof -
  let ?s = "take_task ProcessClientMessage s"
  have one: "polls s \<le> 1" using assms(1) by (rule polling.inv_reach)
  have l: "live ?s (open_key (shm ?s) p) = None"
    using assms(5) by (auto simp: live_def take_task_def split: option.splits if_splits)
  have k: "known ?s (sender ?s p)" using assms(4) by (simp add: take_task_def)
  have "Websocket_new i (open_url (shm s) p) key = Inl e" for i key
    using assms(6) by (simp add: Websocket_new_throws)
  then obtain t' where t': "openNewWs (stamped ?s p) p = Inl (e, t')" "tasks t' = tasks ?s"
      "msg_status (shm t') p = msg_status (shm s) p"
    by (auto simp: openNewWs_def Let_def new_mark_fields) (simp add: take_task_def new_mark_fields)
  have "handleClientMessage ?s p = Inl (e, t')"
    using assms(3) t'(1) by (simp add: handleClientMessage_def take_task_def openWs_not_live [OF k l, unfolded take_task_def] del: type_code.simps)
  then have t: "t = t'" by (simp add: assms(7) processClientMessage_def)
  have "polls ?s = 0" using one assms(2) by (simp add: polls_mem)
  then have "polls t = 0" using t t'(2) by (simp add: polls_def)
  from polls_lost [OF assms(8) this] show ?thesis
    using t t'(3) by (simp add: polls_mem)
qed

theorem malformed_port_stops_polling_witness:
  "ProcessClientMessage \<notin> set (tasks (shutdown (result_state (processClientMessage
     (take_task ProcessClientMessage (demo_asking ''wss://host.com:x'')) (Some 0) []))))"
proof -
  have n: "nul_free ''wss://host.com:x''" "length ''wss://host.com:x'' < 512" by simp_all
  have "isl (parse_url ''wss://host.com:x'')" by code_simp
  then obtain e where "parse_url ''wss://host.com:x'' = Inl e" by (auto simp: isl_def)
  then show ?thesis
    using malformed_port_stops_polling [OF demo_reachable(3), of "''wss://host.com:x''" 0 e _ "[]", OF _ _ _ _ _ refl
        r_into_rtranclp [where r = loop_step, OF step_signal]]
      demo_asking_fields [OF n] by simp
qed

section \<open>Attempts that go on\<close>

fun steps_left :: "open_phase \<Rightarrow> nat" where
  "steps_left Spawned = 4"
| "steps_left Resolving = 3"
| "steps_left Connecting = 2"
| "steps_left SslHandshaking = 1"
| "steps_left WsHandshaking = 0"

text \<open>What the attempt of the websocket at \<open>r\<close> leaves alone while it goes on.\<close>

definition others_same :: "nat \<Rightarrow> proxy \<Rightarrow> proxy \<Rightarrow> bool" where
  "others_same r s t \<longleftrightarrow> (\<forall>x. x \<noteq> r \<longrightarrow> heap t x = heap s x) \<and>
     ws_id (heap t r) = ws_id (heap s r) \<and> ws_url (heap t r) = ws_url (heap s r) \<and>
     ws_api_key (heap t r) = ws_api_key (heap s r) \<and>
     (\<forall>po \<in> set (opens s). po_ref po \<noteq> r \<longrightarrow> po \<in> set (opens t)) \<and>
     (\<forall>i. i \<noteq> ws_id (heap s r) \<longrightarrow> um_find (websocketsById t) i = um_find (websocketsById s) i) \<and>
     clients t = clients s"

lemma others_same_trans: "others_same r s t \<Longrightarrow> others_same r t u \<Longrightarrow> others_same r s u"
  unfolding others_same_def by auto

lemma remove1_other: "x \<in> set xs \<Longrightarrow> po_ref x \<noteq> po_ref po \<Longrightarrow> x \<in> set (remove1 po xs)"
  by (induction xs) auto

text \<open>Between \<open>s\<close> and \<open>t\<close> the one message that \<open>onWsOpened\<close> builds is published, and no other.\<close>

definition announced :: "proxy \<Rightarrow> u64 \<Rightarrow> u64 \<Rightarrow> proxy \<Rightarrow> bool" where
  "announced s i q t \<longleftrightarrow>
     (\<exists>u. published u = published s \<and> pid u = pid s \<and> published t = published (onWsOpened u i q))"

lemma attempt_step:
  assumes "po \<in> set (opens s)" and "steps_left (po_phase po) = Suc n"
  shows "\<exists>t ph. loop_step s t \<and> po\<lparr>po_phase := ph\<rparr> \<in> set (opens t) \<and> steps_left ph = n \<and>
    websocketsById t = websocketsById s \<and> ws_id (heap t (po_ref po)) = ws_id (heap s (po_ref po)) \<and>
    others_same (po_ref po) s t \<and> shm t = shm s \<and> pid t = pid s \<and> published t = published s"
proof -
  let ?t = "resume_open s po success"
  have "loop_step s ?t" using assms(1) by (rule step_resume)
  moreover have "websocketsById ?t = websocketsById s \<and> ws_id (heap ?t (po_ref po)) = ws_id (heap s (po_ref po)) \<and>
      others_same (po_ref po) s ?t \<and> shm ?t = shm s \<and> pid ?t = pid s \<and> published ?t = published s \<and>
      (\<exists>ph. po\<lparr>po_phase := ph\<rparr> \<in> set (opens ?t) \<and> steps_left ph = n)"
    using assms(2) by (cases "po_phase po")
      (auto simp: resume_open_def success_def take_open_def Let_def others_same_def remove1_other published_def
        intro: exI [of _ Resolving]
        exI [of _ Connecting] exI [of _ SslHandshaking] exI [of _ WsHandshaking])
  ultimately show ?thesis by blast
qed

lemma attempt_last:
  assumes "po \<in> set (opens s)" and "steps_left (po_phase po) = 0"
    and "um_find (websocketsById s) (ws_id (heap s (po_ref po))) = None" and "um_ok (websocketsById s)"
  shows "\<exists>t. loop_step s t \<and> um_find (websocketsById t) (ws_id (heap s (po_ref po))) = Some (po_ref po) \<and>
    msg_status (shm t) (po_msg po) = status_code SUCCESS \<and> others_same (po_ref po) s t \<and>
    ws_status (heap t (po_ref po)) = CONNECTED \<and>
    sender s (po_msg po) \<in> ws_clients (heap t (po_ref po)) \<and>
    announced s (ws_id (heap s (po_ref po))) (sender s (po_msg po)) t"
proof -
  let ?t = "resume_open s po success"
  have "loop_step s ?t" using assms(1) by (rule step_resume)
  moreover have "po_phase po = WsHandshaking" using assms(2) by (cases "po_phase po") simp_all
  then have t: "?t = open_callback (po_ref po) (po_msg po) True
      (start_io (ReadOp (po_ref po)) (set_ws_status (po_ref po) CONNECTED (take_open po s)))"
    by (simp add: resume_open_def success_def)
  from t have "um_find (websocketsById ?t) (ws_id (heap s (po_ref po))) = Some (po_ref po) \<and>
      msg_status (shm ?t) (po_msg po) = status_code SUCCESS \<and> ws_status (heap ?t (po_ref po)) = CONNECTED \<and>
      sender s (po_msg po) \<in> ws_clients (heap ?t (po_ref po))"
    using assms(3,4)
    by (simp add: open_callback_fields um.lookup_place take_open_def) (simp add: open_callback_def Let_def layout)
  moreover have "others_same (po_ref po) s ?t"
    using assms(4) t by (auto simp: others_same_def open_callback_fields um.lookup_place take_open_def remove1_other)
  moreover have "announced s (ws_id (heap s (po_ref po))) (sender s (po_msg po)) ?t"
    unfolding announced_def
    by (rule exI [of _ "start_io (ReadOp (po_ref po)) (set_ws_status (po_ref po) CONNECTED (take_open po s))"])
      (simp add: t open_callback_def Let_def published_def, simp add: take_open_def)
  ultimately show ?thesis by blast
qed

lemma attempt_run:
  assumes "steps_left (po_phase po) = n" and "po \<in> set (opens s)"
    and "um_find (websocketsById s) (ws_id (heap s (po_ref po))) = None" and "um_ok (websocketsById s)"
  shows "\<exists>t. rtranclp loop_step s t \<and> um_find (websocketsById t) (ws_id (heap s (po_ref po))) = Some (po_ref po) \<and>
    msg_status (shm t) (po_msg po) = status_code SUCCESS \<and> others_same (po_ref po) s t \<and>
    ws_status (heap t (po_ref po)) = CONNECTED \<and>
    sender s (po_msg po) \<in> ws_clients (heap t (po_ref po)) \<and>
    announced s (ws_id (heap s (po_ref po))) (sender s (po_msg po)) t"
  using assms
proof (induction n arbitrary: po s)
  case 0
  with attempt_last [of po s] show ?case by blast
next
  case (Suc n)
  from attempt_step [OF Suc.prems(2,1)] obtain t ph where t: "loop_step s t"
      "po\<lparr>po_phase := ph\<rparr> \<in> set (opens t)" "steps_left ph = n" "websocketsById t = websocketsById s"
      "ws_id (heap t (po_ref po)) = ws_id (heap s (po_ref po))" "others_same (po_ref po) s t" "shm t = shm s"
      and a: "pid t = pid s" "published t = published s"
    by blast
  from Suc.IH [of "po\<lparr>po_phase := ph\<rparr>" t] t Suc.prems(3,4) obtain u where
      "rtranclp loop_step t u" "um_find (websocketsById u) (ws_id (heap s (po_ref po))) = Some (po_ref po)"
      "msg_status (shm u) (po_msg po) = status_code SUCCESS" "others_same (po_ref po) t u"
      "ws_status (heap u (po_ref po)) = CONNECTED"
      "sender s (po_msg po) \<in> ws_clients (heap u (po_ref po))"
      "announced s (ws_id (heap s (po_ref po))) (sender s (po_msg po)) u"
    by (auto simp: announced_def a)
  with t(1) others_same_trans [OF t(6)] show ?case by (meson converse_rtranclp_into_rtranclp)
qed

text \<open>
  No attempt is ever stuck: whatever phase a pending attempt of a reachable state is in, there is
  a run of the loop after which its connection is listed and its request answered \<open>SUCCESS\<close>.
\<close>

theorem attempt_can_succeed:
  assumes "reachable s" and "po \<in> set (opens s)"
    and "um_find (websocketsById s) (ws_id (heap s (po_ref po))) = None"
  shows "\<exists>t. rtranclp loop_step s t \<and> um_find (websocketsById t) (ws_id (heap s (po_ref po))) = Some (po_ref po) \<and>
    msg_status (shm t) (po_msg po) = status_code SUCCESS"
proof -
  have "um_ok (websocketsById s)"
    using server.inv_reach [OF assms(1)] by (simp add: tables_ok_defs)
  from attempt_run [OF refl assms(2,3) this] show ?thesis by blast
qed

definition demo_attempt :: proxy where
  "demo_attempt = result_state (processClientMessage (take_task ProcessClientMessage
     (demo_asking ''wss://host.com'')) (Some 0) [])"

lemma demo_attempt_fields:
  "reachable demo_attempt" "opens demo_attempt = [\<lparr>po_ref = 0, po_msg = 0, po_phase = Spawned\<rparr>]"
  "websocketsById demo_attempt = []"
proof -
  let ?s = "demo_asking ''wss://host.com''"
  let ?t = "take_task ProcessClientMessage ?s"
  have n: "nul_free ''wss://host.com''" "length ''wss://host.com'' < 512" by simp_all
  note f = demo_asking_fields [OF n]
  show "reachable demo_attempt"
    unfolding demo_attempt_def by (rule reach_step [OF demo_reachable(3) step_poll]) (simp_all add: f)
  have "\<not> isl (parse_url ''wss://host.com'')" by code_simp
  then obtain ep where ep: "parse_url ''wss://host.com'' = Inr ep"
    by (cases "parse_url ''wss://host.com''") simp_all
  have l: "live ?t k = None" for k
    using f(3) [of k] by (auto simp: live_def take_task_def split: option.splits if_splits)
  have k: "known ?t (sender ?t 0)" using f(1,2) by (simp add: take_task_def)
  have m: "msg_type (shm ?t) 0 = type_code OpenWs" "open_url (shm ?t) 0 = ''wss://host.com''"
    using f by (simp_all add: take_task_def del: type_code.simps)
  have z: "next_ref ?t = 0" "opens ?t = []" "websocketsById ?t = []"
    using demo_registered_fields by (simp_all add: take_task_def demo_asking_def)
  have "handleClientMessage ?t 0 = openNewWs (stamped ?t 0) 0"
    using m by (simp add: handleClientMessage_def openWs_not_live [OF k l] del: type_code.simps)
  moreover obtain u where "openNewWs (stamped ?t 0) 0 = Inr u"
    "opens u = [\<lparr>po_ref = 0, po_msg = 0, po_phase = Spawned\<rparr>]" "websocketsById u = []"
    using ep by (simp add: openNewWs_def Let_def new_mark_fields Websocket_new_def m z)
  ultimately show "opens demo_attempt = [\<lparr>po_ref = 0, po_msg = 0, po_phase = Spawned\<rparr>]"
    "websocketsById demo_attempt = []"
    by (simp_all add: demo_attempt_def processClientMessage_result tick_def Let_def)
qed

theorem attempt_can_succeed_example:
  "\<exists>t. rtranclp loop_step demo_attempt t \<and> msg_status (shm t) 0 = 1"
  using attempt_can_succeed [OF demo_attempt_fields(1)] by (force simp: demo_attempt_fields)

section \<open>Reachable states\<close>

text \<open>
  C10: In every reachable state of the server, whatever the clients sent and the network did: a listed
  connection is listed under its own id, has at least one client, has left \<open>CONNECTING\<close>, and keeps no
  subscription without a subscriber; a client is listed under its own pid.
\<close>

theorem reachable_tables:
  assumes "reachable s"
  shows "(\<forall>i r. um_find (websocketsById s) i = Some r \<longrightarrow>
      ws_id (heap s r) = i \<and> ws_clients (heap s r) \<noteq> {} \<and> ws_status (heap s r) \<noteq> CONNECTING \<and>
      (\<forall>sym sub. ws_subscriptions (heap s r) sym = Some sub \<longrightarrow> sub_clients sub \<noteq> {})) \<and>
    (\<forall>q c. um_find (clients s) q = Some c \<longrightarrow> ci_pid c = q)"
  using server.inv_reach [OF assms] by (auto simp: tables_ok_defs subs_kept_def)

theorem reachable_tables_witness:
  "\<exists>s r. reachable s \<and> um_find (websocketsById s) (ws_id (heap s r)) = Some r \<and> ws_clients (heap s r) \<noteq> {}"
proof -
  obtain t i where t: "rtranclp loop_step demo_attempt t" "um_find (websocketsById t) i = Some 0"
    using attempt_run [OF refl, of "\<lparr>po_ref = 0, po_msg = 0, po_phase = Spawned\<rparr>" demo_attempt]
    by (auto simp: demo_attempt_fields)
  from t(1) have "reachable t"
    by (induction rule: rtranclp_induct) (auto intro: demo_attempt_fields(1) reach_step)
  with reachable_tables [OF this] t(2) show ?thesis by blast
qed

end
