(* ===== verification/Memory_Frame.thy ===== *)
theory Memory_Frame
  imports Loop_Props
begin

text \<open>
  Where the server writes: a handler changes no byte of the shared memory but the status byte and
  the response fields of the message it answers, neither when it reads the message nor when an
  attempt to connect ends later.
\<close>

section \<open>Changes to a status byte and a range\<close>

text \<open>
  At most the status byte of the message at \<open>p\<close> and its bytes from offset \<open>lo\<close> up to \<open>hi\<close> differ.
\<close>

definition same_but :: "nat \<Rightarrow> nat \<Rightarrow> nat \<Rightarrow> mem \<Rightarrow> mem \<Rightarrow> bool" where
  "same_but p lo hi m m' \<longleftrightarrow>
     (\<forall>x. x = p + offsetof Message_layout ''status'' \<or> (p + lo \<le> x \<and> x < p + hi) \<or> m' x = m x)"

named_theorems inside

lemma same_but_refl [inside]: "same_but p lo hi m m"
  by (simp add: same_but_def)

lemma same_but_trans: "same_but p lo hi m m' \<Longrightarrow> same_but p lo hi m' m'' \<Longrightarrow> same_but p lo hi m m''"
  unfolding same_but_def by metis

lemma same_but_mono: "same_but p 0 0 m m' \<Longrightarrow> same_but p lo hi m m'"
  unfolding same_but_def by auto

lemma same_but_store [inside]:
  "same_but p lo hi m m' \<Longrightarrow> p + lo \<le> a \<Longrightarrow> a + length bs \<le> p + hi \<Longrightarrow> same_but p lo hi m (store m' a bs)"
  by (auto simp: same_but_def store_def)

lemma same_but_stores [inside]:
  "same_but p lo hi m m' \<Longrightarrow> p + lo \<le> a \<Longrightarrow> a + 1 \<le> p + hi \<Longrightarrow> same_but p lo hi m (store_u8 m' a b)"
  "same_but p lo hi m m' \<Longrightarrow> p + lo \<le> a \<Longrightarrow> a + 8 \<le> p + hi \<Longrightarrow> same_but p lo hi m (store_u64 m' a v)"
  by (simp_all add: store_u8_def store_u64_def same_but_store)

lemma same_but_status [inside]:
  "same_but p lo hi m m' \<Longrightarrow> same_but p lo hi m (set_status m' p st)"
  by (auto simp: same_but_def set_status_def store_u8_def store_def)

lemma same_but_status_byte [inside]:
  "same_but p lo hi m m' \<Longrightarrow> same_but p lo hi m (store_u8 m' (p + 9) b)"
  by (auto simp: same_but_def store_u8_def store_def layout_defs)

text \<open>What lies apart from the status byte and the range is still there.\<close>

lemma same_but_load:
  assumes "same_but p lo hi m m'"
    and "a + n \<le> p + 9 \<or> p + 10 \<le> a" and "a + n \<le> p + lo \<or> p + hi \<le> a"
  shows "load m' a n = load m a n"
proof (rule load_cong)
  fix x assume "a \<le> x" "x < a + n"
  moreover have "x = p + 9 \<or> (p + lo \<le> x \<and> x < p + hi) \<or> m' x = m x"
    using assms(1) by (simp add: same_but_def layout_defs)
  ultimately show "m' x = m x" using assms(2,3) by auto
qed

section \<open>The handlers\<close>

text \<open>
  The response fields of a message, from the first to behind the last: none where the reply is the
  status alone.
\<close>

fun response_fields :: "msg_type \<Rightarrow> nat \<times> nat" where
  "response_fields Register =
     (fld RegisterMessage_layout ''server_pid'' 0, 10 + sizeof RegisterMessage_layout)"
| "response_fields OpenWs = (fld WsOpen_layout ''client_pid'' 0, 10 + sizeof WsOpen_layout)"
| "response_fields Subscribe =
     (fld WsSubscription_layout ''existing'' 0, fld WsSubscription_layout ''type'' 0)"
| "response_fields _ = (0, 0)"

definition has_reply :: "msg_type \<Rightarrow> bool" where
  "has_reply ty \<longleftrightarrow> ty \<in> {Register, OpenWs, CloseWs, WsRequest, Subscribe, Unsubscribe}"

lemma registration_inside: "same_but p 42 306 (shm s) (shm (handleClientRegistration s p))"
  by (simp add: handleClientRegistration_def Let_def tick_def inside layout)

lemma closeWs_inside: "same_but p 0 0 (shm s) (shm (closeWs s p))"
  by (simp add: closeWs_def split_beta closeWs_id_effects inside)

lemma unregister_inside: "shm (unregisterClient s q) = shm s"
  by (simp add: unregister_drop unregister_iter_drop Let_def tick_def)

lemma subscribe_inside: "same_but p 278 279 (shm s) (shm (handleSubscribe s p))"
  by (simp add: handleSubscribe_def split_beta Let_def inside layout split: option.split)

lemma unsubscribe_inside: "same_but p 0 0 (shm s) (shm (handleUnsubscribe s p))"
  by (simp add: handleUnsubscribe_def split_beta Let_def inside split: option.split)

lemma request_inside: "same_but p 0 0 (shm s) (shm (sendWsRequest s p))"
  by (simp add: sendWsRequest_def split_beta Let_def inside split: option.split)

lemma share_inside: "same_but p 1034 1307 (shm s) (shm (share_ws s p r))"
  by (simp add: share_ws_def Let_def inside layout)

lemma openNewWs_inside: "same_but p 1034 1307 (shm s) (shm (result_state (openNewWs s p)))"
  by (simp add: openNewWs_def Let_def inside layout split: sum.split)

lemma openWs_inside: "same_but p 1034 1307 (shm s) (shm (result_state (openWs s p)))"
proof -
  have "length (take 255 cs @ [CHR 0x00]) \<le> 256" for cs by simp
  then show ?thesis
    using share_inside [of p "snd (getClient s (msg_pid (shm s) p))"]
      openNewWs_inside [of p "snd (getClient s (msg_pid (shm s) p))"]
    by (auto simp: openWs_def split_beta Let_def layout intro!: inside split: option.split)
qed

lemma open_callback_inside: "same_but p 1034 1307 (shm s) (shm (open_callback r p b s))"
  by (simp add: open_callback_def Let_def inside layout)

lemma fail_inside:
  "same_but p 1034 1307 (shm s) (shm (websocket_fail s r e (Some (open_callback r' p)) b))"
  by (simp add: websocket_fail_def Let_def open_callback_def inside)

lemma websocket_open_inside:
  "same_but p 1034 1307 (shm s) (shm (fst (websocket_open (open_callback r p) s r ph oc)))"
  by (cases ph)
    (simp_all add: Let_def inside fail_inside same_but_trans [OF _ open_callback_inside] split: option.split)

lemma resume_inside: "same_but (po_msg po) 1034 1307 (shm s) (shm (resume_open s po oc))"
  using websocket_open_inside [of "po_msg po" "take_open po s" "po_ref po" "po_phase po" oc]
  by (simp add: resume_open_def take_open_def split_beta split: option.split)

lemma response_fields_simps [simp]:
  "response_fields Register = (42, 306)" "response_fields OpenWs = (1034, 1307)"
  "response_fields Subscribe = (278, 279)"
  by (simp_all add: layout)

declare response_fields.simps(1-3) [simp del]

lemma handler_inside:
  assumes "type_of_code (msg_type (shm s) p) = Some ty"
  shows "has_reply ty \<Longrightarrow> same_but p (fst (response_fields ty)) (snd (response_fields ty))
      (shm s) (shm (result_state (handleClientMessage s p)))"
    and "\<not> has_reply ty \<Longrightarrow> shm (result_state (handleClientMessage s p)) = shm s"
  using assms
  by (cases ty; simp add: has_reply_def handleClientMessage_def handleClientHeartbeat_def
      registration_inside closeWs_inside subscribe_inside unsubscribe_inside request_inside
      openWs_inside unregister_inside)+

section \<open>The whole loop\<close>

lemma poll_shm:
  "shm (result_state (processClientMessage s rd ids)) =
    (case rd of Some p \<Rightarrow> shm (result_state (handleClientMessage s p)) | None \<Rightarrow> shm s)"
proof -
  have r: "shm (removeClosedSockets ids x) = shm x" for x
    by (induction ids x rule: removeClosedSockets.induct) (simp_all split: option.split)
  show ?thesis
    by (cases "case rd of Some p \<Rightarrow> handleClientMessage s p | None \<Rightarrow> Inr s")
      (auto simp: processClientMessage_result Let_def r split: option.splits)
qed

lemma check_clients_shm: "shm (check_clients now cs s) = shm s"
  by (induction now cs s rule: check_clients.induct) simp_all

lemma close_all_shm: "shm (close_all kvs s) = shm s"
  by (induction kvs s rule: close_all.induct) (simp_all add: Let_def)

lemma startHeartbeat_shm: "shm (startHeartbeat s) = shm s"
  by (simp add: startHeartbeat_def checkHeartbeats_def Let_def split_beta check_clients_shm)

text \<open>The bytes the reply to a message at \<open>p\<close> may touch.\<close>

definition replies_in :: "nat \<Rightarrow> msg_type \<Rightarrow> mem \<Rightarrow> mem \<Rightarrow> bool" where
  "replies_in p ty m m' \<longleftrightarrow> same_but p (fst (response_fields ty)) (snd (response_fields ty)) m m'"

lemma poll_replies:
  assumes "ProcessClientMessage \<in> set (tasks s)"
    and "t = result_state (processClientMessage (take_task ProcessClientMessage s) rd ids)"
  shows "shm t = shm s \<or> (\<exists>p ty. handles s t p ty \<and> has_reply ty \<and> replies_in p ty (shm s) (shm t))"
proof (cases rd)
  case None
  then show ?thesis using assms(2) by (simp add: poll_shm take_task_def)
next
  case (Some p)
  let ?x = "take_task ProcessClientMessage s"
  have sh: "shm ?x = shm s" by (simp add: take_task_def)
  have t: "shm t = shm (result_state (handleClientMessage ?x p))"
    using assms(2) Some by (simp add: poll_shm)
  show ?thesis
  proof (cases "type_of_code (msg_type (shm s) p)")
    case None
    then have "shm t = shm s" by (simp add: t handleClientMessage_def sh)
    then show ?thesis ..
  next
    case ty: (Some ty)
    then have "handles s t p ty" using assms Some by (auto simp: handles_def)
    moreover have "has_reply ty \<Longrightarrow> replies_in p ty (shm s) (shm t)" "\<not> has_reply ty \<Longrightarrow> shm t = shm s"
      using handler_inside [of ?x p ty] ty by (simp_all add: sh t replies_in_def)
    ultimately show ?thesis by blast
  qed
qed

lemma step_replies:
  assumes "loop_step s t"
  shows "(\<exists>m. t = s\<lparr>shm := m\<rparr>) \<or> shm t = shm s \<or>
    (\<exists>p ty. handles s t p ty \<and> has_reply ty \<and> replies_in p ty (shm s) (shm t)) \<or>
    (\<exists>po \<in> set (opens s). replies_in (po_msg po) OpenWs (shm s) (shm t))"
  using assms
proof (cases rule: loop_step.cases)
  case (step_poll ids rd)
  from poll_replies [OF step_poll(2) step_poll(1)] show ?thesis by blast
next
  case (step_resume po oc)
  have "replies_in (po_msg po) OpenWs (shm s) (shm t)"
    using resume_inside [of po s oc] by (simp add: step_resume(1) replies_in_def)
  then show ?thesis using step_resume(2) by blast
next
  case (step_open_exception po)
  have "replies_in (po_msg po) OpenWs (shm s) (shm t)"
    by (simp add: step_open_exception(1) replies_in_def take_open_def inside)
  then show ?thesis using step_open_exception(2) by blast
qed (auto simp: first_heartbeat_task_def startHeartbeat_shm shutdown_def shutdown_task_def close_all_shm
    shutdown_timer_task_def Let_def take_defs)

text \<open>
  C5: The server writes nothing into shared memory but its replies.  In any step of the loop that is not
  a client's own write, the memory stays as it is, or the step is the turn of the polling task that
  handles a message, of whatever type its header claims, and then at most the status byte and the
  response fields of that message change, or an attempt to connect goes on, and then at most those of
  the request that started it.
\<close>

theorem server_writes_replies:
  assumes "loop_step s t"
  shows "(\<exists>m. t = s\<lparr>shm := m\<rparr>) \<or> shm t = shm s \<or>
    (\<exists>p ty. handles s t p ty \<and> has_reply ty \<and> replies_in p ty (shm s) (shm t)) \<or>
    (\<exists>po \<in> set (opens s). replies_in (po_msg po) OpenWs (shm s) (shm t))"
  using step_replies [OF assms] .

lemma demo_registers: "loop_step demo_start demo_registered"
  unfolding demo_registered_def by (rule step_poll) (simp_all add: demo_start_def run_start_def)

theorem server_writes_replies_witness:
  "(\<exists>p ty. handles demo_start demo_registered p ty \<and> replies_in p ty (shm demo_start) (shm demo_registered)) \<or>
    shm demo_registered = shm demo_start"
proof -
  have c: "clients demo_start = []" "clients demo_registered \<noteq> []" "opens demo_start = []"
    using demo_registered_fields(1) by (auto simp: demo_start_def run_start_def)
  have "demo_registered \<noteq> demo_start\<lparr>shm := m\<rparr>" for m
  proof
    assume "demo_registered = demo_start\<lparr>shm := m\<rparr>"
    from arg_cong [OF this, of clients] have "clients demo_registered = clients demo_start" by simp
    with c(1,2) show False by simp
  qed
  then show ?thesis using server_writes_replies [OF demo_registers] c(3) by auto
qed

section \<open>Requests that wait\<close>

text \<open>A reply to the message at \<open>p\<close> has nothing in common with the block of \<open>n\<close> bytes at \<open>a\<close>.\<close>

definition apart :: "nat \<Rightarrow> msg_type \<Rightarrow> nat \<Rightarrow> nat \<Rightarrow> bool" where
  "apart p ty a n \<longleftrightarrow> a + n \<le> p \<or> p + max 10 (snd (response_fields ty)) \<le> a"

text \<open>
  The steps of the server that leave that block alone: it handles a message that lies apart, goes on
  with an attempt whose request lies apart, or does something that concerns no request.
\<close>

inductive spares :: "nat \<Rightarrow> nat \<Rightarrow> proxy \<Rightarrow> proxy \<Rightarrow> bool" for a n where
  sp_handle: "ProcessClientMessage \<in> set (tasks s) \<Longrightarrow> (\<forall>i \<in> set ids. PushClosed i \<in> set (trace s)) \<Longrightarrow>
    type_of_code (msg_type (shm s) p) = Some ty \<Longrightarrow> apart p ty a n \<Longrightarrow>
    spares a n s (result_state (processClientMessage (take_task ProcessClientMessage s) (Some p) ids))"
| sp_resume: "po \<in> set (opens s) \<Longrightarrow> apart (po_msg po) OpenWs a n \<Longrightarrow> spares a n s (resume_open s po oc)"
| sp_exception: "po \<in> set (opens s) \<Longrightarrow> apart (po_msg po) OpenWs a n \<Longrightarrow>
    spares a n s (reply (po_msg po) FAILED (take_open po s))"
| sp_quiet: "loop_step s t \<Longrightarrow> shm t = shm s \<Longrightarrow> spares a n s t"

lemma spares_loop_step: "spares a n s t \<Longrightarrow> loop_step s t"
  by (auto elim!: spares.cases intro: loop_step.intros)

lemma apart_load:
  assumes "replies_in p ty m m'" and "apart p ty a n"
  shows "load m' a n = load m a n"
  using assms by (intro same_but_load [OF assms(1) [unfolded replies_in_def]]) (auto simp: apart_def)

lemma handled_shm:
  assumes "type_of_code (msg_type (shm s) p) = Some ty"
  shows "let m = shm (result_state (processClientMessage (take_task ProcessClientMessage s) (Some p) ids))
    in m = shm s \<or> replies_in p ty (shm s) m"
  using handler_inside [of "take_task ProcessClientMessage s" p ty] assms
  by (cases "has_reply ty") (simp_all add: poll_shm replies_in_def take_task_def)

lemma spares_load: "spares a n s t \<Longrightarrow> load (shm t) a n = load (shm s) a n"
proof (induction rule: spares.induct)
  case (sp_handle s ids p ty)
  then show ?case using handled_shm [of s p ty ids] apart_load by (auto simp: Let_def)
next
  case (sp_resume po s oc)
  then show ?case
    using resume_inside [of po s oc] by (intro apart_load [of "po_msg po" OpenWs]) (simp_all add: replies_in_def)
next
  case (sp_exception po s)
  then show ?case
    by (intro apart_load [of "po_msg po" OpenWs]) (simp_all add: replies_in_def take_open_def inside)
qed simp

text \<open>
  C6: A request that waits in the queue is not spoiled by the handling of the others.  However many steps
  the server takes, whatever messages it handles and however attempts go on or end, as long as none of
  those messages overlaps the waiting one in memory, the waiting one is still there byte for byte when
  its turn comes.
\<close>

theorem waiting_request_intact:
  assumes "rtranclp (spares a (length bs)) s t" and "holds (shm s) a bs"
  shows "rtranclp loop_step s t \<and> holds (shm t) a bs"
  using assms(1)
proof (induction rule: rtranclp_induct)
  case base
  show ?case using assms(2) by simp
next
  case (step t u)
  then show ?case
    using spares_load [OF step(2)] rtranclp.rtrancl_into_rtrancl [of loop_step s t u] spares_loop_step [OF step(2)]
    by (simp add: holds_def)
qed

text \<open>The registration at address 0 is handled while a heartbeat waits at 400.\<close>

theorem waiting_request_intact_witness:
  "\<exists>s t. rtranclp (spares 400 10) s t \<and> clients t \<noteq> [] \<and> load (shm t) 400 10 = load (shm s) 400 10"
proof -
  have z: "load_u8 zero_mem x = 0" for x by (simp add: load_u8_def load_zero_mem)
  have "msg_type (shm demo_start) 0 = type_code Register"
    by (simp add: demo_start_def run_start_def layout z)
  then have ty: "type_of_code (msg_type (shm demo_start) 0) = Some Register"
    by (simp only: type_of_code_type_code)
  have "spares 400 10 demo_start demo_registered"
    unfolding demo_registered_def
    by (rule sp_handle [OF _ _ ty]) (simp_all add: demo_start_def run_start_def apart_def)
  then have sp: "rtranclp (spares 400 (length (load (shm demo_start) 400 10))) demo_start demo_registered" by simp
  from waiting_request_intact [OF this] have "load (shm demo_registered) 400 10 = load (shm demo_start) 400 10"
    by (simp add: holds_def)
  with sp demo_registered_fields(1) show ?thesis by fastforce
qed

end
