(* ===== verification/Sharing_Machine.thy ===== *)
theory Sharing_Machine
  imports Loop_Props
begin

text \<open>
  The server as a machine over its abstract state alone: which clients it knows and which of them
  share each connection.  \<open>event_at\<close> says which event of this machine a step of the event loop is, as a
  function of the state before the step and of what happens in it, and \<open>step_exact\<close> that the step does
  exactly what the event says.
\<close>

section \<open>The abstract machine\<close>

record sharing =
  sh_known :: "u64 set"
  sh_conns :: conn_view

definition sharing_of :: "proxy \<Rightarrow> sharing" where
  "sharing_of s = \<lparr>sh_known = dom (um_find (clients s)), sh_conns = conns s\<rparr>"

datatype sh_event =
    Nothing
  | Registers u64
  | Unregisters u64
  | Expire "u64 set"
  | Leaves u64 u64
  | Joins u64 u64
  | Established u64 u64
  | Stopped

fun sh_can :: "sh_event \<Rightarrow> sharing \<Rightarrow> bool" where
  "sh_can (Unregisters q) a \<longleftrightarrow> q \<in> sh_known a"
| "sh_can (Expire L) a \<longleftrightarrow> L \<subseteq> sh_known a"
| "sh_can (Leaves i q) a \<longleftrightarrow> q \<in> sh_known a"
| "sh_can (Joins i q) a \<longleftrightarrow> q \<in> sh_known a \<and> i \<in> dom (sh_conns a)"
| "sh_can (Established i q) a \<longleftrightarrow> i \<notin> dom (sh_conns a)"
| "sh_can _ a \<longleftrightarrow> True"

fun sh_next :: "sh_event \<Rightarrow> sharing \<Rightarrow> sharing" where
  "sh_next Nothing a = a"
| "sh_next (Registers q) a = a\<lparr>sh_known := insert q (sh_known a)\<rparr>"
| "sh_next (Unregisters q) a =
     a\<lparr>sh_known := sh_known a - {q}, sh_conns := abs_unregister q (sh_conns a)\<rparr>"
| "sh_next (Expire L) a = a\<lparr>sh_known := sh_known a - L, sh_conns := abs_drop L (sh_conns a)\<rparr>"
| "sh_next (Leaves i q) a = a\<lparr>sh_conns := abs_leave i q (sh_conns a)\<rparr>"
| "sh_next (Joins i q) a = a\<lparr>sh_conns := abs_join i q (sh_conns a)\<rparr>"
| "sh_next (Established i q) a = a\<lparr>sh_conns := abs_join i q (sh_conns a)\<rparr>"
| "sh_next Stopped a = a\<lparr>sh_conns := Map.empty\<rparr>"

text \<open>The connections that were announced closed go.\<close>

definition sh_drop :: "u64 set \<Rightarrow> sharing \<Rightarrow> sharing" where
  "sh_drop I a = a\<lparr>sh_conns := sh_conns a |` (- I)\<rparr>"

lemma sh_drop_empty [simp]: "sh_drop {} a = a"
  by (cases a) (simp add: sh_drop_def restrict_map_def)

text \<open>On its own the machine never has a connection without a client.\<close>

definition sh_ok :: "sharing \<Rightarrow> bool" where
  "sh_ok a \<longleftrightarrow> {} \<notin> ran (sh_conns a)"

lemma sh_ok_next:
  assumes "sh_ok a"
  shows "sh_ok (sh_next ev a)"
  using assms by (cases ev)
    (auto simp: sh_ok_def ran_def abs_unregister_def abs_drop_def abs_leave_def abs_join_def
      split: option.splits if_splits)

lemma sh_ok_drop: "sh_ok a \<Longrightarrow> sh_ok (sh_drop I a)"
  by (auto simp: sh_ok_def sh_drop_def ran_def restrict_map_def split: if_splits)

lemma dom_conns: "i \<in> dom (conns s) \<longleftrightarrow> um_find (websocketsById s) i \<noteq> None"
  by (auto simp: conns_def dom_def)

section \<open>What sockets of attempts are shared with\<close>

text \<open>The websocket of an attempt has no client until the attempt completes.\<close>

definition fresh_opens :: "proxy \<Rightarrow> bool" where
  "fresh_opens s \<longleftrightarrow> (\<forall>po \<in> set (opens s). ws_clients (heap s (po_ref po)) = {})"

definition shrinks :: "proxy \<Rightarrow> proxy \<Rightarrow> bool" where
  "shrinks s t \<longleftrightarrow> (\<forall>r. r \<in> po_ref ` set (opens t) \<longrightarrow>
     (r \<in> po_ref ` set (opens s) \<and> ws_clients (heap t r) \<subseteq> ws_clients (heap s r)) \<or> ws_clients (heap t r) = {})"

lemma fresh_shrinks: "fresh_opens s \<Longrightarrow> shrinks s t \<Longrightarrow> fresh_opens t"
  by (fastforce simp: fresh_opens_def shrinks_def)

lemma shrinks_refl [simp]: "shrinks s s"
  by (simp add: shrinks_def)

lemma shrinks_trans: "shrinks s t \<Longrightarrow> shrinks t u \<Longrightarrow> shrinks s u"
  unfolding shrinks_def by blast

lemma shrinks_mild: "mild (heap s) (heap t) \<Longrightarrow> set (opens t) \<subseteq> set (opens s) \<Longrightarrow> shrinks s t"
  by (auto simp: shrinks_def mild_def)

lemma shrinks_same: "heap t = heap s \<Longrightarrow> set (opens t) \<subseteq> set (opens s) \<Longrightarrow> shrinks s t"
  by (rule shrinks_mild) simp_all

lemma shrinks_closeWs_id: "shrinks s (closeWs_id s i q)"
  by (auto simp: shrinks_def closeWs_id_effects closeWs_id_heap split: option.split)

lemma shrinks_unregister_iter: "byId_ok s \<Longrightarrow> shrinks s (unregisterClient_iter s q)"
  by (auto simp: shrinks_def drop_client_tables(3))

lemma shrinks_check_clients: "tables_ok s \<Longrightarrow> shrinks s (check_clients now cs s)"
proof (induction now cs s rule: check_clients.induct)
  case (2 now q c cs s)
  have "byId_ok s" using 2(3) by (simp add: tables_ok_def)
  from shrinks_trans [OF shrinks_unregister_iter [OF this]] 2 show ?case
    by (auto simp: tables_ok_unregister_iter)
qed simp

lemma shrinks_share: "tables_ok s \<Longrightarrow> fm_find (websocketsByUrlApiKey s) k = Some r \<Longrightarrow> shrinks s (share_ws s p r)"
  by (cases k) (auto simp: shrinks_def tables_ok_defs)

lemma shrinks_openNewWs:
  assumes "tables_ok s"
  shows "shrinks s (result_state (openNewWs s p))"
proof (cases "openNewWs s p")
  case (Inl a)
  then obtain e t where "openNewWs s p = Inl (e, t)" by (cases a) auto
  then show ?thesis using openNewWs_Inl [of s p e t] shrinks_same [of t s] by simp
next
  case (Inr t)
  then show ?thesis
    by (rule openNewWs_Inr) (auto simp: Inr shrinks_def Websocket_new_fields(4))
qed

lemma shrinks_openWs:
  assumes "tables_ok s"
  shows "shrinks s (result_state (openWs s p))"
proof -
  let ?s = "snd (getClient s (sender s p))"
  have ok: "tables_ok ?s" using assms by (rule tables_ok_getClient)
  have "shrinks s ?s" by (rule shrinks_same) simp_all
  from shrinks_trans [OF this] show ?thesis
    using shrinks_share [OF ok] shrinks_openNewWs [OF ok]
    by (auto simp: openWs_def split_beta Let_def shrinks_same split: option.split)
qed

lemma shrinks_handleClientMessage:
  assumes "tables_ok s"
  shows "shrinks s (result_state (handleClientMessage s p))"
proof -
  have b: "byId_ok s" using assms by (simp add: tables_ok_def)
  have c: "shrinks s (closeWs s p)"
  proof -
    have "shrinks s (snd (getClient s (sender s p)))" by (rule shrinks_same) simp_all
    from shrinks_trans [OF shrinks_trans [OF this shrinks_closeWs_id] shrinks_same] this show ?thesis
      by (simp add: closeWs_def split_beta) (simp add: shrinks_def)
  qed
  have "mild (heap s) (heap (websocket_send (stamped s p) x b))" for x b
    using mild_send [of "stamped s p" x b] by simp
  then have r: "shrinks s (sendWsRequest s p)"
    by (intro shrinks_mild) (auto simp: sendWsRequest_def split_beta Let_def split: option.split)
  show ?thesis
    by (auto simp: handleClientMessage_def shrinks_openWs [OF assms] c r unregister_drop
        shrinks_unregister_iter [OF b] handleClientHeartbeat_def shrinks_same
        shrinks_mild [OF handleSubscribe_mild] shrinks_mild [OF handleUnsubscribe_mild] subscribe_fields
        unsubscribe_fields split: option.split msg_type.split)
qed

lemma shrinks_close_all: "shrinks s (close_all kvs s)"
proof (induction kvs s rule: close_all.induct)
  case (2 i r kvs s)
  let ?t = "(websocket_close s r)\<lparr>websocketsByUrlApiKey := fm_erase (websocketsByUrlApiKey (websocket_close s r))
      (ws_url (heap (websocket_close s r) r), ws_api_key (heap (websocket_close s r) r))\<rparr>"
  have "shrinks s ?t" by (rule shrinks_mild) (simp_all add: mild_close)
  from shrinks_trans [OF this] 2 show ?case by (simp add: Let_def)
qed simp

lemma shrinks_poll:
  assumes "tables_ok s"
  shows "shrinks s (result_state (processClientMessage s rd ids))"
proof -
  let ?h = "case rd of Some p \<Rightarrow> handleClientMessage s p | None \<Rightarrow> Inr s"
  have "shrinks s (result_state ?h)"
    using shrinks_handleClientMessage [OF assms] by (simp split: option.split)
  moreover have "heap (result_state (processClientMessage s rd ids)) = heap (result_state ?h)"
    "opens (result_state (processClientMessage s rd ids)) = opens (result_state ?h)"
    by (cases ?h; auto simp: processClientMessage_result Let_def tick_def)+
  ultimately show ?thesis by (simp add: shrinks_def)
qed

text \<open>The websocket of an attempt that goes on stays as fresh as it was.\<close>

lemma fresh_resume:
  assumes "tables_ok s" and "fresh_opens s" and "po \<in> set (opens s)"
  shows "fresh_opens (resume_open s po oc)"
proof -
  let ?r = "po_ref po" and ?s = "take_open po s"
  have sub: "set (remove1 po (opens s)) \<subseteq> set (opens s)" by (rule set_remove1_subset)
  have nd: "?r \<notin> po_ref ` set (remove1 po (opens s))"
    using tables_ok_detach(2) [OF assms(1,3)] by (simp add: detached_def)
  have d: "po_ref x \<noteq> ?r" if "x \<in> set (remove1 po (opens s))" for x
    using nd imageI [OF that, of po_ref] by metis
  have keep: "fresh_opens t" if "ws_clients (heap t ?r) = {}" "\<forall>x. x \<noteq> ?r \<longrightarrow> heap t x = heap s x"
      "\<forall>x \<in> set (opens t). po_ref x = ?r \<or> x \<in> set (remove1 po (opens s))" for t
    using that assms(2) d sub by (fastforce simp: fresh_opens_def)
  have gone: "fresh_opens t" if "\<forall>x. x \<noteq> ?r \<longrightarrow> heap t x = heap s x" "opens t = remove1 po (opens s)" for t
    using that assms(2) d sub by (auto simp: fresh_opens_def)
  have e: "ws_clients (heap s ?r) = {}" using assms(2,3) by (auto simp: fresh_opens_def)
  have fail: "fresh_opens (websocket_fail ?s ?r er (Some (open_callback ?r (po_msg po))) True)" for er
    by (rule gone) (simp_all add: websocket_fail_def open_callback_def heap_close Let_def take_open_def)
  have won: "fresh_opens (open_callback ?r (po_msg po) True (start_io (ReadOp ?r) (set_ws_status ?r CONNECTED ?s)))"
    by (rule gone) (simp_all add: open_callback_fields take_open_def)
  show ?thesis
    by (cases "po_phase po")
      (auto simp: resume_open_def Let_def fail won split: option.split
        intro!: keep, simp_all add: take_open_def e)
qed

lemma shrinks_take:
  "shrinks s (take_task x s)" "shrinks s (take_io op s)" "shrinks s (take_open po s)"
  using set_remove1_subset [of po "opens s"] by (auto intro!: shrinks_same simp: take_defs)

lemma shrinks_startHeartbeat: "tables_ok s \<Longrightarrow> shrinks s (startHeartbeat s)"
proof -
  assume ok: "tables_ok s"
  have "shrinks s (snd (checkHeartbeats s))"
  proof -
    have "shrinks s (snd (sendHeartbeat (tick s) n))" for n by (rule shrinks_same) simp_all
    from shrinks_trans [OF this shrinks_check_clients] ok show ?thesis
      by (simp add: checkHeartbeats_def split_beta)
  qed
  then show ?thesis by (simp add: startHeartbeat_def Let_def shrinks_def)
qed

lemma fresh_loop_step:
  assumes "tables_ok s" and "fresh_opens s" and "loop_step s t"
  shows "fresh_opens t"
  using assms(3)
proof (cases rule: loop_step.cases)
  case (step_resume po oc)
  then show ?thesis using fresh_resume [OF assms(1,2)] by simp
next
  case (step_poll ids rd)
  from shrinks_trans [OF shrinks_take(1) shrinks_poll] assms(1,2) show ?thesis
    unfolding step_poll(1) by (auto intro: fresh_shrinks)
next
  case (step_heartbeat)
  from shrinks_trans [OF shrinks_take(1) shrinks_startHeartbeat] assms(1,2) show ?thesis
    unfolding step_heartbeat(1) by (auto intro: fresh_shrinks)
next
  case (step_first)
  let ?s = "snd (sendHeartbeat (tick (take_task FirstHeartbeat s)) (get_timestamp (take_task FirstHeartbeat s)))"
  have "shrinks s ?s" by (rule shrinks_same) (simp_all add: take_defs)
  from shrinks_trans [OF this shrinks_startHeartbeat] assms(1,2) show ?thesis
    unfolding step_first(1) first_heartbeat_task_def by (auto intro: fresh_shrinks)
next
  case (step_shutdown)
  have "shrinks s ((take_task ShutdownTask s)\<lparr>run := False\<rparr>)" by (rule shrinks_same) (simp_all add: take_defs)
  from shrinks_trans [OF this shrinks_close_all] have "shrinks s t"
    unfolding step_shutdown(1) shutdown_task_def by (simp add: Let_def shrinks_def)
  then show ?thesis using assms(2) by (rule fresh_shrinks [rotated])
next
  case (step_written r b ec n)
  from shrinks_trans [OF shrinks_take(2) shrinks_mild [OF mild_ws_step [where e = "WsWritten ec n"]]] assms(2)
  show ?thesis unfolding step_written(1) by (auto intro: fresh_shrinks)
next
  case (step_read r ec d n)
  from shrinks_trans [OF shrinks_take(2) shrinks_mild [OF mild_ws_step [where e = "WsRead ec d n"]]] assms(2)
  show ?thesis unfolding step_read(1) by (auto intro: fresh_shrinks)
next
  case (step_closed r ec)
  from shrinks_trans [OF shrinks_take(2) shrinks_mild [OF mild_ws_step [where e = "WsClosedDone ec"]]] assms(2)
  show ?thesis unfolding step_closed(1) by (auto intro: fresh_shrinks)
next
  case (step_open_exception po)
  have "shrinks s t" unfolding step_open_exception(1) using shrinks_take(3) [of s po] by (simp add: shrinks_def)
  then show ?thesis using assms(2) by (rule fresh_shrinks [rotated])
qed (use assms(2) in \<open>simp_all add: fresh_opens_def shutdown_def shutdown_timer_task_def take_defs\<close>)

section \<open>The event of a message\<close>

definition event_of :: "proxy \<Rightarrow> nat \<Rightarrow> sh_event" where
  "event_of s p = (case type_of_code (msg_type (shm s) p) of
     Some Register \<Rightarrow> Registers (sender s p)
   | Some Unregister \<Rightarrow> if known s (sender s p) then Unregisters (sender s p) else Nothing
   | Some CloseWs \<Rightarrow> if known s (sender s p)
       then Leaves (load_u64 (shm s) (fld WsClose_layout ''id'' p)) (sender s p) else Nothing
   | Some OpenWs \<Rightarrow> if known s (sender s p) then
       (case live s (open_key (shm s) p) of
          Some r \<Rightarrow> if um_find (websocketsById s) (ws_id (heap s r)) = Some r
                    then Joins (ws_id (heap s r)) (sender s p) else Nothing
        | None \<Rightarrow> Nothing)
       else Nothing
   | _ \<Rightarrow> Nothing)"

text \<open>The reading of the clock by which a check of the heartbeats goes, and who is silent by it.\<close>

fun reading :: "proxy \<Rightarrow> loop_label \<Rightarrow> u64" where
  "reading s FirstBeat = get_timestamp (tick s)"
| "reading s _ = get_timestamp s"

definition silent :: "proxy \<Rightarrow> u64 \<Rightarrow> u64 set" where
  "silent s now = {q. \<exists>c. um_find (clients s) q = Some c \<and> now - ci_last_heartbeat_time c > 30000}"

text \<open>The event a step of the loop is.\<close>

fun event_at :: "proxy \<Rightarrow> loop_label \<Rightarrow> sh_event" where
  "event_at s (Polls (Some p) ids) = event_of s p"
| "event_at s FirstBeat = Expire (silent s (reading s FirstBeat))"
| "event_at s Beat = Expire (silent s (reading s Beat))"
| "event_at s ShutsDown = Stopped"
| "event_at s (Resumes po oc) =
     (if po_phase po = WsHandshaking \<and> oc_error oc = None \<and>
         um_find (websocketsById s) (ws_id (heap s (po_ref po))) = None
      then Established (ws_id (heap s (po_ref po))) (sender s (po_msg po)) else Nothing)"
| "event_at s _ = Nothing"

text \<open>
  The closed connections it drops: those whose announcement this turn of the polling task has taken from
  the queue, unless the request it read has a url that cannot be parsed.
\<close>

definition rejects :: "proxy \<Rightarrow> nat \<Rightarrow> bool" where
  "rejects s p \<longleftrightarrow> type_of_code (msg_type (shm s) p) = Some OpenWs \<and> known s (sender s p) \<and>
     live s (open_key (shm s) p) = None \<and> isl (parse_url (open_url (shm s) p))"

fun dropped_at :: "proxy \<Rightarrow> loop_label \<Rightarrow> u64 set" where
  "dropped_at s (Polls rd ids) = (if \<exists>p. rd = Some p \<and> rejects s p then {} else set ids)"
| "dropped_at s _ = {}"

lemma event_at_cases:
  "event_at s l = Unregisters q \<Longrightarrow>
     \<exists>p ids. l = Polls (Some p) ids \<and> type_of_code (msg_type (shm s) p) = Some Unregister \<and> q = sender s p"
  "event_at s l = Leaves i q \<Longrightarrow>
     \<exists>p ids. l = Polls (Some p) ids \<and> type_of_code (msg_type (shm s) p) = Some CloseWs \<and> q = sender s p \<and>
       i = load_u64 (shm s) (fld WsClose_layout ''id'' p)"
  "event_at s l = Joins i q \<Longrightarrow>
     \<exists>p ids r. l = Polls (Some p) ids \<and> type_of_code (msg_type (shm s) p) = Some OpenWs \<and> q = sender s p \<and>
       known s q \<and> live s (open_key (shm s) p) = Some r \<and> um_find (websocketsById s) i = Some r"
  "event_at s l = Established i q \<Longrightarrow>
     \<exists>po oc. l = Resumes po oc \<and> po_phase po = WsHandshaking \<and> oc_error oc = None \<and>
       i = ws_id (heap s (po_ref po)) \<and> q = sender s (po_msg po)"
  "event_at s l = Expire L \<Longrightarrow> (l = Beat \<or> l = FirstBeat) \<and> L = silent s (reading s l)"
  "event_at s l = Stopped \<Longrightarrow> l = ShutsDown"
  by (cases "(s, l)" rule: event_at.cases;
    auto simp: event_of_def split: option.splits msg_type.splits if_splits)+

lemma event_at_can: "sh_can (event_at s l) (sharing_of s)"
  by (cases "(s, l)" rule: event_at.cases)
    (auto simp: event_of_def silent_def sharing_of_def dom_conns split: option.split msg_type.split)

lemma sharing_cong: "clients s = clients t \<Longrightarrow> conns s = conns t \<Longrightarrow> sharing_of s = sharing_of t"
  by (simp add: sharing_of_def)

lemma sharing_simps [simp]:
  "sh_known (sharing_of s) = dom (um_find (clients s))" "sh_conns (sharing_of s) = conns s"
  by (simp_all add: sharing_of_def)

lemma dom_stamped [simp]: "um_ok (clients s) \<Longrightarrow> dom (um_find (clients (stamped s p))) = dom (um_find (clients s))"
  by (auto simp: getClient_find split: if_splits)

lemma sharing_stamped [simp]: "tables_ok s \<Longrightarrow> sharing_of (stamped s p) = sharing_of s"
  by (simp add: sharing_of_def tables_ok_def clients_ok_def)

lemma sharing_reply [simp]: "sharing_of (reply p st s) = sharing_of s" "sharing_of (upd_shm f s) = sharing_of s"
  by (rule sharing_cong; simp)+

lemma sharing_openNewWs:
  assumes "byId_ok s"
  shows "sharing_of (result_state (openNewWs s p)) = sharing_of s"
proof -
  have "um_find (websocketsById s) i \<noteq> Some (next_ref s)" for i
    using byId_okD(1) [OF assms, of i "next_ref s"] by auto
  then have "conns (result_state (openNewWs s p)) = conns s"
    by (auto simp: openNewWs_def Let_def conns_def fun_eq_iff intro!: map_option_cong split: sum.split if_splits)
  moreover have "clients (result_state (openNewWs s p)) = clients s"
    by (simp add: openNewWs_def Let_def split: sum.split)
  ultimately show ?thesis by (simp add: sharing_of_def)
qed

lemma live_stamped [simp]: "live (stamped s p) k = live s k"
  by (simp add: live_def split: option.split)

lemma sharing_openWs:
  assumes "tables_ok s" and "type_of_code (msg_type (shm s) p) = Some OpenWs"
  shows "sharing_of (result_state (openWs s p)) = sh_next (event_of s p) (sharing_of s)"
proof (cases "known s (sender s p)")
  case False
  then show ?thesis
    using assms by (simp add: openWs_unknown [OF False] event_of_def)
next
  case True
  have b: "byId_ok (stamped s p)"
    using tables_ok_getClient [OF assms(1)] by (simp add: tables_ok_def)
  show ?thesis
  proof (cases "live s (open_key (shm s) p)")
    case None
    with True show ?thesis
      using assms by (simp add: openWs_not_live [OF True None] event_of_def sharing_openNewWs [OF b])
  next
    case (Some r)
    have "um_ok (clients s)" using assms(1) by (simp add: tables_ok_defs)
    with True Some assms show ?thesis
      by (simp add: openWs_live [OF True Some] event_of_def)
        (simp add: sharing_of_def conns_share_ws [OF b])
  qed
qed

lemma handler_event:
  assumes "tables_ok s"
  shows "sharing_of (result_state (handleClientMessage s p)) = sh_next (event_of s p) (sharing_of s)"
proof -
  have b: "byId_ok s" "byId_ok (stamped s p)" and ok: "um_ok (clients s)"
    using assms tables_ok_getClient [OF assms] by (simp_all add: tables_ok_defs)
  have "sharing_of (handleClientRegistration s p) = sh_next (Registers (sender s p)) (sharing_of s)"
    by (auto simp: sharing_of_def registration_clients um_laws ok conns_def fun_eq_iff split: if_splits)
  moreover have "sharing_of (unregisterClient s (sender s p)) =
      (if known s (sender s p) then sh_next (Unregisters (sender s p)) (sharing_of s) else sharing_of s)"
    using ok by (auto simp: unregister_drop sharing_of_def conns_unregister_iter [OF b(1)] um.lookup_remove
        split: if_splits)
  moreover have "sharing_of (closeWs s p) = (if known s (sender s p)
      then sh_next (Leaves (load_u64 (shm s) (fld WsClose_layout ''id'' p)) (sender s p)) (sharing_of s) else sharing_of s)"
    using assms ok by (simp add: closeWs_def split_beta) (simp add: sharing_of_def conns_closeWs_id [OF b(2)] closeWs_id_effects)
  moreover have "sharing_of (handleSubscribe s p) = sharing_of s" "sharing_of (handleUnsubscribe s p) = sharing_of s"
    using ok by (simp_all add: sharing_of_def subscribe_fields unsubscribe_fields conns_handleSubscribe conns_handleUnsubscribe)
  moreover have "sharing_of (sendWsRequest s p) = sharing_of s"
  proof -
    have "clients (sendWsRequest s p) = clients (stamped s p)"
      by (simp add: sendWsRequest_def split_beta Let_def split: option.split)
    then show ?thesis using ok by (simp add: sharing_of_def conns_sendWsRequest)
  qed
  moreover have "sharing_of (emit a s) = sharing_of s" for a by (rule sharing_cong) simp_all
  ultimately show ?thesis
    using sharing_openWs [OF assms, of p] assms
    by (cases "type_of_code (msg_type (shm s) p)"; (cases "the (type_of_code (msg_type (shm s) p))")?)
      (simp_all add: handleClientMessage_def event_of_def handleClientHeartbeat_def)
qed

section \<open>Every step is explained\<close>

lemma removeClosedSockets_byId:
  assumes "um_ok (websocketsById s)"
  shows "um_find (websocketsById (removeClosedSockets ids s)) i =
    (if i \<in> set ids then None else um_find (websocketsById s) i)"
  using assms
  by (induction ids s rule: removeClosedSockets.induct)
    (auto simp: um.ok_remove um.lookup_remove split: option.split)

lemma sharing_removeClosedSockets:
  assumes "tables_ok s"
  shows "sharing_of (removeClosedSockets ids s) = sh_drop (set ids) (sharing_of s)"
proof -
  have "um_ok (websocketsById s)" using assms by (simp add: tables_ok_defs)
  then have "conns (removeClosedSockets ids s) = conns s |` (- set ids)"
    by (auto simp: conns_def restrict_map_def removeClosedSockets_byId fun_eq_iff)
  moreover have "clients (removeClosedSockets ids s) = clients s" by simp
  ultimately show ?thesis by (simp add: sharing_of_def sh_drop_def)
qed

text \<open>Only a request to open with a malformed url makes the handler throw.\<close>

lemma isl_openNewWs:
  "isl (openNewWs s p) \<longleftrightarrow> isl (parse_url (open_url (shm s) p))"
  by (simp add: openNewWs_def Let_def Websocket_new_def new_mark_fields split: sum.split)

lemma isl_handleClientMessage: "isl (handleClientMessage s p) \<longleftrightarrow> rejects s p"
proof (cases "type_of_code (msg_type (shm s) p) = Some OpenWs \<and> known s (sender s p)")
  case True
  then show ?thesis
    by (cases "live s (open_key (shm s) p)")
      (simp_all add: rejects_def handleClientMessage_def openWs_live openWs_not_live isl_openNewWs)
next
  case False
  then show ?thesis
    by (auto simp: rejects_def handleClientMessage_def openWs_unknown split: option.split msg_type.split)
qed

lemma poll_event:
  assumes "tables_ok s"
  shows "sharing_of (result_state (processClientMessage s rd ids)) =
    sh_drop (dropped_at s (Polls rd ids)) (sh_next (event_at s (Polls rd ids)) (sharing_of s))"
proof -
  let ?h = "case rd of Some p \<Rightarrow> handleClientMessage s p | None \<Rightarrow> Inr s"
  let ?t = "result_state (processClientMessage s rd ids)"
  have ok: "tables_ok (result_state ?h)"
    using assms by (simp add: tables_ok_handleClientMessage split: option.split)
  have h: "sharing_of (result_state ?h) = sh_next (event_at s (Polls rd ids)) (sharing_of s)"
    using handler_event [OF assms] by (cases rd) simp_all
  have thrown: "isl ?h \<longleftrightarrow> (\<exists>p. rd = Some p \<and> rejects s p)"
    by (cases rd) (simp_all add: isl_handleClientMessage)
  show ?thesis
  proof (cases ?h)
    case (Inl a)
    then have "sharing_of ?t = sharing_of (result_state ?h)"
      by (cases a) (simp add: processClientMessage_result)
    moreover have "dropped_at s (Polls rd ids) = {}" using thrown Inl by simp
    ultimately show ?thesis using h by (simp only: sh_drop_empty)
  next
    case (Inr s1)
    have post: "sharing_of (post x y) = sharing_of y" "sharing_of (tick y) = sharing_of y" for x y
      by (rule sharing_cong; simp)+
    have "sharing_of ?t = sharing_of (removeClosedSockets ids s1)"
      using Inr by (simp add: processClientMessage_result Let_def post)
    moreover have "dropped_at s (Polls rd ids) = set ids" using thrown Inr by (simp only: dropped_at.simps sum.disc if_False)
    ultimately show ?thesis
      using sharing_removeClosedSockets [of s1 ids] ok h Inr by simp
  qed
qed

lemma take_task_fields [simp]:
  "clients (take_task x s) = clients s" "env (take_task x s) = env s"
  by (simp_all add: take_task_def)

lemma event_of_cong:
  assumes "shm s = shm t" "clients s = clients t" "websocketsById s = websocketsById t"
    "websocketsByUrlApiKey s = websocketsByUrlApiKey t" "heap s = heap t"
  shows "event_of s p = event_of t p"
  unfolding event_of_def live_def assms ..

lemma event_of_take [simp]: "event_of (take_task x s) p = event_of s p"
  by (rule event_of_cong) (simp_all add: take_task_def)

lemma live_take [simp]: "live (take_task x s) k = live s k"
  by (cases "fm_find (websocketsByUrlApiKey s) k") (simp_all add: live_def take_task_def)

lemma at_take [simp]:
  "event_at (take_task x s) (Polls rd ids) = event_at s (Polls rd ids)"
  "dropped_at (take_task x s) (Polls rd ids) = dropped_at s (Polls rd ids)"
proof -
  have "rejects (take_task x s) p = rejects s p" for p
    unfolding rejects_def live_take by (simp add: take_task_def)
  then show "dropped_at (take_task x s) (Polls rd ids) = dropped_at s (Polls rd ids)" by simp
  show "event_at (take_task x s) (Polls rd ids) = event_at s (Polls rd ids)" by (cases rd) simp_all
qed

lemma sharing_check_clients:
  assumes "tables_ok s"
  shows "sharing_of (check_clients now cs s) =
    sh_next (Expire {q. \<exists>c. (q, c) \<in> set cs \<and> heartbeat_lost now c}) (sharing_of s)"
  using check_clients_clients [of s now cs] conns_check_clients [OF assms, of now cs] assms
  by (auto simp: sharing_of_def tables_ok_defs split: if_splits)

lemma sharing_heartbeat:
  assumes "tables_ok s"
  shows "sharing_of (startHeartbeat s) = sh_next (Expire (silent s (get_timestamp s))) (sharing_of s)"
proof -
  let ?now = "get_timestamp s"
  let ?s = "snd (sendHeartbeat (tick s) ?now)"
  have ok: "um_ok (clients s)" and b: "byId_ok s" using assms by (simp_all add: tables_ok_defs)
  have L: "silent s ?now = {q. \<exists>c. (q, c) \<in> set (clients s) \<and> heartbeat_lost ?now c}"
    by (simp add: silent_def um_set_iff [OF ok] heartbeat_lost_def)
  have s: "sharing_of ?s = sharing_of s" by (rule sharing_cong) simp_all
  have "sharing_of (startHeartbeat s) = sharing_of (snd (checkHeartbeats s))"
    unfolding startHeartbeat_def Let_def by (auto intro: sharing_cong)
  also have "\<dots> = sh_next (Expire (silent s ?now)) (sharing_of s)"
  proof (cases "clients s = []")
    case True
    then show ?thesis
      using abs_drop_empty [OF b] by (simp add: checkHeartbeats_def sharing_of_def L)
  next
    case False
    then have "snd (checkHeartbeats s) = check_clients ?now (clients s) ?s"
      by (simp add: checkHeartbeats_def split_beta)
    with sharing_check_clients [of ?s ?now "clients s"] assms s show ?thesis by (simp add: L)
  qed
  finally show ?thesis .
qed

lemma sharing_take [simp]:
  "sharing_of (take_task x s) = sharing_of s" "sharing_of (take_io op s) = sharing_of s"
  "sharing_of (take_open po s) = sharing_of s" "sharing_of (shutdown s) = sharing_of s"
  "sharing_of (shutdown_timer_task s) = sharing_of s" "sharing_of (emit a s) = sharing_of s"
  by (rule sharing_cong; simp add: take_defs shutdown_def shutdown_timer_task_def conns_def fun_eq_iff)+

lemma sharing_ws_step: "sharing_of (ws_step s r e) = sharing_of s"
  using conns_mild [OF mild_ws_step, of s r e] by (cases e) (simp_all add: sharing_of_def)

text \<open>A completed attempt has the sender of its request, as it is read then, as its only client.\<close>

lemma conns_established:
  assumes "tables_ok s" and "fresh_opens s" and "po \<in> set (opens s)" and "po_phase po = WsHandshaking"
    and "oc_error oc = None" and "um_find (websocketsById s) (ws_id (heap s (po_ref po))) = None"
  shows "conns (resume_open s po oc) = abs_join (ws_id (heap s (po_ref po))) (sender s (po_msg po)) (conns s)"
proof -
  let ?r = "po_ref po" and ?s = "take_open po s"
  let ?u = "start_io (ReadOp ?r) (set_ws_status ?r CONNECTED ?s)"
  have u: "resume_open s po oc = open_callback ?r (po_msg po) True ?u"
    using assms(4,5) by (simp add: resume_open_def)
  have ok: "tables_ok ?s" "detached ?s ?r"
    using tables_ok_detach [OF assms(1,3)] by (simp_all add: take_open_def)
  have free: "um_find (websocketsById s) i \<noteq> Some ?r" for i
    using ok(2) by (simp add: detached_def take_open_def)
  have snd: "sender (open_callback ?r p True x) p = sender x p" for x p
    by (simp add: open_callback_def Let_def layout)
  have h: "heap ?u ?r = (heap s ?r)\<lparr>ws_status := CONNECTED\<rparr>" by (simp add: take_open_def)
  have d: "byId_ok ?u" "detached ?u ?r"
    using tables_ok_detached_upd [OF ok, of ?u "(heap ?s ?r)\<lparr>ws_status := CONNECTED\<rparr>"] ok
    by (auto simp: tables_ok_def subs_ok_def)
  have "ws_clients (heap s ?r) = {}" using assms(2,3) by (auto simp: fresh_opens_def)
  then have "conns (resume_open s po oc) = abs_join (ws_id (heap s ?r)) (sender s (po_msg po)) (conns ?u)"
    using conns_open_callback [OF d, of "po_msg po"] assms(6)
    by (simp add: u h snd) (simp add: take_open_def)
  moreover have "conns ?u = conns s"
    using free by (auto simp: conns_def fun_eq_iff take_open_def intro!: map_option_cong split: if_splits)
  ultimately show ?thesis by simp
qed

lemma sharing_resume:
  assumes "tables_ok s" and "fresh_opens s" and "po \<in> set (opens s)"
  shows "sharing_of (resume_open s po oc) = sh_next (event_at s (Resumes po oc)) (sharing_of s)"
proof -
  let ?r = "po_ref po" and ?s = "take_open po s" and ?i = "ws_id (heap s (po_ref po))"
  have ok: "tables_ok ?s" "detached ?s ?r"
    using tables_ok_detach [OF assms(1,3)] by (simp_all add: take_open_def)
  have free: "um_find (websocketsById s) i \<noteq> Some ?r" for i
    using ok(2) by (simp add: detached_def take_open_def)
  have quiet: "sharing_of u = sharing_of s"
    if "clients u = clients s" "websocketsById u = websocketsById s" "\<forall>x. x \<noteq> ?r \<longrightarrow> heap u x = heap s x" for u
  proof -
    have "conns u i = conns s i" for i
      using that(2,3) free [of i] by (cases "um_find (websocketsById s) i") (auto simp: conns_def)
    with that(1) show ?thesis by (simp add: sharing_of_def fun_eq_iff)
  qed
  show ?thesis
  proof (cases "po_phase po = WsHandshaking \<and> oc_error oc = None")
    case False
    have fail: "sharing_of (websocket_fail ?s ?r er (Some (open_callback ?r (po_msg po))) True) = sharing_of s" for er
      by (rule quiet) (simp_all add: websocket_fail_def open_callback_def heap_close Let_def take_open_def)
    have "sharing_of (resume_open s po oc) = sharing_of s"
      using False by (cases "po_phase po")
        (auto simp: resume_open_def Let_def fail split: option.split intro!: quiet, simp_all add: take_open_def)
    then show ?thesis using False by auto
  next
    case True
    let ?u = "start_io (ReadOp ?r) (set_ws_status ?r CONNECTED ?s)"
    have u: "resume_open s po oc = open_callback ?r (po_msg po) True ?u"
      using True by (simp add: resume_open_def)
    show ?thesis
    proof (cases "um_find (websocketsById s) ?i")
      case (Some x)
      have "um_emplace (websocketsById s) ?i ?r = websocketsById s"
        using Some by (simp add: um_emplace_def um_find_def)
      then have "sharing_of (resume_open s po oc) = sharing_of s"
        unfolding u by (intro quiet) (simp_all add: open_callback_fields take_open_def)
      then show ?thesis using Some by simp
    next
      case None
      have "conns (resume_open s po oc) = abs_join ?i (sender s (po_msg po)) (conns s)"
        using conns_established [OF assms] True None by simp
      then have "sharing_of (resume_open s po oc) = sh_next (Established ?i (sender s (po_msg po))) (sharing_of s)"
        by (simp add: sharing_of_def u open_callback_fields(1)) (simp add: take_open_def)
      then show ?thesis using True None by simp
    qed
  qed
qed

lemma step_exact:
  assumes "tables_ok s" and "fresh_opens s" and "loop_can l s"
  shows "sharing_of (loop_do l s) = sh_drop (dropped_at s l) (sh_next (event_at s l) (sharing_of s))"
proof (cases l)
  case (Polls rd ids)
  with poll_event [of "take_task ProcessClientMessage s" rd ids] assms(1) show ?thesis
    by (simp del: event_at.simps dropped_at.simps)
next
  case (Resumes po oc)
  with sharing_resume [OF assms(1,2)] assms(3) show ?thesis by simp
next
  case Beat
  have "get_timestamp (take_task StartHeartbeat s) = get_timestamp s"
    by (simp add: get_timestamp_def take_task_def)
  with sharing_heartbeat [of "take_task StartHeartbeat s"] assms(1) Beat show ?thesis
    by (simp add: silent_def del: sh_next.simps)
next
  case FirstBeat
  let ?s = "take_task FirstHeartbeat s"
  let ?u = "snd (sendHeartbeat (tick ?s) (get_timestamp ?s))"
  have "sharing_of ?u = sharing_of ?s" by (rule sharing_cong) simp_all
  moreover have "ticks ?u = Suc (ticks s)"
    by (simp add: sendHeartbeat_def sendMessageToClient_at_def Let_def emit_def tick_def take_task_def)
  then have "get_timestamp ?u = reading s FirstBeat" by (simp add: get_timestamp_def tick_def)
  ultimately show ?thesis
    using sharing_heartbeat [of ?u] assms(1) FirstBeat
    by (simp add: first_heartbeat_task_def silent_def del: sh_next.simps)
next
  case ShutsDown
  have c: "clients (close_all kvs x) = clients x" for kvs x
    by (induction kvs x rule: close_all.induct) (simp_all add: Let_def)
  with ShutsDown show ?thesis
    by (simp add: shutdown_task_def Let_def sharing_of_def c) (simp add: conns_def take_task_def fun_eq_iff)
next
  case (Written r b ec n)
  then show ?thesis using sharing_ws_step [of _ r "WsWritten ec n"] by simp
next
  case (Reads r ec d n)
  then show ?thesis using sharing_ws_step [of _ r "WsRead ec d n"] by simp
next
  case (ClosedDone r ec)
  then show ?thesis using sharing_ws_step [of _ r "WsClosedDone ec"] by simp
next
  case (ClientWrites m)
  have "sharing_of (s\<lparr>shm := m\<rparr>) = sharing_of s" by (intro sharing_cong) (simp_all add: conns_def fun_eq_iff)
  with ClientWrites show ?thesis by simp
qed simp_all

interpretation shares: invariant_system loop_init loop_step "\<lambda>s. tables_ok s \<and> fresh_opens s"
proof unfold_locales
  fix s t
  show "loop_init s \<Longrightarrow> tables_ok s \<and> fresh_opens s"
    by (auto simp: loop_init_def run_start_def tables_ok_init fresh_opens_def)
  show "tables_ok s \<and> fresh_opens s \<Longrightarrow> loop_step s t \<Longrightarrow> tables_ok t \<and> fresh_opens t"
    using tables_ok_loop_step fresh_loop_step by blast
qed

section \<open>Properties\<close>

lemma abs_step_member:
  assumes "conns s i = Some S" and "q \<in> S" and "sh_can ev (sharing_of s)"
    and "\<not> (\<exists>S'. sh_conns (sh_next ev (sharing_of s)) i = Some S' \<and> q \<in> S')"
  shows "ev = Unregisters q \<or> ev = Leaves i q \<or> (\<exists>L. ev = Expire L \<and> q \<in> L) \<or> ev = Stopped"
proof (cases ev)
  case (Established j x)
  then have "conns s j = None" using assms(3) by (auto simp: conns_def)
  then have "j \<noteq> i" using assms(1) by auto
  with assms(1,2,4) Established show ?thesis by (simp add: abs_join_def)
qed (use assms in \<open>auto simp: abs_unregister_def abs_drop_def abs_leave_def abs_join_def split: option.splits if_splits\<close>)

text \<open>
  C2: Nobody loses a connection through another client.  When a step of the loop takes a client out of
  a connection it shares, then it is a turn of the polling task that read that client's own request to
  unregister or to close this very connection; or it is the check of the heartbeats, and by the time it
  read off the clock the last sign of life of this client is more than 30 s old; or a turn of the
  polling task took this connection from the queue of those whose close has been announced; or it is
  the shutdown.
\<close>

theorem membership_lost_only:
  assumes "reachable s" and "loop_can l s" and "conns s i = Some S" and "q \<in> S"
    and "\<not> (\<exists>S'. conns (loop_do l s) i = Some S' \<and> q \<in> S')"
  shows "(\<exists>p ids. l = Polls (Some p) ids \<and> sender s p = q \<and>
      (type_of_code (msg_type (shm s) p) = Some Unregister \<or>
       type_of_code (msg_type (shm s) p) = Some CloseWs \<and> load_u64 (shm s) (fld WsClose_layout ''id'' p) = i)) \<or>
    ((l = Beat \<or> l = FirstBeat) \<and>
      (\<exists>c. um_find (clients s) q = Some c \<and> reading s l - ci_last_heartbeat_time c > 30000)) \<or>
    (\<exists>rd ids. l = Polls rd ids \<and> i \<in> set ids \<and> PushClosed i \<in> set (trace s)) \<or>
    l = ShutsDown"
proof -
  have t: "conns (loop_do l s) = sh_conns (sh_next (event_at s l) (sharing_of s)) |` (- dropped_at s l)"
    using arg_cong [OF step_exact [OF _ _ assms(2)], of sh_conns] shares.inv_reach [OF assms(1)]
    by (simp add: sh_drop_def)
  show ?thesis
  proof (cases "i \<in> dropped_at s l")
    case True
    then obtain rd ids where "l = Polls rd ids" "i \<in> set ids"
      by (cases "(s, l)" rule: dropped_at.cases) (auto split: if_splits)
    then show ?thesis using assms(2) by auto
  next
    case False
    then have "\<not> (\<exists>S'. sh_conns (sh_next (event_at s l) (sharing_of s)) i = Some S' \<and> q \<in> S')"
      using assms(5) by (simp add: t)
    from abs_step_member [OF assms(3,4) event_at_can this]
    have "event_at s l = Unregisters q \<or> event_at s l = Leaves i q \<or>
      (\<exists>L. event_at s l = Expire L \<and> q \<in> L) \<or> event_at s l = Stopped" .
    then show ?thesis
      by (elim disjE exE conjE) (drule event_at_cases; force simp: silent_def)+
  qed
qed

text \<open>The reachable connection of the examples.\<close>

lemma demo_connected:
  obtains t i where "reachable t" and "um_find (websocketsById t) i = Some 0"
proof -
  obtain t i where t: "rtranclp loop_step demo_attempt t" "um_find (websocketsById t) i = Some 0"
    using attempt_run [OF refl, of "\<lparr>po_ref = 0, po_msg = 0, po_phase = Spawned\<rparr>" demo_attempt]
    by (auto simp: demo_attempt_fields)
  from t(1) have "reachable t"
    by (induction rule: rtranclp_induct) (auto intro: demo_attempt_fields(1) reach_step)
  with t(2) show ?thesis using that by blast
qed

theorem membership_lost_only_witness:
  "\<exists>s l i S q. reachable s \<and> loop_can l s \<and> conns s i = Some S \<and> q \<in> S \<and> conns (loop_do l s) i = None \<and>
    l = ShutsDown"
proof -
  obtain x i where x: "reachable x" "um_find (websocketsById x) i = Some 0" by (rule demo_connected)
  let ?s = "shutdown x"
  have s: "reachable ?s" by (rule reach_step [OF x(1) step_signal])
  have t: "loop_can ShutsDown ?s" by (simp add: shutdown_def)
  let ?S = "ws_clients (heap x 0)"
  have c: "conns ?s i = Some ?S" using x(2) by (simp add: conns_def shutdown_def)
  have "byId_ok x" using server.inv_reach [OF x(1)] by (simp add: tables_ok_def)
  then obtain q where q: "q \<in> ?S" using byId_okD(3) [OF _ x(2)] by blast
  have n: "conns (loop_do ShutsDown ?s) i = None" by (simp add: conns_def shutdown_task_def Let_def)
  from membership_lost_only [OF s t c q] n have "\<exists>l. l = ShutsDown" by blast
  with s t c q n show ?thesis by blast
qed

end
