(* ===== verification/Answers.thy ===== *)
theory Answers
  imports Memory_Frame Sharing_Machine
begin

text \<open>
  Which requests are answered: one that expects a reply is answered when it is read, or an attempt to
  connect works on it, unless it asks for a new connection to a url with a malformed port; and no
  attempt goes without an answer.
\<close>

section \<open>Answered and pending\<close>

definition answered :: "proxy \<Rightarrow> nat \<Rightarrow> bool" where
  "answered s p \<longleftrightarrow> msg_status (shm s) p \<in> {status_code SUCCESS, status_code FAILED}"

definition pending :: "proxy \<Rightarrow> nat \<Rightarrow> bool" where
  "pending s p \<longleftrightarrow> (\<exists>po \<in> set (opens s). po_msg po = p)"

lemma answered_reply [simp]: "answered (reply p st s) p \<longleftrightarrow> st \<noteq> PENDING"
  by (cases st) (simp_all add: answered_def)

lemma answered_close [simp]: "answered (websocket_close s r) p = answered s p"
  by (simp add: answered_def)

text \<open>What the handlers leave the sender with.\<close>

lemma openNewWs_pending:
  "(case openNewWs s p of Inr t \<Rightarrow> pending t p | Inl (e, t) \<Rightarrow> isl (parse_url (open_url (shm s) p)))"
  by (auto simp: openNewWs_def Websocket_new_def Let_def pending_def new_mark_fields split: sum.split)

lemma openWs_answers:
  "(case openWs s p of Inr t \<Rightarrow> answered t p \<or> pending t p | Inl (e, t) \<Rightarrow> isl (parse_url (open_url (shm s) p)))"
  using openNewWs_pending [of "snd (getClient s (sender s p))" p]
  by (auto simp: openWs_def split_beta Let_def share_ws_def split: option.split sum.splits)

lemma handler_answers:
  assumes "type_of_code (msg_type (shm s) p) = Some ty" and "has_reply ty"
  shows "(case handleClientMessage s p of Inr t \<Rightarrow> answered t p \<or> (ty = OpenWs \<and> pending t p)
    | Inl (e, t) \<Rightarrow> ty = OpenWs \<and> isl (parse_url (open_url (shm s) p)))"
proof (cases "ty = OpenWs")
  case True
  then show ?thesis using assms(1) openWs_answers [of s p] by (simp add: handleClientMessage_def split: sum.splits)
next
  case False
  with assms show ?thesis
    by (cases ty) (simp_all add: has_reply_def handleClientMessage_def handleClientRegistration_def closeWs_def
        sendWsRequest_def handleSubscribe_def handleUnsubscribe_def Let_def split_beta split: option.split)
qed

section \<open>The attempts a step keeps\<close>

lemma poll_opens:
  "opens (result_state (processClientMessage s rd ids)) =
    (case rd of Some p \<Rightarrow> opens (result_state (handleClientMessage s p)) | None \<Rightarrow> opens s)"
proof -
  have r: "opens (removeClosedSockets ids x) = opens x" for x
    by (induction ids x rule: removeClosedSockets.induct) (simp_all split: option.split)
  show ?thesis
    by (cases "case rd of Some p \<Rightarrow> handleClientMessage s p | None \<Rightarrow> Inr s")
      (auto simp: processClientMessage_result Let_def r split: option.splits)
qed

lemma openWs_opens: "set (opens s) \<subseteq> set (opens (result_state (openWs s p)))"
  by (auto simp: openWs_def split_beta Let_def share_ws_def openNewWs_def split: option.split sum.split)

lemma handler_opens: "set (opens s) \<subseteq> set (opens (result_state (handleClientMessage s p)))"
  using openWs_opens [of s p]
  by (auto simp: handleClientMessage_def handleClientHeartbeat_def handleClientRegistration_def closeWs_def
      closeWs_id_effects sendWsRequest_def unregister_drop subscribe_fields unsubscribe_fields drop_client_tables
      Let_def split_beta split: option.split msg_type.split)

lemma check_clients_opens: "opens (check_clients now cs s) = opens s"
  by (induction now cs s rule: check_clients.induct) simp_all

lemma close_all_opens: "opens (close_all kvs s) = opens s"
  by (induction kvs s rule: close_all.induct) (simp_all add: Let_def)

lemma startHeartbeat_opens: "opens (startHeartbeat s) = opens s"
  by (simp add: startHeartbeat_def checkHeartbeats_def Let_def split_beta check_clients_opens)

text \<open>The coroutine that runs on waits again, or has answered.\<close>

lemma resume_answers: "pending (resume_open s po oc) (po_msg po) \<or> answered (resume_open s po oc) (po_msg po)"
  by (cases "po_phase po")
    (auto simp: resume_open_def pending_def websocket_fail_def open_callback_def Let_def split: option.split)

lemma resume_opens: "set (remove1 po (opens s)) \<subseteq> set (opens (resume_open s po oc))"
  by (cases "po_phase po")
    (auto simp: resume_open_def websocket_fail_def open_callback_def Let_def take_open_def split: option.split)

lemma in_remove1: "x \<in> set xs \<Longrightarrow> x = y \<or> x \<in> set (remove1 y xs)"
  by (cases "x = y") simp_all

lemma pending_step:
  assumes "loop_step s t" and "pending s p"
  shows "pending t p \<or> answered t p"
proof -
  have keep: "pending t p" if "set (opens s) \<subseteq> set (opens t)"
    using that assms(2) by (auto simp: pending_def)
  obtain x where x: "x \<in> set (opens s)" "po_msg x = p" using assms(2) by (auto simp: pending_def)
  show ?thesis
    using assms(1)
  proof (cases rule: loop_step.cases)
    case (step_resume po oc)
    then show ?thesis
      using in_remove1 [OF x(1), of po] resume_opens [of po s oc] resume_answers [of s po oc] x(2)
      by (auto simp: pending_def)
  next
    case (step_open_exception po)
    then show ?thesis
      using in_remove1 [OF x(1), of po] x(2) by (auto simp: pending_def take_open_def)
  next
    case (step_poll ids rd)
    have "set (opens s) \<subseteq> set (opens t)"
      using handler_opens [of "take_task ProcessClientMessage s"]
      by (auto simp: step_poll(1) poll_opens take_task_def split: option.split)
    then show ?thesis using keep by blast
  qed (use keep in \<open>simp_all add: first_heartbeat_task_def startHeartbeat_opens shutdown_def shutdown_task_def
      close_all_opens shutdown_timer_task_def Let_def take_defs\<close>)
qed

section \<open>The answer to a request\<close>

lemma handled_is_answered:
  assumes "type_of_code (msg_type (shm s) p) = Some ty" and "has_reply ty" and "\<not> rejects s p"
    and "t = result_state (processClientMessage (take_task ProcessClientMessage s) (Some p) ids)"
  shows "answered t p \<or> (ty = OpenWs \<and> pending t p)"
proof -
  let ?s = "take_task ProcessClientMessage s"
  have s: "shm ?s = shm s" by (simp add: take_task_def)
  have "\<not> rejects ?s p" using assms(3) by (simp add: rejects_def s)
  then have "\<not> isl (handleClientMessage ?s p)" by (simp add: isl_handleClientMessage)
  then obtain u where u: "handleClientMessage ?s p = Inr u"
    by (cases "handleClientMessage ?s p") simp_all
  have "answered t p = answered u p" "pending t p = pending u p"
    by (simp_all add: assms(4) answered_def pending_def poll_shm poll_opens u)
  with handler_answers [of ?s p ty] assms(1,2) u s show ?thesis by simp
qed

text \<open>
  C8: Every turn of the polling task that reads a request which expects a reply - to register, open,
  close, send, subscribe or unsubscribe - leaves it answered, or, if it asks to open a connection, with an
  attempt that works on it; except for a request of a known client for a new connection whose url has a
  malformed port, on which the handler throws.  And no step of the loop, whatever else it does, drops an
  attempt without having answered its request.
\<close>

theorem requests_answered:
  assumes "loop_can l s"
  shows "(\<forall>p ids ty. l = Polls (Some p) ids \<and> type_of_code (msg_type (shm s) p) = Some ty \<and> has_reply ty \<and>
        \<not> (ty = OpenWs \<and> known s (sender s p) \<and> live s (open_key (shm s) p) = None \<and>
            isl (parse_url (open_url (shm s) p))) \<longrightarrow>
      answered (loop_do l s) p \<or> (ty = OpenWs \<and> pending (loop_do l s) p)) \<and>
    (\<forall>p. pending s p \<longrightarrow> pending (loop_do l s) p \<or> answered (loop_do l s) p)"
proof (intro conjI allI impI)
  fix p ids ty
  assume a: "l = Polls (Some p) ids \<and> type_of_code (msg_type (shm s) p) = Some ty \<and> has_reply ty \<and>
    \<not> (ty = OpenWs \<and> known s (sender s p) \<and> live s (open_key (shm s) p) = None \<and>
        isl (parse_url (open_url (shm s) p)))"
  then have "\<not> rejects s p" by (auto simp: rejects_def)
  with a show "answered (loop_do l s) p \<or> (ty = OpenWs \<and> pending (loop_do l s) p)"
    using handled_is_answered [of s p ty "loop_do l s" ids] by simp
next
  fix p
  assume "pending s p"
  with pending_step [OF loop_can_step [OF assms]] show "pending (loop_do l s) p \<or> answered (loop_do l s) p" .
qed

theorem requests_answered_witness:
  "answered demo_registered 0"
proof -
  have "msg_type (shm demo_start) 0 = type_code Register" by (simp add: demo_start_def run_start_def layout)
  then have ty: "type_of_code (msg_type (shm demo_start) 0) = Some Register" by (simp only: type_of_code_type_code)
  have can: "loop_can (Polls (Some 0) []) demo_start" by (simp add: demo_start_def run_start_def)
  have r: "has_reply Register" by (simp add: has_reply_def)
  have "loop_do (Polls (Some 0) []) demo_start = demo_registered" by (simp add: demo_registered_def)
  with requests_answered [OF can] ty r show ?thesis by fastforce
qed

end
