(* ===== verification/Client.thy ===== *)
theory Client
  imports Wire
begin

text \<open>
  The client library, \<open>include/websocket_proxy/websocket_proxy_client.h\<close>: the state of a
  \<open>WebsocketProxyClient\<close>, one definition per method, and one iteration of the worker thread's loop.
  The methods of the application's thread and the iterations of the worker are steps on one state.

  Memory shared with the server changes while a method waits: \<open>status k\<close> is what the \<open>k\<close>-th load of
  the awaited status sees, and \<open>m\<close>, \<open>p\<close> are the memory and address of the message when the wait is
  over.  A message is built in its private block (\<open>reserve_block\<close>) and published as bytes.
  Logging, and the thread and process handles, are not modelled.
\<close>

section \<open>State\<close>

datatype client_action =
    Sent string
  | OnDisconnected
  | OnOpened u64
  | OnClosed u64
  | OnError u64 string u32
  | OnData u64 string u32 u32

record client =
  cl_clock :: "nat \<Rightarrow> u64"
  cl_ticks :: nat
  cl_pid :: u64
  cl_name :: string
  cl_id :: u64
  cl_last_heartbeat_time :: u64
  cl_last_server_heartbeat_time :: u64
  cl_server_pid :: u64
  cl_server_queue :: bool
  cl_client_queue :: bool
  cl_server_queue_index :: u64
  cl_websockets :: "u64 list"
  cl_trace :: "client_action list"

definition WebsocketProxyClient_init :: "(nat \<Rightarrow> u64) \<Rightarrow> u64 \<Rightarrow> string \<Rightarrow> client" where
  "WebsocketProxyClient_init clock p name = \<lparr>cl_clock = clock, cl_ticks = 0, cl_pid = p, cl_name = name,
     cl_id = 0, cl_last_heartbeat_time = 0, cl_last_server_heartbeat_time = 0, cl_server_pid = 0,
     cl_server_queue = False, cl_client_queue = False, cl_server_queue_index = 0,
     cl_websockets = [], cl_trace = []\<rparr>"

text \<open>The constructor throws when the server's executable is not there.\<close>

definition WebsocketProxyClient_new :: "bool \<Rightarrow> (nat \<Rightarrow> u64) \<Rightarrow> u64 \<Rightarrow> string \<Rightarrow> client option" where
  "WebsocketProxyClient_new exe_exists clock p name =
     (if exe_exists then Some (WebsocketProxyClient_init clock p name) else None)"

definition cl_now :: "client \<Rightarrow> u64" where
  "cl_now c = cl_clock c (cl_ticks c)"

definition cl_tick :: "client \<Rightarrow> client" where
  "cl_tick c = c\<lparr>cl_ticks := Suc (cl_ticks c)\<rparr>"

definition cl_emit :: "client_action \<Rightarrow> client \<Rightarrow> client" where
  "cl_emit a c = c\<lparr>cl_trace := cl_trace c @ [a]\<rparr>"

text \<open>
  What a method ends in: \<open>None\<close> if it does not return, \<open>Inl\<close> if the C library ends the process.
\<close>

datatype abort = InvalidParameter

type_synonym 'a answer = "(abort + 'a \<times> client) option"

section \<open>Sending\<close>

text \<open>
  Here and in every method that sends, \<open>client_queue_\<close> is taken to be there, as it is from the first
  \<open>connect\<close> that found or spawned the server: before, the code dereferences a null pointer, which C++
  leaves undefined.
\<close>

definition client_sendMessage :: "client \<Rightarrow> mem \<Rightarrow> u32 \<Rightarrow> client" where
  "client_sendMessage c m sz =
     (let c1 = cl_emit (Sent (load (set_status m 0 PENDING) 0 (unat sz))) c
      in (cl_tick c1)\<lparr>cl_last_heartbeat_time := cl_now c1\<rparr>)"

definition client_sendHeartbeat :: "client \<Rightarrow> u64 \<Rightarrow> bool \<times> client" where
  "client_sendHeartbeat c now =
     (if cl_server_pid c \<noteq> 0 \<and> now - cl_last_heartbeat_time c > HEARTBEAT_INTERVAL then
        (True, client_sendMessage c (set_type (reserve_block (cl_pid c)) 0 Heartbeat)
           (of_nat (sizeof Message_layout)))
      else (False, c))"

text \<open>The loop of \<open>waitForResponse\<close>: \<open>None\<close> if neither an answer nor the timeout ever comes.\<close>

partial_function (option) wait_loop ::
    "(nat \<Rightarrow> u8) \<Rightarrow> u64 \<Rightarrow> u64 \<Rightarrow> nat \<Rightarrow> client \<Rightarrow> (bool \<times> client) option" where
  "wait_loop status start timeout k c =
     (if status k = status_code PENDING then
        (if cl_now c - start > timeout then Some (False, cl_tick c)
         else wait_loop status start timeout (Suc k)
           (snd (client_sendHeartbeat (cl_tick c) (cl_now c))))
      else Some (True, c))"

definition waitForResponse :: "(nat \<Rightarrow> u8) \<Rightarrow> u32 \<Rightarrow> client \<Rightarrow> (bool \<times> client) option" where
  "waitForResponse status timeout c =
     wait_loop status (cl_now c) (ucast timeout) 0 (cl_tick c)"

section \<open>The messages\<close>

text \<open>
  Both overloads of \<open>reserveMessage\<close>: a zeroed block that carries the client's pid; its size goes to
  \<open>sendMessage\<close>.
\<close>

definition client_reserveMessage :: "client \<Rightarrow> mem" where
  "client_reserveMessage c = reserve_block (cl_pid c)"

declare client_reserveMessage_def [simp]

definition register_msg :: "client \<Rightarrow> mem option" where
  "register_msg c =
     (let m0 = set_type (client_reserveMessage c) 0 Register
      in case strcpy_s m0 (fld RegisterMessage_layout ''name'' 0) 31 (cl_name c) of
           None \<Rightarrow> None
         | Some m1 \<Rightarrow> Some (store m1 (fld RegisterMessage_layout ''name'' 0 + 31) [CHR 0x00]))"

definition unregister_msg :: "client \<Rightarrow> mem" where
  "unregister_msg c = set_type (client_reserveMessage c) 0 Unregister"

definition open_msg :: "client \<Rightarrow> string \<Rightarrow> string \<Rightarrow> mem option" where
  "open_msg c url api_key =
     (let m0 = set_type (client_reserveMessage c) 0 OpenWs
      in case strcpy_s m0 (fld WsOpen_layout ''url'' 0) 512 url of
           None \<Rightarrow> None
         | Some m1 \<Rightarrow> strcpy_s m1 (fld WsOpen_layout ''api_key'' 0) 512 api_key)"

definition close_msg :: "client \<Rightarrow> u64 \<Rightarrow> mem" where
  "close_msg c i =
     store_u64 (set_type (client_reserveMessage c) 0 CloseWs) (fld WsClose_layout ''id'' 0)
       (if i = 0 then cl_id c else i)"

text \<open>The copies of \<open>subscribe\<close> and \<open>unsubscribe\<close> take the symbol's own size.\<close>

definition subscribe_msg :: "client \<Rightarrow> u64 \<Rightarrow> string \<Rightarrow> string \<Rightarrow> u32 \<Rightarrow> u8 \<Rightarrow> mem" where
  "subscribe_msg c i symbol request request_len ty =
     (let m0 = set_type (client_reserveMessage c) 0 Subscribe;
          m1 = store_u32 m0 (fld WsSubscription_layout ''request_len'' 0) request_len;
          m2 = store_u64 m1 (fld WsSubscription_layout ''id'' 0) i;
          m3 = store_u8 m2 (fld WsSubscription_layout ''type'' 0) ty;
          m4 = store m3 (fld WsSubscription_layout ''symbol'' 0) symbol
      in store m4 (fld WsSubscription_layout ''request'' 0) (take (unat request_len) request))"

definition unsubscribe_msg :: "client \<Rightarrow> u64 \<Rightarrow> string \<Rightarrow> string \<Rightarrow> u32 \<Rightarrow> mem" where
  "unsubscribe_msg c i symbol request request_len =
     (let m0 = set_type (client_reserveMessage c) 0 Unsubscribe;
          m1 = store_u32 m0 (fld WsSubscription_layout ''request_len'' 0) request_len;
          m2 = store_u64 m1 (fld WsSubscription_layout ''id'' 0) i;
          m3 = store_u8 m2 (fld WsSubscription_layout ''existing'' 0) 0;
          m4 = store m3 (fld WsSubscription_layout ''symbol'' 0) symbol
      in store m4 (fld WsSubscription_layout ''request'' 0) (take (unat request_len) request))"

definition log_level_msg :: "client \<Rightarrow> u8 \<Rightarrow> mem" where
  "log_level_msg c level =
     store_u8 (set_type (client_reserveMessage c) 0 LogLevel) (fld LogLevel_layout ''level'' 0) level"

definition request_msg :: "client \<Rightarrow> u64 \<Rightarrow> string \<Rightarrow> u32 \<Rightarrow> mem" where
  "request_msg c i data len =
     (let m0 = set_type (client_reserveMessage c) 0 WsRequest;
          m1 = store_u32 m0 (fld WsRequest_layout ''len'' 0) len;
          m2 = store_u64 m1 (fld WsRequest_layout ''id'' 0) i
      in store m2 (fld WsRequest_layout ''data'' 0) (take (unat len) data))"

section \<open>Connecting\<close>

text \<open>
  \<open>isProcessRunning\<close> of a name, on the executables of a snapshot of the processes (empty when
  \<open>Process32First\<close> fails).  The entry that \<open>Process32First\<close> yields is not compared.
\<close>

fun isProcessRunning_name :: "string list \<Rightarrow> string \<Rightarrow> bool" where
  "isProcessRunning_name [] name = False"
| "isProcessRunning_name (first # entries) name = list_ex (\<lambda>exe. stricmp_eq exe name) entries"

text \<open>
  What the operating system answers while the server is looked for and started: the executables of the
  running processes in the order of the snapshot, whether a process could be created, how often the clock is read until it runs, how many
  attempts to open the server's queue fail, whether the client's queue can be opened, and where
  reading starts.
\<close>

record spawn_world =
  sp_processes :: "string list"
  sp_created :: bool
  sp_readings :: nat
  sp_failures :: nat
  sp_client_queue :: bool
  sp_index :: u64

definition spawnWebsocketsProxyServer :: "spawn_world \<Rightarrow> client \<Rightarrow> bool \<times> client" where
  "spawnWebsocketsProxyServer w c =
     (let running = isProcessRunning_name (sp_processes w) ''websocket_proxy.exe'' in
      if \<not> running \<and> \<not> sp_created w then (False, c)
      else
        (let c1 = (if running then c else c\<lparr>cl_ticks := cl_ticks c + sp_readings w\<rparr>);
             c2 = (if sp_failures w < 5 then c1\<lparr>cl_server_queue := True\<rparr> else c1)
         in if \<not> cl_server_queue c2 then (False, c2)
            else if \<not> sp_client_queue w then (False, c2)
            else (True, c2\<lparr>cl_client_queue := True, cl_server_queue_index := sp_index w\<rparr>)))"

text \<open>\<open>ready k\<close>: the \<open>k\<close>-th read of the server's queue returned a message.\<close>

partial_function (option) ready_loop ::
    "(nat \<Rightarrow> bool) \<Rightarrow> u64 \<Rightarrow> nat \<Rightarrow> client \<Rightarrow> (bool \<times> client) option" where
  "ready_loop ready start k c =
     (if cl_now c - start < 10000 then
        (if ready k then Some (True, cl_tick c) else ready_loop ready start (Suc k) (cl_tick c))
      else Some (False, cl_tick c))"

definition waitForServerReady :: "(nat \<Rightarrow> bool) \<Rightarrow> client \<Rightarrow> (bool \<times> client) option" where
  "waitForServerReady ready c = ready_loop ready (cl_now c) 0 (cl_tick c)"

definition client_register :: "(nat \<Rightarrow> u8) \<Rightarrow> mem \<Rightarrow> nat \<Rightarrow> client \<Rightarrow> bool answer" where
  "client_register status m p c = (case register_msg c of
     None \<Rightarrow> Some (Inl InvalidParameter)
   | Some b \<Rightarrow>
       (case waitForResponse status 20000
           (client_sendMessage c b (get_message_size RegisterMessage_layout 0)) of
          None \<Rightarrow> None
        | Some (False, c1) \<Rightarrow> Some (Inr (False, c1))
        | Some (True, c1) \<Rightarrow>
            (let c2 = (cl_tick c1)\<lparr>cl_last_server_heartbeat_time := cl_now c1\<rparr>
             in if msg_status m p = status_code FAILED then Some (Inr (False, c2))
                else Some (Inr (True, c2\<lparr>cl_server_pid :=
                       load_u64 m (fld RegisterMessage_layout ''server_pid'' p)\<rparr>)))))"

text \<open>Everything the world outside contributes to \<open>connect\<close>.\<close>

record connect_world =
  cw_spawn :: spawn_world
  cw_ready :: "nat \<Rightarrow> bool"
  cw_status :: "nat \<Rightarrow> u8"
  cw_mem :: mem
  cw_at :: nat

definition client_connect :: "connect_world \<Rightarrow> client \<Rightarrow> bool answer" where
  "client_connect w c = (case spawnWebsocketsProxyServer (cw_spawn w) c of
     (False, c1) \<Rightarrow> Some (Inr (False, c1))
   | (True, c1) \<Rightarrow>
       (case (if cl_server_queue_index c1 \<noteq> 0 then Some (True, c1) else waitForServerReady (cw_ready w) c1) of
          None \<Rightarrow> None
        | Some (False, c2) \<Rightarrow> Some (Inr (False, c2))
        | Some (True, c2) \<Rightarrow> client_register (cw_status w) (cw_mem w) (cw_at w) c2))"

definition client_unregister :: "client \<Rightarrow> client" where
  "client_unregister c =
     (client_sendMessage c (unregister_msg c) (of_nat (sizeof Message_layout)))\<lparr>cl_server_pid := 0\<rparr>"

section \<open>Opening and closing\<close>

text \<open>The result says whether a message was sent.\<close>

definition sendOpenMessage :: "connect_world \<Rightarrow> string \<Rightarrow> string \<Rightarrow> client \<Rightarrow> bool answer" where
  "sendOpenMessage w url api_key c =
     (if length url > 255 then Some (Inr (False, c))
      else (case (if cl_server_pid c = 0 then client_connect w c else Some (Inr (True, c))) of
         None \<Rightarrow> None
       | Some (Inl e) \<Rightarrow> Some (Inl e)
       | Some (Inr (False, c1)) \<Rightarrow> Some (Inr (False, c1))
       | Some (Inr (True, c1)) \<Rightarrow> (case open_msg c1 url api_key of
           None \<Rightarrow> Some (Inl InvalidParameter)
         | Some b \<Rightarrow>
             Some (Inr (True, client_sendMessage c1 b (get_message_size WsOpen_layout 0))))))"

definition openWebSocketAsync :: "connect_world \<Rightarrow> string \<Rightarrow> string \<Rightarrow> client \<Rightarrow> bool answer" where
  "openWebSocketAsync w url api_key c = sendOpenMessage w url api_key c"

definition openWebSocket ::
    "connect_world \<Rightarrow> (nat \<Rightarrow> u8) \<Rightarrow> mem \<Rightarrow> nat \<Rightarrow> string \<Rightarrow> string \<Rightarrow> client \<Rightarrow> (u64 \<times> bool) answer" where
  "openWebSocket w status m p url api_key c = (case sendOpenMessage w url api_key c of
     None \<Rightarrow> None
   | Some (Inl e) \<Rightarrow> Some (Inl e)
   | Some (Inr (False, c1)) \<Rightarrow> Some (Inr ((0, False), c1))
   | Some (Inr (True, c1)) \<Rightarrow> (case waitForResponse status 30000 c1 of
       None \<Rightarrow> None
     | Some (False, c2) \<Rightarrow> Some (Inr ((0, False), c2))
     | Some (True, c2) \<Rightarrow>
         (let c3 = (cl_tick c2)\<lparr>cl_last_server_heartbeat_time := cl_now c2\<rparr>
          in if msg_status m p = status_code FAILED then Some (Inr ((0, False), c3))
             else Some (Inr ((load_u64 m (fld WsOpen_layout ''id'' p),
                    load_u8 m (fld WsOpen_layout ''new_connection'' p) \<noteq> 0), c3)))))"

definition closeWebSocket :: "(nat \<Rightarrow> u8) \<Rightarrow> u64 \<Rightarrow> client \<Rightarrow> (bool \<times> client) option" where
  "closeWebSocket status i c =
     (case waitForResponse status 10000
         (client_sendMessage c (close_msg c i) (get_message_size WsClose_layout 0)) of
        None \<Rightarrow> None
      | Some (False, c1) \<Rightarrow> Some (False, c1)
      | Some (True, c1) \<Rightarrow> Some (True, client_unregister c1))"

section \<open>Subscribing and sending\<close>

definition client_subscribe ::
    "(nat \<Rightarrow> u8) \<Rightarrow> u64 \<Rightarrow> string \<Rightarrow> string \<Rightarrow> u32 \<Rightarrow> u8 \<Rightarrow> client \<Rightarrow> (bool \<times> client) option" where
  "client_subscribe status i symbol request request_len ty c =
     waitForResponse status 10000
       (client_sendMessage c (subscribe_msg c i symbol request request_len ty)
          (get_message_size WsSubscription_layout request_len))"

definition client_unsubscribe ::
    "u64 \<Rightarrow> string \<Rightarrow> string \<Rightarrow> u32 \<Rightarrow> client \<Rightarrow> bool \<times> client" where
  "client_unsubscribe i symbol request request_len c =
     (True, client_sendMessage c (unsubscribe_msg c i symbol request request_len)
        (get_message_size WsSubscription_layout request_len))"

definition setLogLevel :: "u8 \<Rightarrow> client \<Rightarrow> bool \<times> client" where
  "setLogLevel level c =
     (True, client_sendMessage c (log_level_msg c level) (get_message_size LogLevel_layout 0))"

definition client_send :: "u64 \<Rightarrow> string \<Rightarrow> u32 \<Rightarrow> client \<Rightarrow> client" where
  "client_send i data len c =
     client_sendMessage c (request_msg c i data len) (get_message_size WsRequest_layout len)"

section \<open>The worker\<close>

definition handleWsOpen :: "mem \<Rightarrow> nat \<Rightarrow> client \<Rightarrow> client" where
  "handleWsOpen m p c =
     (let i = load_u64 m (fld WsOpen_layout ''id'' p)
      in if load_u64 m (fld WsOpen_layout ''client_pid'' p) = cl_pid c then
           cl_emit (OnOpened i) (c\<lparr>cl_websockets := List.insert i (cl_websockets c)\<rparr>)
         else c)"

definition handleWsClose :: "mem \<Rightarrow> nat \<Rightarrow> client \<Rightarrow> client" where
  "handleWsClose m p c =
     (let i = load_u64 m (fld WsClose_layout ''id'' p)
      in if i \<in> set (cl_websockets c) then
           cl_emit (OnClosed i) (c\<lparr>cl_websockets := remove1 i (cl_websockets c)\<rparr>)
         else c)"

definition handleWsError :: "mem \<Rightarrow> nat \<Rightarrow> client \<Rightarrow> client" where
  "handleWsError m p c =
     (let i = load_u64 m (fld WsError_layout ''id'' p);
          len = load_u32 m (fld WsError_layout ''len'' p)
      in if i \<in> set (cl_websockets c) then
           cl_emit (OnError i (load m (fld WsError_layout ''err'' p) (unat len)) len) c
         else c)"

definition handleWsData :: "mem \<Rightarrow> nat \<Rightarrow> client \<Rightarrow> client" where
  "handleWsData m p c =
     (let i = load_u64 m (fld WsData_layout ''id'' p);
          len = load_u32 m (fld WsData_layout ''len'' p)
      in if i \<in> set (cl_websockets c) then
           cl_emit (OnData i (load m (fld WsData_layout ''data'' p) (unat len)) len
             (load_u32 m (fld WsData_layout ''remaining'' p))) c
         else c)"

definition client_dispatch :: "mem \<Rightarrow> nat \<Rightarrow> client \<Rightarrow> client" where
  "client_dispatch m p c = (case type_of_code (msg_type m p) of
     Some OpenWs \<Rightarrow> handleWsOpen m p c
   | Some CloseWs \<Rightarrow> handleWsClose m p c
   | Some WsError \<Rightarrow> handleWsError m p c
   | Some WsData \<Rightarrow> handleWsData m p c
   | _ \<Rightarrow> c)"

definition server_lost :: "client \<Rightarrow> client" where
  "server_lost c =
     (let c1 = cl_emit OnDisconnected (c\<lparr>cl_server_pid := 0\<rparr>)
      in (fold (\<lambda>i. cl_emit (OnClosed i)) (cl_websockets c1) c1)\<lparr>cl_websockets := []\<rparr>)"

text \<open>One iteration of the loop of \<open>doWork\<close>; \<open>rd\<close> is the message the read returned, if any.\<close>

definition doWork :: "(mem \<times> nat) option \<Rightarrow> client \<Rightarrow> client" where
  "doWork rd c =
     (if cl_server_pid c = 0 then c
      else
        (let now = cl_now c; c1 = cl_tick c
         in case rd of
              Some (m, p) \<Rightarrow>
                (let c2 = c1\<lparr>cl_last_server_heartbeat_time := now\<rparr>
                 in if cl_server_pid c2 \<noteq> msg_pid m p then c2
                    else snd (client_sendHeartbeat (client_dispatch m p c2) now))
            | None \<Rightarrow>
                (let c2 = snd (client_sendHeartbeat c1 now)
                 in if cl_last_server_heartbeat_time c2 \<noteq> 0 \<and>
                        now - cl_last_server_heartbeat_time c2 > HEARTBEAT_TIMEOUT
                    then server_lost c2 else c2)))"

text \<open>The destructor: the worker is told to stop and awaited.\<close>

definition client_destroy :: "client \<Rightarrow> client" where
  "client_destroy c = (if cl_server_pid c \<noteq> 0 then client_unregister c else c)"

end
