(* ===== verification/Client_Facts.thy ===== *)
theory Client_Facts
  imports Client
begin

text \<open>
  What the methods of the client leave alone, what the loops return, and the invariant that ties the
  callbacks to the set of open websockets.
\<close>

section \<open>What sending leaves alone\<close>

text \<open>\<open>cl_core\<close> forgets what every send changes; \<open>callbacks\<close> is what the application is told.\<close>

definition cl_core :: "client \<Rightarrow> client" where
  "cl_core c = c\<lparr>cl_ticks := 0, cl_last_heartbeat_time := 0, cl_trace := []\<rparr>"

fun is_callback :: "client_action \<Rightarrow> bool" where
  "is_callback (Sent b) = False"
| "is_callback _ = True"

definition callbacks :: "client \<Rightarrow> client_action list" where
  "callbacks c = filter is_callback (cl_trace c)"

lemma cl_core_fields:
  assumes "cl_core c = cl_core d"
  shows "cl_clock c = cl_clock d" and "cl_pid c = cl_pid d" and "cl_name c = cl_name d" and "cl_id c = cl_id d"
    and "cl_last_server_heartbeat_time c = cl_last_server_heartbeat_time d"
    and "cl_server_pid c = cl_server_pid d" and "cl_websockets c = cl_websockets d"
  using assms by (cases c; cases d; simp add: cl_core_def)+

lemma send_frame [simp]:
  "cl_core (client_sendMessage c m sz) = cl_core c" "callbacks (client_sendMessage c m sz) = callbacks c"
  "cl_core (cl_tick c) = cl_core c" "callbacks (cl_tick c) = callbacks c"
  "cl_core (snd (client_sendHeartbeat c now)) = cl_core c"
  "callbacks (snd (client_sendHeartbeat c now)) = callbacks c"
  by (simp_all add: client_sendHeartbeat_def client_sendMessage_def cl_core_def callbacks_def cl_emit_def
      cl_tick_def Let_def)

lemmas frame_sendMessage [simp] = cl_core_fields [OF send_frame(1)]
lemmas frame_cl_tick [simp] = cl_core_fields [OF send_frame(3)]
lemmas frame_client_heartbeat [simp] = cl_core_fields [OF send_frame(5)]

lemma ticks_heartbeat: "cl_ticks c \<le> cl_ticks (snd (client_sendHeartbeat c now))"
  by (simp add: client_sendHeartbeat_def client_sendMessage_def cl_emit_def cl_tick_def Let_def)

lemma trace_sendMessage:
  "cl_trace (client_sendMessage c m sz) = cl_trace c @ [Sent (load (set_status m 0 PENDING) 0 (unat sz))]"
  by (simp add: client_sendMessage_def cl_emit_def cl_tick_def Let_def)

section \<open>Waiting\<close>

text \<open>
  What a wait ends in: it has called back nothing, has seen nothing but \<open>PENDING\<close> before its last
  look, and returns whether that look saw something else.
\<close>

definition wait_post :: "(nat \<Rightarrow> u8) \<Rightarrow> nat \<Rightarrow> client \<Rightarrow> bool \<times> client \<Rightarrow> bool" where
  "wait_post status k c r \<longleftrightarrow> cl_core (snd r) = cl_core c \<and> callbacks (snd r) = callbacks c \<and>
    (\<exists>n \<ge> k. (\<forall>j. k \<le> j \<and> j < n \<longrightarrow> status j = status_code PENDING) \<and>
      (fst r \<longleftrightarrow> status n \<noteq> status_code PENDING))"

lemma wait_post_Suc:
  assumes "wait_post status (Suc k) d r" and "status k = status_code PENDING"
    and "cl_core d = cl_core c" and "callbacks d = callbacks c"
  shows "wait_post status k c r"
proof -
  obtain n where n: "n \<ge> Suc k" "\<forall>j. Suc k \<le> j \<and> j < n \<longrightarrow> status j = status_code PENDING"
      "fst r \<longleftrightarrow> status n \<noteq> status_code PENDING"
    using assms(1) unfolding wait_post_def by blast
  have "\<forall>j. k \<le> j \<and> j < n \<longrightarrow> status j = status_code PENDING"
    using n(2) assms(2) by (metis not_less_eq_eq order_antisym)
  moreover have "n \<ge> k" using n(1) by simp
  ultimately show ?thesis using assms n(3) unfolding wait_post_def by auto
qed

lemma wait_loop_result:
  assumes "wait_loop status start timeout k c = Some r"
  shows "wait_post status k c r"
proof (rule wait_loop.raw_induct [where P = "\<lambda>status start timeout k c r. wait_post status k c r", OF _ assms])
  fix f status start timeout k c r
  assume IH: "\<And>start timeout k c b y. f start timeout k c b = Some y \<Longrightarrow> wait_post start c b y"
    and body: "(if status k = status_code PENDING
      then if timeout < cl_now c - start then Some (False, cl_tick c)
           else f status start timeout (Suc k) (snd (client_sendHeartbeat (cl_tick c) (cl_now c)))
      else Some (True, c)) = Some r"
  show "wait_post status k c r"
  proof (cases "status k = status_code PENDING")
    case False
    with body have "r = (True, c)" by simp
    with False show ?thesis by (auto simp: wait_post_def)
  next
    case True
    show ?thesis
    proof (cases "cl_now c - start > timeout")
      case late: True
      with True body have "r = (False, cl_tick c)" by simp
      with True show ?thesis by (auto simp: wait_post_def)
    next
      case False
      let ?d = "snd (client_sendHeartbeat (cl_tick c) (cl_now c))"
      have "wait_post status (Suc k) ?d r"
        using body True False by (intro IH) (simp add: not_less)
      from wait_post_Suc [OF this True] show ?thesis by simp
    qed
  qed
qed

lemma wait_frame:
  assumes "waitForResponse status timeout c = Some (b, d)"
  shows "cl_core d = cl_core c" and "callbacks d = callbacks c"
  using wait_loop_result [OF assms [unfolded waitForResponse_def]] by (simp_all add: wait_post_def)

lemma wait_loop_returns:
  assumes "\<And>n. N \<le> n \<Longrightarrow> cl_clock c n - start > timeout"
  shows "\<exists>r. wait_loop status start timeout k c = Some r"
  using assms
proof (induction "N - cl_ticks c" arbitrary: k c rule: less_induct)
  case less
  show ?case
  proof (cases "status k = status_code PENDING \<and> \<not> cl_now c - start > timeout")
    case False
    then show ?thesis by (subst wait_loop.simps) auto
  next
    case True
    let ?d = "snd (client_sendHeartbeat (cl_tick c) (cl_now c))"
    have "cl_ticks c < N" using True less(2) [of "cl_ticks c"] by (force simp: cl_now_def)
    moreover have "cl_ticks c < cl_ticks ?d"
      using ticks_heartbeat [of "cl_tick c" "cl_now c"] by (simp add: cl_tick_def)
    ultimately have "N - cl_ticks ?d < N - cl_ticks c" by simp
    moreover have "cl_clock ?d n - start > timeout" if "N \<le> n" for n
      using less(2) [OF that] by simp
    ultimately have "\<exists>r. wait_loop status start timeout (Suc k) ?d = Some r" by (rule less(1))
    with True show ?thesis by (subst wait_loop.simps) simp
  qed
qed

text \<open>An answer that is already there is seen at once.\<close>

lemma wait_answered: "status 0 \<noteq> status_code PENDING \<Longrightarrow> waitForResponse status timeout c = Some (True, cl_tick c)"
  by (simp add: waitForResponse_def wait_loop.simps)

section \<open>Callbacks and open websockets\<close>

text \<open>The websockets the application has been told are open and not told are closed.\<close>

fun told :: "client_action \<Rightarrow> u64 set \<Rightarrow> u64 set" where
  "told (OnOpened i) S = insert i S"
| "told (OnClosed i) S = S - {i}"
| "told _ S = S"

text \<open>A trace is well-formed if everything but \<open>OnOpened\<close> is only told of open websockets.\<close>

fun sound :: "u64 set \<Rightarrow> client_action list \<Rightarrow> bool" where
  "sound S [] = True"
| "sound S (OnClosed i # as) = (i \<in> S \<and> sound (S - {i}) as)"
| "sound S (OnError i e n # as) = (i \<in> S \<and> sound S as)"
| "sound S (OnData i d n r # as) = (i \<in> S \<and> sound S as)"
| "sound S (OnOpened i # as) = sound (insert i S) as"
| "sound S (a # as) = sound S as"

definition open_now :: "client_action list \<Rightarrow> u64 set" where
  "open_now as = fold told as {}"

lemma open_now_snoc: "open_now (as @ [a]) = told a (open_now as)"
  by (simp add: open_now_def)

lemma sound_append: "sound S (as @ bs) \<longleftrightarrow> sound S as \<and> sound (fold told as S) bs"
  by (induction S as rule: sound.induct) auto

definition callbacks_ok :: "client \<Rightarrow> bool" where
  "callbacks_ok c \<longleftrightarrow> distinct (cl_websockets c) \<and> set (cl_websockets c) = open_now (callbacks c) \<and>
     sound {} (callbacks c)"

lemma callbacks_ok_cong:
  "cl_core c = cl_core d \<Longrightarrow> callbacks c = callbacks d \<Longrightarrow> callbacks_ok c = callbacks_ok d"
  using cl_core_fields(7) [of c d] by (simp add: callbacks_ok_def)

lemma callbacks_emit [simp]:
  "callbacks (cl_emit a c) = callbacks c @ (if is_callback a then [a] else [])"
  "cl_websockets (cl_emit a c) = cl_websockets c"
  by (simp_all add: callbacks_def cl_emit_def)

lemma callbacks_fields [simp]:
  "callbacks (c\<lparr>cl_websockets := ws\<rparr>) = callbacks c" "callbacks (c\<lparr>cl_server_pid := p\<rparr>) = callbacks c"
  "callbacks (c\<lparr>cl_last_server_heartbeat_time := t\<rparr>) = callbacks c"
  "callbacks (c\<lparr>cl_ticks := n\<rparr>) = callbacks c" "callbacks (c\<lparr>cl_server_queue := b\<rparr>) = callbacks c"
  "callbacks (c\<lparr>cl_client_queue := b\<rparr>) = callbacks c"
  "callbacks (c\<lparr>cl_server_queue_index := i\<rparr>) = callbacks c"
  by (simp_all add: callbacks_def)

lemma callbacks_ok_fields [simp]:
  "callbacks_ok (c\<lparr>cl_server_pid := p\<rparr>) = callbacks_ok c"
  "callbacks_ok (c\<lparr>cl_last_server_heartbeat_time := t\<rparr>) = callbacks_ok c"
  by (simp_all add: callbacks_ok_def)

lemma sound_snoc: "sound {} (as @ [a]) \<longleftrightarrow> sound {} as \<and> sound (open_now as) [a]"
  by (simp add: sound_append open_now_def)

lemma callbacks_ok_handlers:
  assumes "callbacks_ok c"
  shows "callbacks_ok (handleWsOpen m p c)" and "callbacks_ok (handleWsClose m p c)"
    and "callbacks_ok (handleWsError m p c)" and "callbacks_ok (handleWsData m p c)"
  using assms
  by (auto simp: callbacks_ok_def handleWsOpen_def handleWsClose_def handleWsError_def handleWsData_def
      Let_def open_now_snoc sound_snoc)

lemma callbacks_ok_dispatch: "callbacks_ok c \<Longrightarrow> callbacks_ok (client_dispatch m p c)"
  by (simp add: client_dispatch_def callbacks_ok_handlers split: option.split msg_type.split)

lemma fold_closed:
  "callbacks (fold (\<lambda>i. cl_emit (OnClosed i)) ws c) = callbacks c @ map OnClosed ws"
  "cl_websockets (fold (\<lambda>i. cl_emit (OnClosed i)) ws c) = cl_websockets c"
  "cl_core (fold (\<lambda>i. cl_emit (OnClosed i)) ws c) = cl_core c"
  by (induction ws arbitrary: c) (simp_all add: cl_core_def cl_emit_def [abs_def] callbacks_def)

lemma closing_all:
  assumes "distinct ws"
  shows "fold told (map OnClosed ws) S = S - set ws" and "set ws \<subseteq> S \<Longrightarrow> sound S (map OnClosed ws)"
  using assms
proof (induction ws arbitrary: S)
  case (Cons a ws)
  case 1
  with Cons.IH(1) [of "S - {a}"] show ?case by auto
next
  case (Cons a ws)
  case 2
  then have "set ws \<subseteq> S - {a}" by auto
  with Cons.IH(2) [OF this] 2 show ?case by simp
qed simp_all

lemma server_lost_effect:
  "callbacks (server_lost c) = callbacks c @ OnDisconnected # map OnClosed (cl_websockets c)"
  "cl_websockets (server_lost c) = []" "cl_server_pid (server_lost c) = 0"
proof -
  have p: "cl_server_pid (fold (\<lambda>i. cl_emit (OnClosed i)) ws d) = cl_server_pid d" for ws d
    using cl_core_fields(6) [OF fold_closed(3)] .
  show "callbacks (server_lost c) = callbacks c @ OnDisconnected # map OnClosed (cl_websockets c)"
    "cl_websockets (server_lost c) = []" "cl_server_pid (server_lost c) = 0"
    by (simp_all add: server_lost_def Let_def fold_closed p) (simp add: cl_emit_def)
qed

lemma callbacks_ok_lost:
  assumes "callbacks_ok c"
  shows "callbacks_ok (server_lost c)"
proof -
  have "fold told (callbacks c) {} = set (cl_websockets c)" and d: "distinct (cl_websockets c)"
    using assms by (simp_all add: callbacks_ok_def open_now_def)
  then show ?thesis
    using assms closing_all(1) [OF d, of "set (cl_websockets c)"] closing_all(2) [OF d, of "set (cl_websockets c)"]
    by (simp add: callbacks_ok_def server_lost_effect open_now_def sound_append)
qed

lemma callbacks_ok_doWork:
  assumes "callbacks_ok c"
  shows "callbacks_ok (doWork rd c)"
proof -
  note f = callbacks_ok_cong [OF send_frame(1,2)] callbacks_ok_cong [OF send_frame(3,4)]
    callbacks_ok_cong [OF send_frame(5,6)]
  show ?thesis
    using assms
    by (auto simp: doWork_def Let_def f callbacks_ok_dispatch callbacks_ok_lost split: option.split)
qed

end
