(* ===== verification/Client_Steps.thy ===== *)
theory Client_Steps
  imports Client_Facts
begin

text \<open>
  The runs of a client: its waits end, and the calls of the application and the iterations of the
  worker keep the callbacks consistent.
\<close>

section \<open>Waiting ends\<close>

text \<open>
  C30: Waiting for an answer always ends, provided the clock gets past the timeout at last; it reports
  an answer exactly if its last look at the status saw one, after only \<open>PENDING\<close> before, and tells
  the application nothing meanwhile.
\<close>

theorem wait_ends:
  assumes "\<And>n. N \<le> n \<Longrightarrow> cl_clock c n - cl_now c > ucast timeout"
  shows "\<exists>b d. waitForResponse status timeout c = Some (b, d) \<and> callbacks d = callbacks c \<and>
    (\<exists>n. (\<forall>j < n. status j = status_code PENDING) \<and> (b \<longleftrightarrow> status n \<noteq> status_code PENDING))"
proof -
  obtain b d where r: "waitForResponse status timeout c = Some (b, d)"
    using wait_loop_returns [where N = N and c = "cl_tick c" and start = "cl_now c" and
      timeout = "ucast timeout" and status = status and k = 0] assms
    by (auto simp: waitForResponse_def)
  then show ?thesis
    using wait_loop_result [of status "cl_now c" "ucast timeout" 0 "cl_tick c" "(b, d)"]
    by (auto simp: waitForResponse_def wait_post_def)
qed

text \<open>A client for the examples; its clock jumps from 1000 to 50000 after three readings.\<close>

definition demo_client :: client where
  "demo_client = (WebsocketProxyClient_init (\<lambda>n. if n < 3 then 1000 else 50000) 8 ''demo'')
     \<lparr>cl_server_pid := 3, cl_server_queue := True, cl_client_queue := True\<rparr>"

lemma demo_client_fields [simp]:
  "cl_clock demo_client = (\<lambda>n. if n < 3 then 1000 else 50000)" "cl_ticks demo_client = 0"
  "cl_pid demo_client = 8" "cl_name demo_client = ''demo''" "cl_id demo_client = 0"
  "cl_server_pid demo_client = 3" "cl_websockets demo_client = []" "cl_trace demo_client = []"
  "cl_last_heartbeat_time demo_client = 0" "cl_last_server_heartbeat_time demo_client = 0"
  by (simp_all add: demo_client_def WebsocketProxyClient_init_def)

theorem wait_ends_witness:
  "\<exists>b d. waitForResponse (\<lambda>_. 0) 10000 demo_client = Some (b, d) \<and> callbacks d = []"
  using wait_ends [where N = 3 and c = demo_client and timeout = 10000 and status = "\<lambda>_. 0"]
  by (fastforce simp: cl_now_def callbacks_def)

section \<open>Callbacks\<close>

text \<open>What the methods other than the worker's leave alone.\<close>

definition quiet :: "client \<Rightarrow> client \<Rightarrow> bool" where
  "quiet c d \<longleftrightarrow> cl_websockets d = cl_websockets c \<and> callbacks d = callbacks c"

lemma quiet_refl [simp]: "quiet c c"
  by (simp add: quiet_def)

lemma quiet_trans: "quiet c d \<Longrightarrow> quiet d e \<Longrightarrow> quiet c e"
  by (simp add: quiet_def)

lemma quiet_send [simp]: "quiet c (client_sendMessage c m sz)" "quiet c (cl_tick c)"
  by (simp_all add: quiet_def)

lemma quiet_wait: "waitForResponse status timeout c = Some (b, d) \<Longrightarrow> quiet c d"
  using wait_frame [of status timeout c b d] cl_core_fields(7) [of d c] by (simp add: quiet_def)

lemma quiet_wait_send:
  "waitForResponse status timeout (client_sendMessage c m sz) = Some (b, d) \<Longrightarrow> quiet c d"
  using quiet_wait [of status timeout _ b d] by (fastforce simp: quiet_def)

lemma quiet_unregister [simp]: "quiet c (client_unregister c)"
  by (simp add: quiet_def client_unregister_def)

lemma quiet_fields [simp]:
  "quiet c (d\<lparr>cl_server_pid := p\<rparr>) = quiet c d" "quiet c (d\<lparr>cl_last_server_heartbeat_time := t\<rparr>) = quiet c d"
  "quiet c (d\<lparr>cl_ticks := n\<rparr>) = quiet c d" "quiet c (d\<lparr>cl_server_queue := b\<rparr>) = quiet c d"
  "quiet c (d\<lparr>cl_client_queue := b\<rparr>) = quiet c d" "quiet c (d\<lparr>cl_server_queue_index := i\<rparr>) = quiet c d"
  "quiet c (cl_tick d) = quiet c d" "quiet c (client_sendMessage d m sz) = quiet c d"
  by (simp_all add: quiet_def)

lemma quiet_register:
  assumes "client_register status m p c = Some (Inr (b, d))"
  shows "quiet c d"
proof -
  from assms obtain bm where r: "register_msg c = Some bm"
    by (cases "register_msg c") (simp_all add: client_register_def)
  let ?w = "waitForResponse status 20000 (client_sendMessage c bm (get_message_size RegisterMessage_layout 0))"
  have "?w \<noteq> None"
    using assms r unfolding client_register_def by (cases ?w) simp_all
  then obtain x c1 where w: "?w = Some (x, c1)" by fastforce
  then have "quiet c c1" by (rule quiet_wait_send)
  with assms r w show ?thesis
    unfolding client_register_def by (cases x) (simp_all add: Let_def split: if_splits, auto)
qed

lemma ready_quiet:
  assumes "ready_loop ready start k c = Some r"
  shows "quiet c (snd r)"
proof (rule ready_loop.raw_induct [where P = "\<lambda>ready start k c r. quiet c (snd r)", OF _ assms])
  fix f ready start k c r
  assume IH: "\<And>ready start k c r. f ready start k c = Some r \<Longrightarrow> quiet c (snd r)"
    and body: "(if cl_now c - start < 10000
      then if ready k then Some (True, cl_tick c) else f ready start (Suc k) (cl_tick c)
      else Some (False, cl_tick c)) = Some r"
  show "quiet c (snd r)"
  proof (cases "cl_now c - start < 10000 \<and> \<not> ready k")
    case True
    with body have "quiet (cl_tick c) (snd r)" by (intro IH) simp
    then show ?thesis by (simp add: quiet_def)
  next
    case False
    with body have "r = (True, cl_tick c) \<or> r = (False, cl_tick c)" by (auto split: if_splits)
    then show ?thesis by auto
  qed
qed

lemma quiet_spawn: "quiet c (snd (spawnWebsocketsProxyServer w c))"
  by (simp add: spawnWebsocketsProxyServer_def Let_def)

lemma quiet_connect:
  assumes "client_connect w c = Some (Inr (b, d))"
  shows "quiet c d"
proof -
  obtain b1 c1 where sp: "spawnWebsocketsProxyServer (cw_spawn w) c = (b1, c1)" by fastforce
  then have q1: "quiet c c1" using quiet_spawn [of c "cw_spawn w"] by simp
  let ?ready = "if cl_server_queue_index c1 \<noteq> 0 then Some (True, c1) else waitForServerReady (cw_ready w) c1"
  have q2: "quiet c1 c2" if "?ready = Some (x, c2)" for x c2
  proof (cases "cl_server_queue_index c1 = 0")
    case True
    with that have "ready_loop (cw_ready w) (cl_now c1) 0 (cl_tick c1) = Some (x, c2)"
      by (simp add: waitForServerReady_def)
    from ready_quiet [OF this] show ?thesis by (simp add: quiet_def)
  qed (use that in simp)
  show ?thesis
  proof (cases b1)
    case False
    with assms sp q1 show ?thesis by (simp add: client_connect_def)
  next
    case True
    with assms sp obtain x c2 where r: "?ready = Some (x, c2)"
      by (cases ?ready) (auto simp: client_connect_def)
    from q2 [OF this] q1 have q: "quiet c c2" by (rule quiet_trans [rotated])
    have "client_connect w c = (if x then client_register (cw_status w) (cw_mem w) (cw_at w) c2
        else Some (Inr (False, c2)))"
      unfolding client_connect_def sp using True r by (cases x) simp_all
    with assms q show ?thesis by (auto split: if_splits dest: quiet_register intro: quiet_trans)
  qed
qed

lemma quiet_sendOpen:
  "sendOpenMessage w url key c = Some (Inr (b, d)) \<Longrightarrow> quiet c d"
  by (auto simp: sendOpenMessage_def split: if_splits option.splits sum.splits prod.splits bool.splits
      dest!: quiet_connect)

lemma quiet_open:
  "openWebSocket w status m p url key c = Some (Inr (x, d)) \<Longrightarrow> quiet c d"
  by (auto simp: openWebSocket_def Let_def split: if_splits option.splits sum.splits prod.splits bool.splits
      dest!: quiet_sendOpen quiet_wait simp: quiet_def)

lemma quiet_close: "closeWebSocket status i c = Some (b, d) \<Longrightarrow> quiet c d"
  by (auto simp: closeWebSocket_def split: option.splits prod.splits bool.splits
      dest!: quiet_wait_send simp: quiet_def client_unregister_def)

lemma quiet_subscribe: "client_subscribe status i symbol rq n ty c = Some (b, d) \<Longrightarrow> quiet c d"
  by (simp add: client_subscribe_def quiet_wait_send)

text \<open>The steps of a client: the calls of the application and the iterations of the worker.\<close>

inductive client_step :: "client \<Rightarrow> client \<Rightarrow> bool" where
  cs_open: "openWebSocket w status m p url key c = Some (Inr (x, d)) \<Longrightarrow> client_step c d"
| cs_open_async: "openWebSocketAsync w url key c = Some (Inr (b, d)) \<Longrightarrow> client_step c d"
| cs_close: "closeWebSocket status i c = Some (b, d) \<Longrightarrow> client_step c d"
| cs_subscribe: "client_subscribe status i symbol rq n ty c = Some (b, d) \<Longrightarrow> client_step c d"
| cs_unsubscribe: "client_step c (snd (client_unsubscribe i symbol rq n c))"
| cs_log_level: "client_step c (snd (setLogLevel level c))"
| cs_send: "client_step c (client_send i bytes n c)"
| cs_work: "client_step c (doWork rd c)"
| cs_destroy: "client_step c (client_destroy c)"

definition client_init :: "client \<Rightarrow> bool" where
  "client_init c \<longleftrightarrow> (\<exists>clock p name. c = WebsocketProxyClient_init clock p name)"

lemma callbacks_ok_quiet: "callbacks_ok c \<Longrightarrow> quiet c d \<Longrightarrow> callbacks_ok d"
  by (simp add: callbacks_ok_def quiet_def)

lemma callbacks_ok_step:
  assumes "callbacks_ok c" and "client_step c d"
  shows "callbacks_ok d"
  using assms(2)
proof (cases rule: client_step.cases)
  case (cs_open_async w url key b)
  then show ?thesis
    using callbacks_ok_quiet [OF assms(1) quiet_sendOpen] by (simp add: openWebSocketAsync_def)
qed (use assms(1) in \<open>auto simp: callbacks_ok_doWork client_unsubscribe_def setLogLevel_def client_send_def
    client_destroy_def intro: callbacks_ok_quiet quiet_open quiet_close quiet_subscribe\<close>)

interpretation client: invariant_system client_init client_step callbacks_ok
proof unfold_locales
  show "client_init c \<Longrightarrow> callbacks_ok c" for c
    by (auto simp: client_init_def WebsocketProxyClient_init_def callbacks_ok_def callbacks_def open_now_def)
  show "callbacks_ok c \<Longrightarrow> client_step c d \<Longrightarrow> callbacks_ok d" for c d
    by (rule callbacks_ok_step)
qed

section \<open>A first connection, for the examples\<close>

definition demo_world :: connect_world where
  "demo_world = \<lparr>cw_spawn = \<lparr>sp_processes = [''System'', ''WEBSOCKET_PROXY.exe''], sp_created = False,
       sp_readings = 0, sp_failures = 0, sp_client_queue = True, sp_index = 1\<rparr>,
     cw_ready = (\<lambda>_. True), cw_status = (\<lambda>_. status_code SUCCESS),
     cw_mem = store_u64 (set_status zero_mem 0 SUCCESS) (fld RegisterMessage_layout ''server_pid'' 0) 3,
     cw_at = 0\<rparr>"

lemma demo_running [simp]: "stricmp_eq ''WEBSOCKET_PROXY.exe'' ''websocket_proxy.exe''"
  by code_simp

definition demo_opened :: mem where
  "demo_opened = store_u64 (store_u64 (set_type (set_pid zero_mem 0 3) 0 OpenWs) 1042 30001) 1034 8"

lemma demo_opened_fields [simp]:
  "msg_pid demo_opened 0 = 3" "msg_type demo_opened 0 = type_code OpenWs"
  "load_u64 demo_opened (fld WsOpen_layout ''id'' 0) = 30001"
  "load_u64 demo_opened (fld WsOpen_layout ''client_pid'' 0) = 8"
  by (simp_all add: demo_opened_def layout)

lemma demo_connects:
  "\<exists>d. openWebSocketAsync demo_world ''wss://h'' [] (WebsocketProxyClient_init (\<lambda>n. of_nat n) 8 ''demo'') =
     Some (Inr (True, d)) \<and> cl_server_pid d = 3 \<and> cl_pid d = 8"
proof -
  let ?c = "WebsocketProxyClient_init (\<lambda>n. of_nat n) 8 ''demo''"
  let ?d = "?c\<lparr>cl_server_queue := True, cl_client_queue := True, cl_server_queue_index := 1\<rparr>"
  have s: "spawnWebsocketsProxyServer (cw_spawn demo_world) ?c = (True, ?d)"
    by (simp add: spawnWebsocketsProxyServer_def demo_world_def WebsocketProxyClient_init_def)
  obtain bm where b: "register_msg ?d = Some bm"
    by (simp add: register_msg_def strcpy_s_def cut_nul_def WebsocketProxyClient_init_def Let_def)
  obtain e where r: "client_register (cw_status demo_world) (cw_mem demo_world) (cw_at demo_world) ?d = Some (Inr (True, e))"
      "cl_server_pid e = 3" "cl_pid e = 8"
    using b by (simp add: client_register_def demo_world_def wait_answered layout Let_def)
      (simp add: WebsocketProxyClient_init_def)
  have c: "client_connect demo_world ?c = Some (Inr (True, e))"
    using r(1) by (simp add: client_connect_def s)
  obtain om where "open_msg e ''wss://h'' [] = Some om"
    by (simp add: open_msg_def strcpy_s_def cut_nul_def Let_def)
  then show ?thesis
    using c r(2,3) by (simp add: openWebSocketAsync_def sendOpenMessage_def) (simp add: WebsocketProxyClient_init_def)
qed

text \<open>
  C18: Whatever the application calls and the server sends: a websocket is reported closed, in error or
  with data only while it is open, that is, reported opened and not yet closed; and the client keeps
  exactly the open ones, each once.
\<close>

theorem callbacks_consistent:
  assumes "reach client_init client_step c"
  shows "sound {} (callbacks c) \<and> set (cl_websockets c) = open_now (callbacks c) \<and> distinct (cl_websockets c)"
  using client.inv_reach [OF assms] by (simp add: callbacks_ok_def)

theorem callbacks_consistent_witness:
  "\<exists>c. reach client_init client_step c \<and> 30001 \<in> open_now (callbacks c)"
proof -
  let ?c = "WebsocketProxyClient_init (\<lambda>n. of_nat n) 8 ''demo''"
  obtain d where d: "openWebSocketAsync demo_world ''wss://h'' [] ?c = Some (Inr (True, d))"
      "cl_server_pid d = 3" "cl_pid d = 8"
    using demo_connects by blast
  let ?e = "doWork (Some (demo_opened, 0)) d"
  have "reach client_init client_step ?c" by (rule reach_init) (auto simp: client_init_def)
  then have "reach client_init client_step d" by (rule reach_step) (rule cs_open_async [OF d(1)])
  then have e: "reach client_init client_step ?e" by (rule reach_step) (rule cs_work)
  have "30001 \<in> set (cl_websockets ?e)"
    using d(2,3) by (simp add: doWork_def Let_def client_dispatch_def handleWsOpen_def del: type_code.simps)
  with callbacks_consistent [OF e] e show ?thesis by blast
qed

section \<open>The server's heartbeat\<close>

text \<open>
  When the server has been silent for more than \<open>HEARTBEAT_TIMEOUT\<close>, a connected client reports
  the disconnection and then every open websocket as closed, once each, and forgets them and the
  server; before that an iteration that reads nothing reports nothing.
\<close>

theorem server_silence:
  assumes "cl_server_pid c \<noteq> 0" and "d = doWork None c"
    and "silent \<longleftrightarrow> cl_last_server_heartbeat_time c \<noteq> 0 \<and>
      cl_now c - cl_last_server_heartbeat_time c > HEARTBEAT_TIMEOUT"
  shows "callbacks d = callbacks c @ (if silent then OnDisconnected # map OnClosed (cl_websockets c) else []) \<and>
    cl_websockets d = (if silent then [] else cl_websockets c) \<and>
    cl_server_pid d = (if silent then 0 else cl_server_pid c)"
  using assms(1,3) by (simp add: assms(2) doWork_def Let_def server_lost_effect)

theorem server_silence_example:
  "callbacks (doWork None (demo_client\<lparr>cl_websockets := [30001, 30002], cl_last_server_heartbeat_time := 1000,
     cl_ticks := 7\<rparr>)) = [OnDisconnected, OnClosed 30001, OnClosed 30002]"
  using server_silence [of "demo_client\<lparr>cl_websockets := [30001, 30002], cl_last_server_heartbeat_time := 1000,
      cl_ticks := 7\<rparr>" _ True, OF _ refl]
  by (simp add: cl_now_def HEARTBEAT_TIMEOUT_def callbacks_def)

text \<open>
  A message of another server instance counts as a sign of life of the client's own: it is
  otherwise ignored, but it restarts the timeout, and the client's own heartbeat is not sent either.
\<close>

theorem other_server_keeps_alive:
  assumes "cl_server_pid c \<noteq> 0" and "msg_pid m p \<noteq> cl_server_pid c" and "d = doWork (Some (m, p)) c"
  shows "cl_last_server_heartbeat_time d = cl_now c \<and> cl_trace d = cl_trace c \<and>
    cl_server_pid d = cl_server_pid c \<and> cl_websockets d = cl_websockets c"
  using assms(1) assms(2) [symmetric] by (simp add: assms(3) doWork_def Let_def) (simp add: cl_tick_def)

theorem other_server_keeps_alive_example:
  "cl_last_server_heartbeat_time (doWork (Some (set_pid zero_mem 0 4, 0)) demo_client) = 1000"
  using other_server_keeps_alive [of demo_client "set_pid zero_mem 0 4" 0, OF _ _ refl]
  by (simp add: layout cl_now_def)

end
