(* ===== verification/News.thy ===== *)
theory News
  imports Client_Steps
begin

text \<open>
  What the messages of the server tell a client, as values, and what a client makes of a whole log of
  them: a reference definition of the worker of \<open>WebsocketProxyClient\<close>, over the log and nothing else,
  and the proof that the worker's iterations follow it.
\<close>

section \<open>Messages as values\<close>

datatype news =
    NewsOpen u64 u64
  | NewsClose u64
  | NewsError u64 string u32
  | NewsData u64 string u32 u32
  | NoNews

definition news_at :: "mem \<Rightarrow> nat \<Rightarrow> news" where
  "news_at m p = (case type_of_code (msg_type m p) of
     Some OpenWs \<Rightarrow> NewsOpen (load_u64 m (fld WsOpen_layout ''id'' p)) (load_u64 m (fld WsOpen_layout ''client_pid'' p))
   | Some CloseWs \<Rightarrow> NewsClose (load_u64 m (fld WsClose_layout ''id'' p))
   | Some WsError \<Rightarrow> (let len = load_u32 m (fld WsError_layout ''len'' p) in
       NewsError (load_u64 m (fld WsError_layout ''id'' p)) (load m (fld WsError_layout ''err'' p) (unat len)) len)
   | Some WsData \<Rightarrow> (let len = load_u32 m (fld WsData_layout ''len'' p) in
       NewsData (load_u64 m (fld WsData_layout ''id'' p)) (load m (fld WsData_layout ''data'' p) (unat len)) len
         (load_u32 m (fld WsData_layout ''remaining'' p)))
   | _ \<Rightarrow> NoNews)"

text \<open>A message of another server tells nothing.\<close>

definition news_of :: "u64 \<Rightarrow> string \<Rightarrow> news" where
  "news_of server bs = (let m = store zero_mem 0 bs in if msg_pid m 0 = server then news_at m 0 else NoNews)"

text \<open>\<open>n\<close> bytes are as many as the message's type and the length it declares say.\<close>

definition complete_at :: "mem \<Rightarrow> nat \<Rightarrow> bool" where
  "complete_at m n \<longleftrightarrow> 10 \<le> n \<and>
     (case type_of_code (msg_type m 0) of
        Some OpenWs \<Rightarrow> 10 + sizeof WsOpen_layout \<le> n
      | Some CloseWs \<Rightarrow> 10 + sizeof WsClose_layout \<le> n
      | Some WsError \<Rightarrow> 10 + sizeof WsError_layout + unat (load_u32 m (fld WsError_layout ''len'' 0)) \<le> n
      | Some WsData \<Rightarrow> 10 + sizeof WsData_layout + unat (load_u32 m (fld WsData_layout ''len'' 0)) \<le> n
      | _ \<Rightarrow> True)"

definition complete :: "string \<Rightarrow> bool" where
  "complete bs \<longleftrightarrow> complete_at (store zero_mem 0 bs) (length bs)"

lemma holds_header:
  assumes "holds m p (load b 0 n)" and "10 \<le> n"
  shows "msg_pid m p = msg_pid b 0" and "msg_type m p = msg_type b 0"
  using holds_loads(3) [OF assms(1), of 0] holds_loads(1) [OF assms(1), of 8] assms(2) by (simp_all add: layout)

lemma holds_news:
  assumes "holds m p (load b 0 n)" and "complete_at b n"
  shows "news_at m p = news_at b 0"
proof -
  note at = holds_loads [OF assms(1)] holds_load [OF assms(1)]
  have ty: "load_u8 m (p + 8) = load_u8 b 8"
    using holds_header(2) [OF assms(1)] assms(2) by (simp add: complete_at_def layout)
  show ?thesis
  proof (cases "type_of_code (msg_type b 0)")
    case None
    then show ?thesis by (simp add: news_at_def layout ty)
  next
    case (Some t)
    then show ?thesis
      using assms(2) at(3) [of 1042] at(3) [of 1034] at(3) [of 10] at(2) [of 18] at(2) [of 22]
        at(5) [of 22 "unat (load_u32 b 18)"] at(5) [of 26 "unat (load_u32 b 18)"]
      by (cases t) (simp_all add: news_at_def complete_at_def layout ty Let_def)
  qed
qed

lemma holds_stored: "holds (store m p bs) p bs"
  unfolding holds_def by (rule load_store_same)

text \<open>The bytes of a block say what its fields say.\<close>

lemma complete_load:
  assumes "complete_at b n"
  shows "complete (load b 0 n)"
proof -
  let ?m = "store zero_mem 0 (load b 0 n)"
  have h: "holds ?m 0 (load b 0 n)" by (rule holds_stored)
  have n: "10 \<le> n" using assms by (simp add: complete_at_def)
  have ty: "msg_type ?m 0 = msg_type b 0" by (rule holds_header(2) [OF h n])
  show ?thesis
  proof (cases "type_of_code (msg_type b 0)")
    case None
    then show ?thesis using n by (simp add: complete_def complete_at_def ty)
  next
    case (Some t)
    then show ?thesis
      using assms holds_loads(2) [OF h, of 18] by (cases t) (simp_all add: complete_def complete_at_def ty, simp_all add: layout)
  qed
qed

lemma news_of_load:
  assumes "complete_at b n"
  shows "news_of server (load b 0 n) = (if msg_pid b 0 = server then news_at b 0 else NoNews)"
proof -
  have h: "holds (store zero_mem 0 (load b 0 n)) 0 (load b 0 n)" by (rule holds_stored)
  have "10 \<le> n" using assms by (simp add: complete_at_def)
  then show ?thesis using holds_header(1) [OF h] holds_news [OF h assms] by (simp add: news_of_def Let_def)
qed

section \<open>The reference\<close>

text \<open>What client \<open>q\<close>, with \<open>W\<close> open, takes from a message: what is open then, and what it reports.\<close>

fun hear :: "u64 \<Rightarrow> news \<Rightarrow> u64 set \<Rightarrow> u64 set" where
  "hear q (NewsOpen i x) W = (if x = q then insert i W else W)"
| "hear q (NewsClose i) W = W - {i}"
| "hear q _ W = W"

fun report :: "u64 \<Rightarrow> news \<Rightarrow> u64 set \<Rightarrow> client_action list" where
  "report q (NewsOpen i x) W = (if x = q then [OnOpened i] else [])"
| "report q (NewsClose i) W = (if i \<in> W then [OnClosed i] else [])"
| "report q (NewsError i e n) W = (if i \<in> W then [OnError i e n] else [])"
| "report q (NewsData i d n r) W = (if i \<in> W then [OnData i d n r] else [])"
| "report q NoNews W = []"

definition heard :: "u64 \<Rightarrow> news list \<Rightarrow> u64 set \<Rightarrow> u64 set" where
  "heard q ns W = fold (hear q) ns W"

fun reports :: "u64 \<Rightarrow> news list \<Rightarrow> u64 set \<Rightarrow> client_action list" where
  "reports q [] W = []"
| "reports q (n # ns) W = report q n W @ reports q ns (hear q n W)"

lemma heard_append [simp]: "heard q (ns @ ms) W = heard q ms (heard q ns W)"
  by (simp add: heard_def)

lemma heard_simps [simp]: "heard q [] W = W" "heard q (n # ns) W = heard q ns (hear q n W)"
  by (simp_all add: heard_def)

lemma reports_append [simp]: "reports q (ns @ ms) W = reports q ns W @ reports q ms (heard q ns W)"
  by (induction ns arbitrary: W) simp_all

text \<open>An open that no close follows is heard, whatever else is in the log.\<close>

lemma heard_stays: "i \<in> W \<Longrightarrow> NewsClose i \<notin> set ns \<Longrightarrow> i \<in> heard q ns W"
proof (induction ns arbitrary: W)
  case (Cons n ns)
  then have "i \<in> hear q n W" by (cases n) auto
  with Cons show ?case by simp
qed simp

lemma heard_opened:
  assumes "NewsOpen i q \<in> set ns" and "NewsClose i \<notin> set ns"
  shows "i \<in> heard q ns W"
proof -
  obtain as bs where "ns = as @ NewsOpen i q # bs" using assms(1) by (meson split_list)
  then show ?thesis using assms(2) heard_stays [of i _ bs] by simp
qed

lemma reports_opened: "NewsOpen i q \<in> set ns \<Longrightarrow> OnOpened i \<in> set (reports q ns W)"
  by (induction ns arbitrary: W) auto

section \<open>The worker\<close>

lemma distinct_handlers:
  assumes "distinct (cl_websockets c)"
  shows "distinct (cl_websockets (client_dispatch m p c))"
  using assms
  by (simp add: client_dispatch_def handleWsOpen_def handleWsClose_def handleWsError_def handleWsData_def Let_def
      split: option.split msg_type.split)

lemma dispatch_news:
  assumes "distinct (cl_websockets c)"
  shows "set (cl_websockets (client_dispatch m p c)) = hear (cl_pid c) (news_at m p) (set (cl_websockets c))"
    and "callbacks (client_dispatch m p c) = callbacks c @ report (cl_pid c) (news_at m p) (set (cl_websockets c))"
  using assms
  by (simp_all add: client_dispatch_def news_at_def handleWsOpen_def handleWsClose_def handleWsError_def
      handleWsData_def Let_def split: option.split msg_type.split)

lemma dispatch_fields [simp]:
  "cl_pid (client_dispatch m p c) = cl_pid c" "cl_server_pid (client_dispatch m p c) = cl_server_pid c"
  by (simp_all add: client_dispatch_def handleWsOpen_def handleWsClose_def handleWsError_def
      handleWsData_def Let_def cl_emit_def split: option.split msg_type.split)

lemma worker_hears:
  assumes "cl_server_pid c = server" and "server \<noteq> 0" and "distinct (cl_websockets c)"
    and "holds m p bs" and "complete bs"
  shows "set (cl_websockets (doWork (Some (m, p)) c)) = hear (cl_pid c) (news_of server bs) (set (cl_websockets c))"
    and "callbacks (doWork (Some (m, p)) c) =
      callbacks c @ report (cl_pid c) (news_of server bs) (set (cl_websockets c))"
    and "distinct (cl_websockets (doWork (Some (m, p)) c))"
    and "cl_pid (doWork (Some (m, p)) c) = cl_pid c" and "cl_server_pid (doWork (Some (m, p)) c) = server"
proof -
  let ?d = "(cl_tick c)\<lparr>cl_last_server_heartbeat_time := cl_now c\<rparr>"
  have h: "holds m p (load (store zero_mem 0 bs) 0 (length bs))" using assms(4) by simp
  have "10 \<le> length bs" using assms(5) by (simp add: complete_def complete_at_def)
  note hd = holds_header(1) [OF h this] and nw = holds_news [OF h assms(5) [unfolded complete_def]]
  have d: "distinct (cl_websockets ?d)" using assms(3) by simp
  show "set (cl_websockets (doWork (Some (m, p)) c)) = hear (cl_pid c) (news_of server bs) (set (cl_websockets c))"
    "callbacks (doWork (Some (m, p)) c) = callbacks c @ report (cl_pid c) (news_of server bs) (set (cl_websockets c))"
    "distinct (cl_websockets (doWork (Some (m, p)) c))"
    "cl_pid (doWork (Some (m, p)) c) = cl_pid c" "cl_server_pid (doWork (Some (m, p)) c) = server"
    using assms(1-3) dispatch_news [OF d, of m p] distinct_handlers [OF d, of m p]
    by (auto simp: doWork_def Let_def news_of_def hd nw)
qed

text \<open>
  \<open>follows c log d\<close>: the client got from \<open>c\<close> to \<open>d\<close> reading the messages of \<open>log\<close> in their order,
  wherever they lay when they were read.  In between its worker finds the queue empty any number of
  times, as long as it does not give the server up, and the application calls the library, as long
  as the client stays registered.
\<close>

inductive follows :: "client \<Rightarrow> string list \<Rightarrow> client \<Rightarrow> bool" for c where
  fw_start: "follows c [] c"
| fw_read: "follows c log d \<Longrightarrow> holds m p bs \<Longrightarrow> complete bs \<Longrightarrow> follows c (log @ [bs]) (doWork (Some (m, p)) d)"
| fw_idle: "follows c log d \<Longrightarrow> cl_server_pid (doWork None d) \<noteq> 0 \<Longrightarrow> follows c log (doWork None d)"
| fw_call: "follows c log d \<Longrightarrow> quiet d e \<Longrightarrow> cl_pid e = cl_pid d \<Longrightarrow> cl_server_pid e = cl_server_pid d \<Longrightarrow>
    follows c log e"

lemma idle_keeps:
  assumes "cl_server_pid (doWork None d) \<noteq> 0"
  shows "cl_server_pid (doWork None d) = cl_server_pid d" and "cl_pid (doWork None d) = cl_pid d"
    and "cl_websockets (doWork None d) = cl_websockets d" and "callbacks (doWork None d) = callbacks d"
  using assms by (auto simp: doWork_def Let_def server_lost_effect split: if_splits)

lemma follows_hears:
  assumes "follows c log d" and "cl_server_pid c = server" and "server \<noteq> 0" and "distinct (cl_websockets c)"
  shows "set (cl_websockets d) = heard (cl_pid c) (map (news_of server) log) (set (cl_websockets c))"
    and "callbacks d = callbacks c @ reports (cl_pid c) (map (news_of server) log) (set (cl_websockets c))"
proof -
  have "set (cl_websockets d) = heard (cl_pid c) (map (news_of server) log) (set (cl_websockets c)) \<and>
    callbacks d = callbacks c @ reports (cl_pid c) (map (news_of server) log) (set (cl_websockets c)) \<and>
    distinct (cl_websockets d) \<and> cl_pid d = cl_pid c \<and> cl_server_pid d = server"
    using assms(1)
  proof (induction rule: follows.induct)
    case fw_start
    then show ?case using assms by simp
  next
    case (fw_read log d m p bs)
    then show ?case using worker_hears [of d server m p bs] assms(3) by simp
  next
    case (fw_idle log d)
    then show ?case using idle_keeps [OF fw_idle(2)] by simp
  next
    case (fw_call log d e)
    then show ?case by (simp add: quiet_def)
  qed
  then show "set (cl_websockets d) = heard (cl_pid c) (map (news_of server) log) (set (cl_websockets c))"
    "callbacks d = callbacks c @ reports (cl_pid c) (map (news_of server) log) (set (cl_websockets c))"
    by blast+
qed

text \<open>
  C12: The worker is the reference.  A connected client that reads a log of messages, at whatever
  addresses and with whatever idle turns and calls of the application in between, has exactly those
  websockets open that the log, read as values, leaves open for its pid, and has called the
  application back exactly with what the log reports to it, in the order of the log.
\<close>

theorem worker_follows_log:
  assumes "follows c log d" and "cl_server_pid c = server" and "server \<noteq> 0" and "distinct (cl_websockets c)"
  shows "set (cl_websockets d) = heard (cl_pid c) (map (news_of server) log) (set (cl_websockets c)) \<and>
    callbacks d = callbacks c @ reports (cl_pid c) (map (news_of server) log) (set (cl_websockets c))"
  using follows_hears [OF assms] by blast

text \<open>A websocket is opened for the client, and data arrives on it and on another client's.\<close>

definition demo_log :: "string list" where
  "demo_log =
    [load (store_u64 (store_u64 (set_type (reserve_block 3) 0 OpenWs) 1042 30001) 1034 8) 0 1307,
     load (store (store_u32 (store_u64 (set_type (reserve_block 3) 0 WsData) 10 30001) 18 4) 26 ''tick'') 0 30]"

lemma demo_log_news:
  "map (news_of 3) demo_log = [NewsOpen 30001 8, NewsData 30001 ''tick'' 4 0]"
  "complete (demo_log ! 0)" "complete (demo_log ! 1)"
proof -
  let ?a = "store_u64 (store_u64 (set_type (reserve_block 3) 0 OpenWs) 1042 30001) 1034 8"
  let ?b = "store (store_u32 (store_u64 (set_type (reserve_block 3) 0 WsData) 10 30001) 18 4) 26 ''tick''"
  have a: "msg_type ?a 0 = type_code OpenWs" "msg_pid ?a 0 = 3"
    and b: "msg_type ?b 0 = type_code WsData" "msg_pid ?b 0 = 3"
    by (simp_all add: layout reserve_block_def del: type_code.simps)
  have "complete_at ?a 1307" "complete_at ?b 30"
    using a b by (simp_all add: complete_at_def layout del: type_code.simps)
  note c = complete_load [OF this(1)] complete_load [OF this(2)] news_of_load [OF this(1)] news_of_load [OF this(2)]
  show "map (news_of 3) demo_log = [NewsOpen 30001 8, NewsData 30001 ''tick'' 4 0]"
    using a b by (simp add: demo_log_def news_at_def c(3,4) del: type_code.simps)
      (simp add: layout Let_def reserve_block_def load_store_same_len)
  show "complete (demo_log ! 0)" "complete (demo_log ! 1)" using c(1,2) by (simp_all add: demo_log_def)
qed

theorem worker_follows_log_witness:
  "\<exists>d. follows demo_client demo_log d \<and> set (cl_websockets d) = {30001} \<and>
    callbacks d = [OnOpened 30001, OnData 30001 ''tick'' 4 0]"
proof -
  let ?c = "doWork (Some (store zero_mem 0 (demo_log ! 0), 0)) demo_client"
  let ?d = "doWork (Some (store zero_mem 7 (demo_log ! 1), 7)) ?c"
  have "follows demo_client ([] @ [demo_log ! 0]) ?c"
    by (rule fw_read [OF fw_start]) (simp_all add: demo_log_news holds_def)
  then have "follows demo_client (([] @ [demo_log ! 0]) @ [demo_log ! 1]) ?d"
    by (rule fw_read) (use demo_log_news in \<open>simp_all add: holds_def\<close>)
  moreover have "([] @ [demo_log ! 0]) @ [demo_log ! 1] = demo_log" by (simp add: demo_log_def)
  ultimately have f: "follows demo_client demo_log ?d" by simp
  show ?thesis
    using worker_follows_log [OF f, of 3] f by (intro exI [of _ ?d]) (simp add: demo_log_news callbacks_def)
qed

end
