(* ===== verification/Sharing_Limits.thy ===== *)
theory Sharing_Limits
  imports Sharing_Machine
begin

text \<open>
  Where sharing ends: a client that leaves while its connection is being opened is entered as a
  sharer all the same, and two clients that ask for the same url at the same time get a connection
  each.
\<close>

section \<open>Polling a request to open\<close>

lemma poll_attempt:
  assumes "tables_ok x" and "known x (sender x p)" and "msg_type (shm x) p = type_code OpenWs"
    and "live x (open_key (shm x) p) = None" and "parse_url (open_url (shm x) p) = Inr ep"
    and "t = result_state (processClientMessage (take_task ProcessClientMessage x) (Some p) [])"
  shows "opens t = opens x @ [\<lparr>po_ref = next_ref x, po_msg = p, po_phase = Spawned\<rparr>]"
    and "websocketsById t = websocketsById x" and "websocketsByUrlApiKey t = websocketsByUrlApiKey x"
    and "known t q = known x q" and "pid t = pid x" and "websocket_id t = websocket_id x + 1"
    and "next_ref t = Suc (next_ref x)" and "\<forall>r. r \<noteq> next_ref x \<longrightarrow> heap t r = heap x r"
    and "ws_id (heap t (next_ref x)) = pid x * 10000 + ucast (websocket_id x + 1)"
    and "ws_url (heap t (next_ref x)) = open_url (shm x) p"
    and "ws_api_key (heap t (next_ref x)) = open_api_key (shm x) p"
    and "run t = run x" and "shutdown_time t = shutdown_time x"
    and "shm t = store_u8 (shm x) (fld WsOpen_layout ''new_connection'' p) 1"
    and "run x \<Longrightarrow> shutdown_time x = 0 \<Longrightarrow> ProcessClientMessage \<in> set (tasks t)"
proof -
  let ?x = "take_task ProcessClientMessage x"
  have l: "live ?x (open_key (shm ?x) p) = None"
    using assms(4) by (auto simp: live_def take_task_def split: option.splits if_splits)
  have k: "known ?x (sender ?x p)" using assms(2) by (simp add: take_task_def)
  have h: "handleClientMessage ?x p = openNewWs (stamped ?x p) p"
    using assms(3) openWs_not_live [OF k l]
    by (simp add: handleClientMessage_def take_task_def del: type_code.simps)
  obtain w where w: "Websocket_new (pid x * 10000 + ucast (websocket_id x + 1)) (open_url (shm x) p)
      (open_api_key (shm x) p) = Inr w"
    using assms(5) by (simp add: Websocket_new_def)
  let ?y = "upd_shm (\<lambda>m. store_u8 m (fld WsOpen_layout ''new_connection'' p) 1) (stamped ?x p)"
  let ?u = "?y\<lparr>websocket_id := websocket_id x + 1, heap := (heap x)(next_ref x := w),
    next_ref := Suc (next_ref x), opens := opens x @ [\<lparr>po_ref = next_ref x, po_msg = p, po_phase = Spawned\<rparr>]\<rparr>"
  have "openNewWs (stamped ?x p) p = Inr ?u"
    using w by (simp add: openNewWs_def Let_def new_mark_fields) (simp add: take_task_def w)
  then have t: "t = (if run ?u then (if shutdown_time ?u \<noteq> 0 then
      (if get_timestamp ?u - shutdown_time ?u \<ge> 60000 then post ShutdownTask (tick ?u)
       else post ProcessClientMessage (tick ?u)) else post ProcessClientMessage ?u) else ?u)"
    by (simp add: assms(6) processClientMessage_result h Let_def)
  have ok: "um_ok (clients ?x)" using assms(1) by (simp add: tables_ok_defs)
  note f = Websocket_new_fields(1-3) [OF w]
  show "opens t = opens x @ [\<lparr>po_ref = next_ref x, po_msg = p, po_phase = Spawned\<rparr>]"
    and "websocketsById t = websocketsById x" and "websocketsByUrlApiKey t = websocketsByUrlApiKey x"
    and "pid t = pid x" and "websocket_id t = websocket_id x + 1"
    and "next_ref t = Suc (next_ref x)" and "\<forall>r. r \<noteq> next_ref x \<longrightarrow> heap t r = heap x r"
    and "ws_id (heap t (next_ref x)) = pid x * 10000 + ucast (websocket_id x + 1)"
    and "ws_url (heap t (next_ref x)) = open_url (shm x) p"
    and "ws_api_key (heap t (next_ref x)) = open_api_key (shm x) p"
    and "run t = run x" and "shutdown_time t = shutdown_time x"
    and "shm t = store_u8 (shm x) (fld WsOpen_layout ''new_connection'' p) 1"
    by (auto simp: t f) (auto simp: take_task_def)
  show "run x \<Longrightarrow> shutdown_time x = 0 \<Longrightarrow> ProcessClientMessage \<in> set (tasks t)"
    by (simp add: t) (simp add: take_task_def)
  have "clients t = clients (stamped ?x p)" by (simp add: t)
  then show "known t q = known x q" using getClient_find [OF ok] by simp
qed

lemma poll_attempt_step:
  assumes "reachable x" and "ProcessClientMessage \<in> set (tasks x)"
  shows "reachable (result_state (processClientMessage (take_task ProcessClientMessage x) (Some p) []))"
  by (rule reach_step [OF assms(1) step_poll]) (simp_all add: assms(2))

section \<open>A client that leaves too early\<close>

text \<open>
  C19: A client that unregisters, or is dropped, while its request to open is still being worked on
  leaves a connection behind that nobody can close.  The attempt can still complete, and then the
  connection is listed with the departed client as a sharer; and from then on no step of the loop
  takes that client out again as long as it does not register anew, unless the peer closes the
  connection or the server shuts down.
\<close>

theorem orphan_connection:
  assumes "reachable s" and "po \<in> set (opens s)" and "q = sender s (po_msg po)" and "\<not> known s q"
    and "i = ws_id (heap s (po_ref po))" and "um_find (websocketsById s) i = None"
  shows "\<exists>t S. rtranclp loop_step s t \<and> conns t i = Some S \<and> q \<in> S \<and> \<not> known t q \<and>
    (\<forall>u v S. reachable u \<and> loop_step u v \<and> conns u i = Some S \<and> q \<in> S \<and> \<not> known u q \<and>
       PushClosed i \<notin> set (trace u) \<and> ShutdownTask \<notin> set (tasks u) \<longrightarrow>
       (\<exists>S'. conns v i = Some S' \<and> q \<in> S'))"
proof -
  have "um_ok (websocketsById s)"
    using server.inv_reach [OF assms(1)] by (simp add: tables_ok_defs)
  from attempt_run [OF refl assms(2) assms(6) [unfolded assms(5)] this] obtain t where t:
      "rtranclp loop_step s t" "um_find (websocketsById t) i = Some (po_ref po)" "others_same (po_ref po) s t"
      "q \<in> ws_clients (heap t (po_ref po))"
    by (auto simp: assms(3,5))
  have stays: "\<exists>S'. conns v i = Some S' \<and> q \<in> S'"
    if u: "reachable u" "loop_step u v" "conns u i = Some S" "q \<in> S" "\<not> known u q"
      "PushClosed i \<notin> set (trace u)" "ShutdownTask \<notin> set (tasks u)" for u v S
  proof -
    obtain l where l: "loop_can l u" "v = loop_do l u" using u(2) by (rule loop_step_label)
    have v: "conns v = sh_conns (sh_next (event_at u l) (sharing_of u)) |` (- dropped_at u l)"
      using arg_cong [OF step_exact [OF _ _ l(1)], of sh_conns] shares.inv_reach [OF u(1)]
      by (simp add: sh_drop_def l(2))
    have "i \<notin> dropped_at u l"
      using l(1) u(6) by (cases "(u, l)" rule: dropped_at.cases) auto
    moreover have "event_at u l \<noteq> Stopped" using event_at_cases(6) [of u l] l(1) u(7) by auto
    then have "\<not> (event_at u l = Unregisters q \<or> event_at u l = Leaves i q \<or>
        (\<exists>L. event_at u l = Expire L \<and> q \<in> L) \<or> event_at u l = Stopped)"
      using event_at_can [of u l] u(5) by auto
    ultimately show ?thesis using abs_step_member [OF u(3,4) event_at_can] v by auto
  qed
  have "conns t i = Some (ws_clients (heap t (po_ref po)))" using t(2) by (simp add: conns_def)
  moreover have "\<not> known t q" using t(3) assms(4) by (simp add: others_same_def)
  ultimately show ?thesis using t(1,4) stays by blast
qed

text \<open>The request to open at address 0, and behind it the client's message to unregister.\<close>

definition demo_leaving :: proxy where
  "demo_leaving = demo_attempt\<lparr>shm :=
     set_type (set_pid (open_demo 7 ''wss://host.com'') 2000 7) 2000 Unregister\<rparr>"

definition demo_left :: proxy where
  "demo_left = result_state (processClientMessage (take_task ProcessClientMessage demo_leaving) (Some 2000) [])"

lemma demo_attempt_more:
  "ProcessClientMessage \<in> set (tasks demo_attempt)" "known demo_attempt 7" "websocket_id demo_attempt = 1"
  "websocketsByUrlApiKey demo_attempt = Map.empty" "next_ref demo_attempt = 1" "pid demo_attempt = 3"
  "run demo_attempt" "shutdown_time demo_attempt = 0" "ws_id (heap demo_attempt 0) = 30001"
  "ws_url (heap demo_attempt 0) = ''wss://host.com''" "ws_api_key (heap demo_attempt 0) = []"
  "shm demo_attempt = store_u8 (open_demo 7 ''wss://host.com'') (fld WsOpen_layout ''new_connection'' 0) 1"
proof -
  have n: "nul_free ''wss://host.com''" "length ''wss://host.com'' < 512" by simp_all
  note f = demo_asking_fields [OF n] demo_registered_fields
  have ok: "tables_ok (demo_asking ''wss://host.com'')" using server.inv_reach demo_reachable(3) by blast
  have "\<not> isl (parse_url ''wss://host.com'')" by code_simp
  then obtain ep where ep: "parse_url ''wss://host.com'' = Inr ep"
    by (cases "parse_url ''wss://host.com''") simp_all
  note r = poll_attempt [OF ok _ _ _ _ demo_attempt_def, of ep]
  show "ProcessClientMessage \<in> set (tasks demo_attempt)" "known demo_attempt 7" "websocket_id demo_attempt = 1"
    "websocketsByUrlApiKey demo_attempt = Map.empty" "next_ref demo_attempt = 1" "pid demo_attempt = 3"
    "run demo_attempt" "shutdown_time demo_attempt = 0" "ws_id (heap demo_attempt 0) = 30001"
    "ws_url (heap demo_attempt 0) = ''wss://host.com''" "ws_api_key (heap demo_attempt 0) = []"
    "shm demo_attempt = store_u8 (open_demo 7 ''wss://host.com'') (fld WsOpen_layout ''new_connection'' 0) 1"
    using r f ep by (simp_all del: type_code.simps) (simp_all add: demo_asking_def)
qed

lemma demo_left_fields:
  "reachable demo_left" "opens demo_left = [\<lparr>po_ref = 0, po_msg = 0, po_phase = Spawned\<rparr>]"
  "sender demo_left 0 = 7" "\<not> known demo_left 7" "websocketsById demo_left = []"
proof -
  let ?x = "take_task ProcessClientMessage demo_leaving"
  let ?m = "set_type (set_pid (open_demo 7 ''wss://host.com'') 2000 7) 2000 Unregister"
  have m: "msg_type ?m 2000 = type_code Unregister" "msg_pid ?m 2000 = 7" "msg_pid ?m 0 = 7"
    by (simp_all add: layout open_demo_def)
  have x: "shm ?x = ?m" "clients ?x = clients demo_attempt" "websocketsById ?x = []"
      "opens ?x = [\<lparr>po_ref = 0, po_msg = 0, po_phase = Spawned\<rparr>]"
    by (simp_all add: demo_leaving_def demo_attempt_fields) (simp_all add: take_task_def demo_attempt_fields)
  have r: "reachable demo_leaving"
    unfolding demo_leaving_def by (rule reach_step [OF demo_attempt_fields(1) client_write])
  then show "reachable demo_left"
    unfolding demo_left_def by (rule poll_attempt_step) (simp add: demo_leaving_def demo_attempt_more)
  have h: "handleClientMessage ?x 2000 = Inr (unregisterClient_iter ?x 7)"
    using m(1,2) demo_attempt_more(2)
    by (simp add: handleClientMessage_def x(1,2) unregister_drop del: type_code.simps)
      (auto simp: demo_leaving_def)
  have "um_ok (clients ?x)"
    using server.inv_reach [OF r] by (simp add: tables_ok_defs)
  then have c: "um_find (um_erase (clients ?x) 7) 7 = None" by (simp add: um.lookup_remove)
  have "websocketsById (drop_client ?x 7) = []" by (simp add: drop_client_def x(3))
  then show "opens demo_left = [\<lparr>po_ref = 0, po_msg = 0, po_phase = Spawned\<rparr>]"
    "sender demo_left 0 = 7" "\<not> known demo_left 7" "websocketsById demo_left = []"
    using c m(3) x by (simp_all add: demo_left_def processClientMessage_result h Let_def)
qed

theorem orphan_connection_witness:
  "\<exists>t i S. rtranclp loop_step demo_left t \<and> conns t i = Some S \<and> 7 \<in> S \<and> \<not> known t 7"
proof -
  have "um_find (websocketsById demo_left) (ws_id (heap demo_left 0)) = None"
    by (simp add: demo_left_fields)
  with orphan_connection [OF demo_left_fields(1) _ refl _ refl, of "\<lparr>po_ref = 0, po_msg = 0, po_phase = Spawned\<rparr>"]
    demo_left_fields(2-4)
  show ?thesis by fastforce
qed

section \<open>Two attempts at once\<close>

text \<open>
  C21: Sharing only covers connections that are established.  Whenever two attempts for the same url and
  key are under way, which is what becomes of a second client's request while the first one's attempt
  is pending, both can complete, and then the server holds two live connections to that url and key.
\<close>

theorem twin_connections:
  assumes "reachable s" and "a \<in> set (opens s)" and "b \<in> set (opens s)" and "po_ref a \<noteq> po_ref b"
    and "i = ws_id (heap s (po_ref a))" and "j = ws_id (heap s (po_ref b))" and "i \<noteq> j"
    and "um_find (websocketsById s) i = None" and "um_find (websocketsById s) j = None"
    and "ws_url (heap s (po_ref a)) = url" and "ws_url (heap s (po_ref b)) = url"
    and "ws_api_key (heap s (po_ref a)) = key" and "ws_api_key (heap s (po_ref b)) = key"
  shows "\<exists>t. rtranclp loop_step s t \<and>
    (\<forall>(k, r) \<in> {(i, po_ref a), (j, po_ref b)}. um_find (websocketsById t) k = Some r \<and>
       ws_status (heap t r) = CONNECTED \<and> ws_url (heap t r) = url \<and> ws_api_key (heap t r) = key)"
proof -
  have "um_ok (websocketsById s)"
    using server.inv_reach [OF assms(1)] by (simp add: tables_ok_defs)
  from attempt_run [OF refl assms(2) assms(8) [unfolded assms(5)] this] obtain t where t:
      "rtranclp loop_step s t" "um_find (websocketsById t) i = Some (po_ref a)" "others_same (po_ref a) s t"
      "ws_status (heap t (po_ref a)) = CONNECTED"
    by (auto simp: assms(5))
  have b: "b \<in> set (opens t)" "heap t (po_ref b) = heap s (po_ref b)" "um_find (websocketsById t) j = None"
    using t(3) assms(3,4,5,6,7,9) by (auto simp: others_same_def)
  have "tables_ok t" by (rule server.inv_steps [OF t(1) server.inv_reach [OF assms(1)]])
  then have "um_ok (websocketsById t)" by (simp add: tables_ok_defs)
  from attempt_run [OF refl b(1) _ this] b obtain u where u:
      "rtranclp loop_step t u" "um_find (websocketsById u) j = Some (po_ref b)" "others_same (po_ref b) t u"
      "ws_status (heap u (po_ref b)) = CONNECTED"
    by (auto simp: assms(6))
  have "um_find (websocketsById u) i = Some (po_ref a)" "heap u (po_ref a) = heap t (po_ref a)"
    using u(3) t(2) b(2) assms(4,6,7) by (auto simp: others_same_def)
  moreover have "rtranclp loop_step s u" using t(1) u(1) by (rule rtranclp_trans)
  moreover have "ws_url (heap u (po_ref a)) = url" "ws_api_key (heap u (po_ref a)) = key"
      "ws_url (heap u (po_ref b)) = url" "ws_api_key (heap u (po_ref b)) = key"
    using t(3) u(3) b(2) assms(10-13) calculation(2) by (simp_all add: others_same_def)
  ultimately show ?thesis using t(4) u(2,4) by (intro exI [of _ u]) simp
qed

text \<open>The request is read a second time before the attempt has moved.\<close>

definition demo_twins :: proxy where
  "demo_twins = result_state (processClientMessage (take_task ProcessClientMessage demo_attempt) (Some 0) [])"

lemma demo_twins_fields:
  "reachable demo_twins" "websocketsById demo_twins = []"
  "opens demo_twins = [\<lparr>po_ref = 0, po_msg = 0, po_phase = Spawned\<rparr>, \<lparr>po_ref = 1, po_msg = 0, po_phase = Spawned\<rparr>]"
  "ws_id (heap demo_twins 0) = 30001" "ws_id (heap demo_twins 1) = 30002"
  "ws_url (heap demo_twins 0) = ''wss://host.com''" "ws_url (heap demo_twins 1) = ''wss://host.com''"
  "ws_api_key (heap demo_twins 0) = []" "ws_api_key (heap demo_twins 1) = []"
proof -
  have ok: "tables_ok demo_attempt" using server.inv_reach demo_attempt_fields(1) by blast
  have n: "nul_free ''wss://host.com''" "length ''wss://host.com'' < 512" by simp_all
  have "\<not> isl (parse_url ''wss://host.com'')" by code_simp
  then obtain ep where ep: "parse_url ''wss://host.com'' = Inr ep"
    by (cases "parse_url ''wss://host.com''") simp_all
  have m: "sender demo_attempt 0 = 7" "msg_type (shm demo_attempt) 0 = type_code OpenWs"
      "open_url (shm demo_attempt) 0 = ''wss://host.com''" "open_api_key (shm demo_attempt) 0 = []"
      "live demo_attempt k = None" for k
    using n by (simp_all add: demo_attempt_more new_mark_fields live_def fm_find_def del: type_code.simps)
      (simp_all add: layout open_demo_def del: type_code.simps)
  note f = poll_attempt [OF ok _ _ _ _ demo_twins_def, of ep]
  show "reachable demo_twins"
    unfolding demo_twins_def by (rule poll_attempt_step [OF demo_attempt_fields(1) demo_attempt_more(1)])
  show "websocketsById demo_twins = []"
    "opens demo_twins = [\<lparr>po_ref = 0, po_msg = 0, po_phase = Spawned\<rparr>, \<lparr>po_ref = 1, po_msg = 0, po_phase = Spawned\<rparr>]"
    "ws_id (heap demo_twins 0) = 30001" "ws_id (heap demo_twins 1) = 30002"
    "ws_url (heap demo_twins 0) = ''wss://host.com''" "ws_url (heap demo_twins 1) = ''wss://host.com''"
    "ws_api_key (heap demo_twins 0) = []" "ws_api_key (heap demo_twins 1) = []"
    using f m ep demo_attempt_more(2-12) demo_attempt_fields(2,3) by (simp_all del: type_code.simps)
qed

theorem twin_connections_witness:
  "\<exists>t. rtranclp loop_step demo_twins t \<and> um_find (websocketsById t) 30001 = Some 0 \<and>
     um_find (websocketsById t) 30002 = Some 1"
  using twin_connections [OF demo_twins_fields(1), of "\<lparr>po_ref = 0, po_msg = 0, po_phase = Spawned\<rparr>"
      "\<lparr>po_ref = 1, po_msg = 0, po_phase = Spawned\<rparr>", OF _ _ _ refl refl _ _ _ refl _ refl]
    demo_twins_fields by force

end
