(* ===== verification/Expiry.thy ===== *)
theory Expiry
  imports Sharing_Limits
begin

text \<open>
  The two copies of the code that lets a client go: by its own request and by silence.  A round of
  heartbeat checks is a run of unregistrations, and the order in which the map is visited is of no
  consequence to who shares what.
\<close>

section \<open>Expiring is unregistering\<close>

definition lost_clients :: "u64 \<Rightarrow> (u64 \<times> client_info) list \<Rightarrow> u64 list" where
  "lost_clients now cs = map fst (filter (\<lambda>(q, c). heartbeat_lost now c) cs)"

lemma check_clients_unregisters:
  assumes "um_ok (clients s)" and "um_ok cs" and "\<forall>x \<in> set cs. known s (fst x)"
  shows "check_clients now cs s = fold (\<lambda>q x. unregisterClient x q) (lost_clients now cs) s"
  using assms
proof (induction now cs s rule: check_clients.induct)
  case (1 now s)
  then show ?case by (simp add: lost_clients_def)
next
  case (2 now q c cs s)
  have cs: "um_ok cs" "q \<notin> fst ` set cs" using 2(4) by (auto simp: um_ok_def)
  have k: "known s q" using 2(5) by simp
  have "\<forall>x \<in> set cs. known (unregisterClient_iter s q) (fst x)"
    using 2(3,5) cs(2) by (simp add: um.lookup_remove) force
  then show ?case
    using 2 cs(1) k by (auto simp: lost_clients_def unregister_drop um.ok_remove)
qed

text \<open>
  C14: A round of heartbeat checks does exactly what the silent clients' own requests to unregister would
  do, one after the other, after the server's heartbeat; and to the clients and their connections it
  makes no difference in which order the hash map gives the clients out.
\<close>

theorem heartbeats_unregister:
  assumes "tables_ok s" and "clients s \<noteq> []" and "now = get_timestamp s"
    and "s1 = snd (sendHeartbeat (tick s) now)" and "um_ok cs" and "set cs = set (clients s)"
  shows "snd (checkHeartbeats s) = fold (\<lambda>q x. unregisterClient x q) (lost_clients now (clients s)) s1 \<and>
    sharing_of (fold (\<lambda>q x. unregisterClient x q) (lost_clients now cs) s1) = sharing_of (snd (checkHeartbeats s))"
proof -
  have ok: "um_ok (clients s)" "tables_ok s1" "clients s1 = clients s"
    using assms(1,4) by (simp_all add: tables_ok_defs)
  have k: "\<forall>x \<in> set (clients s). known s1 (fst x)"
    using ok by (auto dest: um_in_set_find)
  have h: "snd (checkHeartbeats s) = check_clients now (clients s) s1"
    using assms(2) by (simp add: checkHeartbeats_def assms(3,4) split_beta)
  have "sharing_of (check_clients now cs s1) = sharing_of (check_clients now (clients s) s1)"
    by (simp only: sharing_check_clients [OF ok(2)] assms(6))
  then show ?thesis
    using check_clients_unregisters [of s1 "clients s" now] check_clients_unregisters [of s1 cs now] ok k assms(5,6) h
    by simp
qed

theorem heartbeats_unregister_witness:
  "snd (checkHeartbeats (demo_state\<lparr>env := demo_env\<lparr>env_clock := (\<lambda>n. 30950)\<rparr>\<rparr>)) =
    unregisterClient (snd (sendHeartbeat (tick (demo_state\<lparr>env := demo_env\<lparr>env_clock := (\<lambda>n. 30950)\<rparr>\<rparr>)) 30950)) 7"
proof -
  let ?s = "demo_state\<lparr>env := demo_env\<lparr>env_clock := (\<lambda>n. 30950)\<rparr>\<rparr>"
  have "tables_ok ?s" by (rule tables_ok_cong [THEN iffD1, of demo_state]) simp_all
  moreover have "get_timestamp ?s = 30950" by (simp add: get_timestamp_def)
  moreover have "lost_clients 30950 (clients ?s) = [7]"
    by (simp add: lost_clients_def heartbeat_lost_def)
  moreover have "um_ok (clients ?s)" by (simp add: um_ok_def)
  ultimately show ?thesis
    using heartbeats_unregister [of ?s _ _ "clients ?s", OF _ _ refl refl _ refl] by simp
qed

end
