(* ===== verification/Published.thy ===== *)
theory Published
  imports Expiry
begin

text \<open>
  Every message the server ever publishes is well typed: its header names the server and a type that
  clients understand, and it is as long as that type, with the length it carries, makes it.
\<close>

section \<open>Well-typed messages\<close>

text \<open>The size of a message of a type: the types with a payload carry its length.\<close>

fun message_size :: "msg_type \<Rightarrow> mem \<Rightarrow> u32" where
  "message_size OpenWs b = get_message_size WsOpen_layout 0"
| "message_size CloseWs b = get_message_size WsClose_layout 0"
| "message_size WsError b = get_message_size WsError_layout (load_u32 b (fld WsError_layout ''len'' 0))"
| "message_size WsData b = get_message_size WsData_layout (load_u32 b (fld WsData_layout ''len'' 0))"
| "message_size _ b = of_nat (sizeof Message_layout)"

definition to_clients :: "msg_type set" where
  "to_clients = {Heartbeat, OpenWs, CloseWs, WsError, WsData}"

definition well_typed :: "u64 \<Rightarrow> string \<Rightarrow> bool" where
  "well_typed server bs \<longleftrightarrow> (\<exists>ty b. ty \<in> to_clients \<and> bs = load b 0 (unat (message_size ty b)) \<and>
     msg_pid b 0 = server \<and> msg_type b 0 = type_code ty \<and> msg_status b 0 = status_code PENDING)"

section \<open>What a step may emit\<close>

text \<open>
  A message of type \<open>ty\<close> in a block, as the server builds it, of the size it gives it.
\<close>

definition block_of :: "u64 \<Rightarrow> msg_type \<Rightarrow> mem \<Rightarrow> u32 \<Rightarrow> bool" where
  "block_of server ty b sz \<longleftrightarrow> msg_pid b 0 = server \<and> msg_type b 0 = type_code ty \<and> msg_status b 0 = 0 \<and>
     sz = message_size ty b"

named_theorems emitting

text \<open>
  \<open>fine p a\<close>: a server with pid \<open>p\<close> may do \<open>a\<close>.  If it may publish every message except that a connection
  is closed, and do everything that is no message and no entry of the queue of closed sockets, then
  every step of the loop other than the completion of a close does only what it may.
\<close>

locale emission =
  fixes fine :: "u64 \<Rightarrow> action \<Rightarrow> bool"
  assumes fine_silent: "(\<And>bs. a \<noteq> Publish bs) \<Longrightarrow> (\<And>i. a \<noteq> PushClosed i) \<Longrightarrow> fine p a"
    and fine_block: "ty \<in> to_clients \<Longrightarrow> ty \<noteq> CloseWs \<Longrightarrow> block_of p ty b sz \<Longrightarrow> fine p (Publish (load b 0 (unat sz)))"
begin

definition emits :: "proxy \<Rightarrow> proxy \<Rightarrow> bool" where
  "emits s t \<longleftrightarrow> pid t = pid s \<and> (\<exists>as. trace t = trace s @ as \<and> (\<forall>a \<in> set as. fine (pid s) a))"

lemma emits_refl [simp]: "emits s s"
  by (simp add: emits_def)

lemma emits_trans: "emits s t \<Longrightarrow> emits t u \<Longrightarrow> emits s u"
  unfolding emits_def by (elim conjE exE) (rule conjI, simp, rule_tac x = "as @ asa" in exI, auto)

lemma emits_same: "trace t = trace s \<Longrightarrow> pid t = pid s \<Longrightarrow> emits s t"
  by (simp add: emits_def)

lemma emits_action: "fine (pid t) a \<Longrightarrow> emits s t \<Longrightarrow> emits s (emit a t)"
  by (rule emits_trans) (auto simp: emits_def)

lemma emits_publish:
  "emits s t \<Longrightarrow> fine (pid t) (Publish (load m 0 (unat sz))) \<Longrightarrow> emits s (sendMessageToClient t m sz)"
  "emits s t \<Longrightarrow> fine (pid t) (Publish (load m 0 (unat sz))) \<Longrightarrow> emits s (sendMessageToClient_at t m sz now)"
  by (erule emits_trans, simp add: emits_def)+

lemma emits_frames [simp]:
  "emits s (tick t) = emits s t" "emits s (upd_shm f t) = emits s t" "emits s (reply p st t) = emits s t"
  "emits s (post x t) = emits s t" "emits s (upd_sock r g t) = emits s t"
  "emits s (set_ws_status r ws t) = emits s t" "emits s (upd_subs r h t) = emits s t"
  "emits s (leave_one r q t) = emits s t" "emits s (snd (getClient t q)) = emits s t"
  by (simp_all add: emits_def)

lemma emits_fields [simp]:
  "emits s (t\<lparr>clients := a\<rparr>) = emits s t" "emits s (t\<lparr>websocketsById := b\<rparr>) = emits s t"
  "emits s (t\<lparr>websocketsByUrlApiKey := c\<rparr>) = emits s t" "emits s (t\<lparr>shutdown_time := d\<rparr>) = emits s t"
  "emits s (t\<lparr>opens := e\<rparr>) = emits s t" "emits s (t\<lparr>run := f\<rparr>) = emits s t"
  "emits s (t\<lparr>heap := g\<rparr>) = emits s t" "emits s (t\<lparr>tasks := h\<rparr>) = emits s t"
  "emits s (t\<lparr>websocket_id := i\<rparr>) = emits s t" "emits s (t\<lparr>next_ref := j\<rparr>) = emits s t"
  "emits s (t\<lparr>shm := k\<rparr>) = emits s t" "emits s (t\<lparr>io := l\<rparr>) = emits s t"
  by (simp_all add: emits_def)

lemma emits_start_io [emitting]: "emits s t \<Longrightarrow> emits s (start_io op t)"
  by (rule emits_trans [of s t]) (auto simp: emits_def start_io_def fine_silent)

section \<open>The callbacks\<close>

lemma fresh_block:
  "msg_pid (set_type (reserve_block p) 0 ty) 0 = p" "msg_type (set_type (reserve_block p) 0 ty) 0 = type_code ty"
  "msg_status (set_type (reserve_block p) 0 ty) 0 = 0"
  by (simp_all add: layout reserve_block_def)

lemma emits_onWs [emitting]:
  "emits s t \<Longrightarrow> emits s (onWsOpened t i c)"
  "emits s t \<Longrightarrow> emits s (onWsError t i err len)" "emits s t \<Longrightarrow> emits s (onWsData t i d len rem)"
  "emits s t \<Longrightarrow> emits s (snd (sendHeartbeat t now))"
  subgoal
    by (simp add: onWsOpened_def Let_def)
      (erule emits_publish, rule fine_block [of OpenWs]; simp add: to_clients_def block_of_def layout reserve_block_def)
  subgoal
    by (simp add: onWsError_def Let_def)
      (intro conjI impI; erule emits_publish, rule fine_block [of WsError];
        simp add: to_clients_def block_of_def layout reserve_block_def)
  subgoal
    by (simp add: onWsData_def Let_def)
      (intro conjI impI; erule emits_publish, rule fine_block [of WsData];
        simp add: to_clients_def block_of_def layout reserve_block_def)
  subgoal
    by (simp add: sendHeartbeat_def Let_def)
      (intro impI; erule emits_publish, rule fine_block [of Heartbeat];
        simp add: to_clients_def block_of_def fresh_block)
  done

section \<open>The websockets and the handlers\<close>

lemma emits_websocket [emitting]:
  "emits s t \<Longrightarrow> emits s (websocket_close t r)" "emits s t \<Longrightarrow> emits s (websocket_send t r b)"
  "emits s t \<Longrightarrow> emits s (websocket_fail t r e None c)"
  "emits s t \<Longrightarrow> emits s (open_callback r p ok t)"
  by (simp_all add: websocket_close_def websocket_send_def websocket_fail_def open_callback_def Let_def emitting)

lemma emits_fail [emitting]: "emits s t \<Longrightarrow> emits s (websocket_fail t r e (Some (open_callback r' p)) c)"
  by (simp add: websocket_fail_def Let_def emitting)

lemma emits_on_io [emitting]:
  "emits s t \<Longrightarrow> emits s (websocket_on_write t r ec n)" "emits s t \<Longrightarrow> emits s (websocket_on_read t r ec d n)"
  by (simp_all add: websocket_on_write_def websocket_on_read_def Let_def emitting split: option.split)

lemma emits_closeWs_id [emitting]: "emits s t \<Longrightarrow> emits s (closeWs_id t i q)"
  by (simp add: closeWs_id_def Let_def emitting split: option.split)

lemma emits_close_fold [emitting]: "emits s t \<Longrightarrow> emits s (fold (\<lambda>i x. closeWs_id x i q) is t)"
  by (induction "is" arbitrary: t) (simp_all add: emitting)

lemma emits_drop_client [emitting]: "emits s t \<Longrightarrow> emits s (drop_client t q)"
  unfolding drop_client_def by (rule emits_close_fold, subst leave_all_heap_only) simp

lemma emits_unregister [emitting]:
  "emits s t \<Longrightarrow> emits s (unregisterClient_iter t q)" "emits s t \<Longrightarrow> emits s (unregisterClient t q)"
  by (simp_all add: unregister_drop unregister_iter_drop Let_def emitting)

lemma emits_check_clients [emitting]: "emits s t \<Longrightarrow> emits s (check_clients now cs t)"
  by (induction now cs t rule: check_clients.induct) (simp_all add: emitting)

lemma emits_startHeartbeat [emitting]: "emits s t \<Longrightarrow> emits s (startHeartbeat t)"
  by (simp add: startHeartbeat_def checkHeartbeats_def Let_def split_beta emitting)

lemma emits_handlers [emitting]:
  "emits s t \<Longrightarrow> emits s (handleClientRegistration t p)" "emits s t \<Longrightarrow> emits s (closeWs t p)"
  "emits s t \<Longrightarrow> emits s (handleSubscribe t p)" "emits s t \<Longrightarrow> emits s (handleUnsubscribe t p)"
  "emits s t \<Longrightarrow> emits s (sendWsRequest t p)" "emits s t \<Longrightarrow> emits s (share_ws t p r)"
  "emits s t \<Longrightarrow> emits s (result_state (openNewWs t p))"
  by (simp_all add: handleClientRegistration_def closeWs_def handleSubscribe_def handleUnsubscribe_def
      sendWsRequest_def share_ws_def openNewWs_def Let_def split_beta emitting split: option.split sum.split)

lemma emits_handleClientMessage [emitting]: "emits s t \<Longrightarrow> emits s (result_state (handleClientMessage t p))"
  by (simp add: handleClientMessage_def openWs_def handleClientHeartbeat_def Let_def split_beta emitting
      emits_action fine_silent split: option.split msg_type.split)

lemma emits_removeClosedSockets [emitting]: "emits s t \<Longrightarrow> emits s (removeClosedSockets ids t)"
  by (induction ids t rule: removeClosedSockets.induct) (simp_all split: option.split)

lemma emits_close_all [emitting]: "emits s t \<Longrightarrow> emits s (close_all kvs t)"
  by (induction kvs t rule: close_all.induct) (simp_all add: Let_def emitting)

lemma emits_poll [emitting]:
  assumes "emits s t"
  shows "emits s (result_state (processClientMessage t rd ids))"
proof -
  let ?h = "case rd of Some p \<Rightarrow> handleClientMessage t p | None \<Rightarrow> Inr t"
  have "emits s (result_state ?h)" using assms by (simp add: emitting split: option.split)
  then show ?thesis
    by (cases ?h) (auto simp: processClientMessage_result Let_def emitting)
qed

lemma emits_resume [emitting]:
  assumes "emits s t"
  shows "emits s (resume_open t po oc)"
  using assms by (cases "po_phase po")
    (simp_all add: resume_open_def take_open_def Let_def emitting split: option.split)

text \<open>The state in which a completed close is announced.\<close>

lemma emits_before_close: "emits s (set_ws_status r DISCONNECTED (case ec of
    Some e \<Rightarrow> if fst e \<noteq> ErrClosed then websocket_fail (take_io op s) r e None True else take_io op s
  | None \<Rightarrow> take_io op s))"
  by (simp add: take_io_def emitting split: option.split)

lemma emits_loop_do:
  assumes "\<forall>r ec. l \<noteq> ClosedDone r ec"
  shows "emits s (loop_do l s)"
  using assms
  by (cases l) (simp_all add: first_heartbeat_task_def shutdown_task_def shutdown_timer_task_def shutdown_def
    take_defs Let_def emitting emits_action fine_silent)

lemma emits_loop_step:
  assumes "loop_step s t" and "\<not> (\<exists>r ec. CloseOp r \<in> set (io s) \<and> t = websocket_on_close (take_io (CloseOp r) s) r ec)"
  shows "emits s t"
proof -
  from assms(1) obtain l where l: "loop_can l s" "t = loop_do l s" by (rule loop_step_label)
  then have "\<forall>r ec. l \<noteq> ClosedDone r ec" using assms(2) by (metis loop_can.simps(13) loop_do.simps(13))
  from emits_loop_do [OF this] l(2) show ?thesis by simp
qed

end

text \<open>The same, where closes may be announced too.\<close>

locale closing_emission = emission +
  assumes fine_close: "block_of p CloseWs b sz \<Longrightarrow> fine p (Publish (load b 0 (unat sz)))"
    and fine_push: "fine p (PushClosed i)"
begin

lemma emits_onWsClosed: "emits s t \<Longrightarrow> emits s (onWsClosed t i)"
  by (simp add: onWsClosed_def Let_def)
    (rule emits_action, rule fine_push, erule emits_publish, rule fine_close;
      simp add: block_of_def layout reserve_block_def)

lemma emits_any_step:
  assumes "loop_step s t"
  shows "emits s t"
proof (cases "\<exists>r ec. CloseOp r \<in> set (io s) \<and> t = websocket_on_close (take_io (CloseOp r) s) r ec")
  case True
  then show ?thesis by (auto simp: websocket_on_close_def Let_def intro!: emits_onWsClosed emits_before_close)
next
  case False
  with assms show ?thesis by (rule emits_loop_step)
qed

end

section \<open>Every message is well typed\<close>

lemma well_typed_block:
  assumes "ty \<in> to_clients" and "block_of p ty b sz"
  shows "well_typed p (load b 0 (unat sz))"
  using assms by (auto simp: well_typed_def block_of_def)

interpretation typing: closing_emission "\<lambda>p a. \<forall>bs. a = Publish bs \<longrightarrow> well_typed p bs"
  by unfold_locales (auto intro: well_typed_block simp: to_clients_def)

definition all_typed :: "proxy \<Rightarrow> bool" where
  "all_typed s \<longleftrightarrow> (\<forall>bs \<in> set (published s). well_typed (pid s) bs)"

lemma in_published: "bs \<in> set (published s) \<longleftrightarrow> Publish bs \<in> set (trace s)"
  by (auto simp: published_def split: action.splits)

interpretation typed: invariant_system loop_init loop_step all_typed
proof unfold_locales
  show "loop_init s \<Longrightarrow> all_typed s" for s
    by (auto simp: loop_init_def run_start_def all_typed_def published_def)
  show "all_typed s \<Longrightarrow> loop_step s t \<Longrightarrow> all_typed t" for s t
    using typing.emits_any_step [of s t] by (auto simp: all_typed_def in_published typing.emits_def)
qed

section \<open>Reading what was published\<close>

text \<open>
  C9: Every message the server has published, in any run, is one that a client can read: whatever the
  network delivered and the clients asked for, it carries the server's own pid, the status \<open>PENDING\<close> and
  one of the five types that go to clients, and its length is that of its type with the payload
  length it declares.  So in particular its header can be read back, wherever the message lies.
\<close>

theorem published_typed:
  assumes "reachable s" and "bs \<in> set (published s)"
  shows "\<exists>ty b. ty \<in> to_clients \<and> bs = load b 0 (unat (message_size ty b)) \<and>
    (\<forall>m p. holds m p bs \<and> 10 \<le> length bs \<longrightarrow>
       msg_pid m p = pid s \<and> msg_type m p = type_code ty \<and> msg_status m p = status_code PENDING)"
proof -
  have "well_typed (pid s) bs" using typed.inv_reach [OF assms(1)] assms(2) by (simp add: all_typed_def)
  then obtain ty b where b: "ty \<in> to_clients" "bs = load b 0 (unat (message_size ty b))"
      "msg_pid b 0 = pid s" "msg_type b 0 = type_code ty" "msg_status b 0 = status_code PENDING"
    by (auto simp: well_typed_def)
  have "msg_pid m p = pid s \<and> msg_type m p = type_code ty \<and> msg_status m p = status_code PENDING"
    if "holds m p bs" "10 \<le> length bs" for m p
  proof -
    have h: "holds m p (load b 0 (unat (message_size ty b)))" and n: "10 \<le> unat (message_size ty b)"
      using that b(2) by simp_all
    show ?thesis
      using holds_loads(3) [OF h, of 0] holds_loads(1) [OF h, of 8] holds_loads(1) [OF h, of 9] n b(3-5)
      by (simp add: layout)
  qed
  with b(1,2) show ?thesis by blast
qed

text \<open>The heartbeat with which the server begins.\<close>

definition demo_beat :: proxy where
  "demo_beat = first_heartbeat_task (take_task FirstHeartbeat demo_start)"

lemma demo_beat_fields: "reachable demo_beat" "\<exists>bs. bs \<in> set (published demo_beat)"
proof -
  show "reachable demo_beat"
    unfolding demo_beat_def by (rule reach_step [OF demo_reachable(1) step_first]) (simp add: demo_start_def run_start_def)
  have "\<exists>bs. Publish bs \<in> set (trace (snd (sendHeartbeat (tick (take_task FirstHeartbeat demo_start)) 1000)))"
    by (simp add: sendHeartbeat_def demo_start_def run_start_def take_task_def HEARTBEAT_INTERVAL_def Let_def tick_def post_def)
  then obtain bs where bs: "Publish bs \<in> set (trace (snd (sendHeartbeat (tick (take_task FirstHeartbeat demo_start)) 1000)))"
    by blast
  have n: "get_timestamp (take_task FirstHeartbeat demo_start) = 1000"
    by (simp add: get_timestamp_def demo_start_def run_start_def take_task_def post_def)
  have "typing.emits x (startHeartbeat x)" for x by (rule typing.emits_startHeartbeat) simp
  then have "Publish bs \<in> set (trace demo_beat)"
    using bs n by (auto simp: demo_beat_def first_heartbeat_task_def typing.emits_def) (metis UnCI set_append)
  then show "\<exists>bs. bs \<in> set (published demo_beat)" by (auto simp: in_published)
qed

theorem published_typed_witness:
  "\<exists>ty b bs. ty \<in> to_clients \<and> bs \<in> set (published demo_beat) \<and> bs = load b 0 (unat (message_size ty b))"
  using demo_beat_fields(2) published_typed [OF demo_beat_fields(1)] by blast

end
