(* ===== verification/Informed.thy ===== *)
theory Informed
  imports News Published
begin

text \<open>
  Server and client together, over the log of what the server publishes: a client that has read the log
  has open every connection the server has it down for.
\<close>

section \<open>What the steps of the server tell\<close>

definition told_by :: "proxy \<Rightarrow> news list" where
  "told_by s = map (news_of (pid s)) (published s)"

lemma type_of_stored:
  "msg_type (store zero_mem 0 (load b 0 n)) 0 = (if 8 < n then msg_type b 0 else 0)"
  by (auto simp: layout load_u8_def load_def store_def zero_mem_def)

lemma no_close_news:
  assumes "msg_type b 0 = type_code ty" and "ty \<noteq> CloseWs"
  shows "news_of p (load b 0 n) \<noteq> NewsClose i"
proof -
  let ?m = "store zero_mem 0 (load b 0 n)"
  have "type_of_code (msg_type ?m 0) = Some ty \<or> type_of_code (msg_type ?m 0) = Some Register"
    using assms(1) type_of_code_type_code [of Register] by (auto simp: type_of_stored)
  then show ?thesis
    using assms(2) by (cases ty) (auto simp: news_of_def news_at_def Let_def)
qed

text \<open>Only the completion of a close tells of a close.\<close>

interpretation open_talk: emission
  "\<lambda>p a. (\<forall>bs i. a = Publish bs \<longrightarrow> news_of p bs \<noteq> NewsClose i) \<and> (\<forall>i. a \<noteq> PushClosed i)"
  by unfold_locales (auto simp: block_of_def elim: no_close_news [THEN notE, rotated 2])

lemma onWsOpened_news:
  obtains bs where "trace (onWsOpened s i q) = trace s @ [Publish bs]" and "news_of (pid s) bs = NewsOpen i q"
    and "complete bs"
proof -
  let ?m = "store_u8 (store_u64 (store_u64 (set_type (reserve_block (pid s)) 0 OpenWs)
      (fld WsOpen_layout ''id'' 0) i) (fld WsOpen_layout ''client_pid'' 0) q) (fld WsOpen_layout ''new_connection'' 0) 1"
  have ty: "msg_type ?m 0 = type_code OpenWs" "msg_pid ?m 0 = pid s"
    by (simp_all add: layout reserve_block_def del: type_code.simps)
  then have c: "complete_at ?m 1307" by (simp add: complete_at_def del: type_code.simps)
  have "news_at ?m 0 = NewsOpen i q"
    using ty(1) by (simp add: news_at_def del: type_code.simps) (simp add: layout)
  moreover have "trace (onWsOpened s i q) = trace s @ [Publish (load ?m 0 1307)]"
    by (simp add: onWsOpened_def Let_def get_message_size_def)
  ultimately show ?thesis using that news_of_load [OF c, of "pid s"] complete_load [OF c] ty(2) by simp
qed

lemma published_append:
  assumes "trace t = trace s @ as"
  shows "published t = published s @ concat (map (\<lambda>a. case a of Publish m \<Rightarrow> [m] | _ \<Rightarrow> []) as)"
  using assms by (simp add: published_def)

text \<open>A run adds to the trace, and keeps the server's pid.\<close>

lemma steps_trace:
  assumes "rtranclp loop_step s t"
  shows "\<exists>as. trace t = trace s @ as \<and> pid t = pid s"
  using assms
proof (induction rule: rtranclp_induct)
  case (step t u)
  then show ?case using typing.emits_any_step [OF step(2)] by (auto simp: typing.emits_def)
qed simp

lemma steps_reachable: "rtranclp loop_step s t \<Longrightarrow> reachable s \<Longrightarrow> reachable t"
  by (induction rule: rtranclp_induct) (auto intro: reach_step)

section \<open>Joining is announced\<close>

lemma trace_poll_tail:
  "trace (result_state (processClientMessage s rd ids)) =
     trace (result_state (case rd of Some p \<Rightarrow> handleClientMessage s p | None \<Rightarrow> Inr s))"
proof -
  have r: "trace (removeClosedSockets ids x) = trace x" for x
    by (induction ids x rule: removeClosedSockets.induct) (simp_all split: option.split)
  show ?thesis
    by (cases "case rd of Some p \<Rightarrow> handleClientMessage s p | None \<Rightarrow> Inr s")
      (auto simp: processClientMessage_result Let_def r)
qed

lemma take_task_more [simp]:
  "shm (take_task x s) = shm s" "pid (take_task x s) = pid s" "trace (take_task x s) = trace s"
  "heap (take_task x s) = heap s"
  by (simp_all add: take_task_def)

lemma share_ws_news:
  obtains bs where "trace (share_ws s p r) = trace s @ [Publish bs]" and
    "news_of (pid s) bs = NewsOpen (ws_id (heap s r)) (sender s p)"
proof -
  let ?s = "upd_shm (\<lambda>m. store_u8 m (fld WsOpen_layout ''new_connection'' p)
      (if ws_status (heap s r) = CONNECTING then 1 else 0))
    (upd_shm (\<lambda>m. store_u64 m (fld WsOpen_layout ''client_pid'' p) (msg_pid m p))
      (upd_shm (\<lambda>m. store_u64 m (fld WsOpen_layout ''id'' p) (ws_id (heap s r)))
        (upd_sock r (\<lambda>w. w\<lparr>ws_clients := insert (sender s p) (ws_clients w)\<rparr>) s)))"
  obtain bs where "trace (onWsOpened ?s (ws_id (heap s r)) (sender s p)) = trace ?s @ [Publish bs]"
      "news_of (pid ?s) bs = NewsOpen (ws_id (heap s r)) (sender s p)"
    by (rule onWsOpened_news [of ?s])
  moreover have "sender ?s p = sender s p" by (simp add: layout)
  ultimately show ?thesis using that by (simp add: share_ws_def Let_def)
qed

text \<open>The client a step makes a sharer is told so in this step.\<close>

lemma joined_is_told:
  assumes "tables_ok s" and "fresh_opens s" and "loop_step s t" and "conns t i = Some S" and "q \<in> S"
    and "\<not> (\<exists>S. conns s i = Some S \<and> q \<in> S)"
  shows "\<exists>bs as. trace t = trace s @ as \<and> Publish bs \<in> set as \<and> news_of (pid s) bs = NewsOpen i q"
proof -
  obtain l where l: "loop_can l s" "t = loop_do l s" using assms(3) by (rule loop_step_label)
  have "conns t = sh_conns (sh_next (event_at s l) (sharing_of s)) |` (- dropped_at s l)"
    using arg_cong [OF step_exact [OF assms(1,2) l(1)], of sh_conns] by (simp add: sh_drop_def l(2))
  then have n: "sh_conns (sh_next (event_at s l) (sharing_of s)) i = Some S"
    using assms(4) by (simp add: restrict_map_def split: if_splits)
  then have "event_at s l = Joins i q \<or> event_at s l = Established i q"
    using assms(5,6) by (cases "event_at s l")
      (auto simp: abs_unregister_def abs_drop_def abs_leave_def abs_join_def split: option.splits if_splits)
  then show ?thesis
  proof
    assume "event_at s l = Joins i q"
    from event_at_cases(3) [OF this] obtain p ids r where h: "l = Polls (Some p) ids"
      and ty: "type_of_code (msg_type (shm s) p) = Some OpenWs" and q: "q = sender s p" and k: "known s q"
      and lv: "live s (open_key (shm s) p) = Some r" and r: "um_find (websocketsById s) i = Some r"
      by blast
    let ?s = "take_task ProcessClientMessage s"
    have t: "t = result_state (processClientMessage ?s (Some p) ids)" by (simp add: l(2) h)
    have s: "sender ?s p = sender s p" "known ?s q" "live ?s (open_key (shm ?s) p) = Some r" "shm ?s = shm s"
      using k lv by simp_all
    have "ws_id (heap s r) = i" using byId_okD(2) [OF _ r] assms(1) by (simp add: tables_ok_def)
    moreover have "handleClientMessage ?s p = Inr (share_ws (stamped ?s p) p r)"
      using openWs_live [of ?s p r] s q ty by (simp add: handleClientMessage_def)
    ultimately obtain bs where "trace t = trace s @ [Publish bs]" "news_of (pid s) bs = NewsOpen i q"
      using share_ws_news [of "stamped ?s p" p r] q by (auto simp: t trace_poll_tail)
    then show ?thesis by (intro exI [of _ bs] exI [of _ "[Publish bs]"]) simp
  next
    assume "event_at s l = Established i q"
    from event_at_cases(4) [OF this] obtain po oc where po: "l = Resumes po oc" "po_phase po = WsHandshaking"
        "i = ws_id (heap s (po_ref po))" "q = sender s (po_msg po)" "oc_error oc = None"
      by blast
    let ?s = "start_io (ReadOp (po_ref po)) (set_ws_status (po_ref po) CONNECTED (take_open po s))"
    obtain bs where bs: "trace (onWsOpened ?s i q) = trace ?s @ [Publish bs]" "news_of (pid ?s) bs = NewsOpen i q"
      by (rule onWsOpened_news [of ?s])
    have "trace t = trace (onWsOpened ?s i q)"
      using po by (simp add: l(2) resume_open_def open_callback_def Let_def) (simp add: take_open_def)
    with bs have "trace t = trace s @ [Start (ReadOp (po_ref po)), Publish bs]" "news_of (pid s) bs = NewsOpen i q"
      by (simp_all add: take_open_def)
    then show ?thesis by (intro exI [of _ bs] exI [of _ "[Start (ReadOp (po_ref po)), Publish bs]"]) simp
  qed
qed

text \<open>Along a run, from a state in which the client shares nothing.\<close>

lemma sharers_are_told:
  assumes "reachable s" and "rtranclp loop_step s t" and "\<And>i S. conns s i = Some S \<Longrightarrow> q \<notin> S"
    and "conns t i = Some S" and "q \<in> S"
  shows "\<exists>as bs. trace t = trace s @ as \<and> Publish bs \<in> set as \<and> news_of (pid s) bs = NewsOpen i q"
  using assms(2,4,5)
proof (induction arbitrary: S rule: rtranclp_induct)
  case base
  then show ?case using assms(3) by blast
next
  case (step t u)
  have r: "reachable t" by (rule steps_reachable [OF step(1) assms(1)])
  obtain as where u: "trace u = trace t @ as"
    using typing.emits_any_step [OF step(2)] by (auto simp: typing.emits_def)
  obtain bs' where t: "trace t = trace s @ bs'" "pid t = pid s" using steps_trace [OF step(1)] by blast
  show ?case
  proof (cases "\<exists>S. conns t i = Some S \<and> q \<in> S")
    case True
    then obtain cs bs where "trace t = trace s @ cs" "Publish bs \<in> set cs" "news_of (pid s) bs = NewsOpen i q"
      using step.IH by blast
    then show ?thesis using u by (intro exI [of _ "cs @ as"] exI [of _ bs]) simp
  next
    case False
    have "tables_ok t" "fresh_opens t" using shares.inv_reach [OF r] by auto
    from joined_is_told [OF this step(2,4,5) False] obtain bs cs where
      "trace u = trace t @ cs" "Publish bs \<in> set cs" "news_of (pid s) bs = NewsOpen i q"
      using t(2) by auto
    then show ?thesis using t(1) by (intro exI [of _ "bs' @ cs"] exI [of _ bs]) simp
  qed
qed

section \<open>Server and client together\<close>

text \<open>
  C7: A client knows of every connection the server has it down for.  Take any run of the server from a
  state in which the client shares no connection, and a connected client whose worker reads what the
  server publishes meanwhile: whatever connection the server shares with it in the end, whether it
  joined it or its own attempt established it, the client has open and the application was told
  so, unless the server has announced the connection closed.
\<close>

theorem sharers_informed:
  assumes "reachable s" and "rtranclp loop_step s t" and "\<forall>i S. conns s i = Some S \<longrightarrow> cl_pid c \<notin> S"
    and "published t = published s @ log" and "follows c log d" and "cl_server_pid c = pid s" and "pid s \<noteq> 0"
    and "distinct (cl_websockets c)"
    and "conns t i = Some S" and "cl_pid c \<in> S" and "NewsClose i \<notin> set (map (news_of (pid s)) log)"
  shows "i \<in> set (cl_websockets d) \<and> OnOpened i \<in> set (callbacks d)"
proof -
  obtain as bs where as: "trace t = trace s @ as" "Publish bs \<in> set as" "news_of (pid s) bs = NewsOpen i (cl_pid c)"
    using sharers_are_told [OF assms(1,2) _ assms(9,10)] assms(3) by blast
  then have "bs \<in> set log"
    using published_append [OF as(1)] assms(4) by (force split: action.split)
  with as(3) have n: "NewsOpen i (cl_pid c) \<in> set (map (news_of (pid s)) log)" by force
  show ?thesis
    using follows_hears [OF assms(5-8)] heard_opened [OF n assms(11)] reports_opened [OF n] by auto
qed

theorem sharers_informed_witness:
  "\<exists>t log d i. rtranclp loop_step demo_attempt t \<and> published t = published demo_attempt @ log \<and>
    follows (demo_client\<lparr>cl_pid := 7\<rparr>) log d \<and> i \<in> set (cl_websockets d) \<and> OnOpened i \<in> set (callbacks d)"
proof -
  let ?po = "\<lparr>po_ref = 0, po_msg = 0, po_phase = Spawned\<rparr>" and ?c = "demo_client\<lparr>cl_pid := 7\<rparr>"
  have q: "sender demo_attempt 0 = 7" by (simp add: demo_attempt_more layout open_demo_def)
  obtain t where t: "rtranclp loop_step demo_attempt t" "um_find (websocketsById t) 30001 = Some 0"
      "7 \<in> ws_clients (heap t 0)" "announced demo_attempt 30001 7 t"
    using attempt_run [OF refl, of ?po demo_attempt] q by (auto simp: demo_attempt_fields demo_attempt_more)
  obtain u where u: "published u = published demo_attempt" "pid u = 3" "published t = published (onWsOpened u 30001 7)"
    using t(4) by (auto simp: announced_def demo_attempt_more)
  obtain bs where bs: "trace (onWsOpened u 30001 7) = trace u @ [Publish bs]" "news_of 3 bs = NewsOpen 30001 7" "complete bs"
    using onWsOpened_news [of u] u(2) by metis
  have p: "published t = published demo_attempt @ [bs]"
    using published_append [OF bs(1)] u by simp
  have f: "follows ?c [bs] (doWork (Some (store zero_mem 0 bs, 0)) ?c)"
    using fw_read [OF fw_start holds_stored bs(3)] by simp
  have "conns t 30001 = Some (ws_clients (heap t 0))" using t(2) by (simp add: conns_def)
  from sharers_informed [OF demo_attempt_fields(1) t(1) _ p f _ _ _ this] t(3) bs(2)
  have "30001 \<in> set (cl_websockets (doWork (Some (store zero_mem 0 bs, 0)) ?c)) \<and>
      OnOpened 30001 \<in> set (callbacks (doWork (Some (store zero_mem 0 bs, 0)) ?c))"
    by (simp add: demo_attempt_more conns_def demo_attempt_fields)
  with t(1) p f show ?thesis by blast
qed

end
