(* ===== verification/Sharing_Runs.thy ===== *)
theory Sharing_Runs
  imports Informed
begin

text \<open>
  Whole runs of the event loop as runs of the sharing machine: an instance of \<open>labelled_refinement\<close>.
\<close>

section \<open>The machine with its announcements\<close>

text \<open>
  The abstract state: who shares what, and which connections have been announced closed.  A step of the
  machine is an event followed by the removal of connections that have been announced closed, or an
  announcement.
\<close>

type_synonym sharing_log = "sharing \<times> u64 set"

datatype sh_move = Turn sh_event "u64 set" | Announces u64

fun move_can :: "sh_move \<Rightarrow> sharing_log \<Rightarrow> bool" where
  "move_can (Turn ev I) (a, C) \<longleftrightarrow> sh_can ev a \<and> I \<subseteq> C"
| "move_can (Announces i) (a, C) \<longleftrightarrow> True"

fun move_do :: "sh_move \<Rightarrow> sharing_log \<Rightarrow> sharing_log" where
  "move_do (Turn ev I) (a, C) = (sh_drop I (sh_next ev a), C)"
| "move_do (Announces i) (a, C) = (a, insert i C)"

definition sharing_log_of :: "proxy \<Rightarrow> sharing_log" where
  "sharing_log_of s = (sharing_of s, {i. PushClosed i \<in> set (trace s)})"

fun move_of :: "proxy \<Rightarrow> loop_label \<Rightarrow> sh_move" where
  "move_of s (ClosedDone r ec) = Announces (ws_id (heap s r))"
| "move_of s l = Turn (event_at s l) (dropped_at s l)"

lemma ok_move: "sh_ok (fst a) \<Longrightarrow> sh_ok (fst (move_do m a))"
  by (cases "(m, a)" rule: move_do.cases) (simp_all add: sh_ok_next sh_ok_drop)

lemma ok_runs: "sh_ok (fst a) \<Longrightarrow> runs move_can move_do a ms b \<Longrightarrow> sh_ok (fst b)"
proof (induction ms arbitrary: a)
  case (Cons m ms)
  then show ?case using Cons.IH [of "move_do m a"] by (simp add: ok_move)
qed simp

section \<open>What is announced\<close>

lemma open_talk_pushes:
  "open_talk.emits s t \<Longrightarrow> PushClosed i \<in> set (trace t) \<longleftrightarrow> PushClosed i \<in> set (trace s)"
  unfolding open_talk.emits_def by (metis UnE UnI1 set_append)

lemma announced_quiet:
  assumes "\<forall>r ec. l \<noteq> ClosedDone r ec"
  shows "PushClosed i \<in> set (trace (loop_do l s)) \<longleftrightarrow> PushClosed i \<in> set (trace s)"
  by (rule open_talk_pushes [OF open_talk.emits_loop_do [OF assms]])

lemma announced_closed:
  "PushClosed i \<in> set (trace (loop_do (ClosedDone r ec) s)) \<longleftrightarrow>
     PushClosed i \<in> set (trace s) \<or> i = ws_id (heap s r)"
proof -
  let ?s = "take_io (CloseOp r) s"
  let ?u = "set_ws_status r DISCONNECTED (case ec of
      Some e \<Rightarrow> if fst e \<noteq> ErrClosed then websocket_fail ?s r e None True else ?s | None \<Rightarrow> ?s)"
  have "PushClosed i \<in> set (trace ?u) \<longleftrightarrow> PushClosed i \<in> set (trace s)"
    by (rule open_talk_pushes [OF open_talk.emits_before_close])
  moreover have "ws_id (heap ?u r) = ws_id (heap s r)"
    by (simp add: take_io_def websocket_fail_def Let_def heap_close split: option.split)
  ultimately show ?thesis
    by (auto simp: websocket_on_close_def Let_def onWsClosed_def)
qed

lemma not_closed_move: "\<forall>r ec. l \<noteq> ClosedDone r ec \<Longrightarrow> move_of s l = Turn (event_at s l) (dropped_at s l)"
  by (cases l) simp_all

interpretation sharing_runs: labelled_refinement loop_can loop_do "\<lambda>s. tables_ok s \<and> fresh_opens s"
  move_can move_do sharing_log_of move_of
proof unfold_locales
  fix s l
  assume inv: "tables_ok s \<and> fresh_opens s" and can: "loop_can l s"
  show "tables_ok (loop_do l s) \<and> fresh_opens (loop_do l s)"
    by (rule shares.inv_step [OF inv loop_can_step [OF can]])
  have "dropped_at s l \<subseteq> {i. PushClosed i \<in> set (trace s)}"
    using can by (cases "(s, l)" rule: dropped_at.cases) auto
  then show "move_can (move_of s l) (sharing_log_of s)"
    using event_at_can [of s l] by (cases l) (simp_all add: sharing_log_of_def)
  have step: "sharing_of (loop_do l s) = sh_drop (dropped_at s l) (sh_next (event_at s l) (sharing_of s))"
    using inv can by (simp only: step_exact)
  show "sharing_log_of (loop_do l s) = move_do (move_of s l) (sharing_log_of s)"
  proof (cases "\<exists>r ec. l = ClosedDone r ec")
    case True
    then obtain r ec where l: "l = ClosedDone r ec" by blast
    have "{i. PushClosed i \<in> set (trace (loop_do l s))} =
        insert (ws_id (heap s r)) {i. PushClosed i \<in> set (trace s)}"
      using announced_closed [of _ r ec s] by (auto simp only: l)
    with step show ?thesis by (simp add: sharing_log_of_def l del: loop_do.simps)
  next
    case False
    then have n: "\<forall>r ec. l \<noteq> ClosedDone r ec" by blast
    with step announced_quiet [OF n, of _ s] show ?thesis
      by (simp add: sharing_log_of_def not_closed_move)
  qed
qed

section \<open>Properties\<close>

text \<open>
  C1: Every run of the event loop is a run of the sharing machine, step by step.  Take any run from the
  start of the server: the sequence of moves that \<open>move_of\<close> reads off it - who registers, leaves, falls
  silent, opens, closes, which connection is established, announced closed or dropped - is a run of
  the machine from its empty state, every move allowed where it happens, and it leads exactly to the
  clients, connections and sharers that the server has at the end of its run.  No connection is
  without a client then.
\<close>

theorem loop_refines_sharing:
  assumes "loop_init s" and "runs loop_can loop_do s ls t"
  shows "runs move_can move_do (\<lparr>sh_known = {}, sh_conns = Map.empty\<rparr>, {}) (observed move_of loop_do s ls)
      (sharing_of t, {i. PushClosed i \<in> set (trace t)}) \<and>
    {} \<notin> ran (conns t)"
proof -
  have start: "sharing_log_of s = (\<lparr>sh_known = {}, sh_conns = Map.empty\<rparr>, {})"
    using assms(1)
    by (auto simp: loop_init_def run_start_def sharing_log_of_def sharing_of_def conns_def fun_eq_iff)
  have r: "runs move_can move_do (sharing_log_of s) (observed move_of loop_do s ls) (sharing_log_of t)"
    using sharing_runs.run_refines [OF shares.inv_init [OF assms(1)] assms(2)] .
  moreover have "sh_ok (fst (sharing_log_of s))" by (simp add: start sh_ok_def)
  from ok_runs [OF this r] have "{} \<notin> ran (conns t)" by (simp add: sharing_log_of_def sh_ok_def)
  ultimately show ?thesis by (simp only: start) (simp add: sharing_log_of_def)
qed

theorem loop_refines_sharing_witness:
  "\<exists>ls t. runs loop_can loop_do demo_start ls t \<and> 7 \<in> sh_known (sharing_of t) \<and>
    runs move_can move_do (\<lparr>sh_known = {}, sh_conns = Map.empty\<rparr>, {}) (observed move_of loop_do demo_start ls)
      (sharing_of t, {i. PushClosed i \<in> set (trace t)})"
proof -
  let ?ls = "[Polls (Some 0) []]"
  have i: "loop_init demo_start" by (auto simp: loop_init_def demo_start_def)
  have r: "runs loop_can loop_do demo_start ?ls demo_registered"
    by (simp add: demo_registered_def) (simp add: demo_start_def run_start_def)
  from loop_refines_sharing [OF i r] demo_registered_fields(1) r show ?thesis
    by (intro exI [of _ ?ls] exI [of _ demo_registered]) (auto simp del: runs.simps)
qed

end
