(* ===== verification/Shutdown_Run.thy ===== *)
theory Shutdown_Run
  imports Published
begin

text \<open>
  The end of the server: what the handler of \<open>shutdown\<close> closes, and that the loop winds down after it.
\<close>

section \<open>The closes it starts\<close>

lemma close_all_other:
  "r \<notin> snd ` set kvs \<Longrightarrow> heap (close_all kvs s) r = heap s r"
  by (induction kvs s rule: close_all.induct) (auto simp: Let_def heap_close)







section \<open>The turns that are left\<close>











lemma run_startHeartbeat [simp]: "run (startHeartbeat s) = run s"
  by (simp add: startHeartbeat_def Let_def)







section \<open>The stop that comes\<close>

text \<open>A timer that runs goes on running, whatever the handlers do.\<close>

definition timed :: "proxy \<Rightarrow> bool" where
  "timed s \<longleftrightarrow> TimerOp \<in> set (io s)"

named_theorems timing

lemma timed_take [simp]:
  "timed (take_task x s) = timed s" "timed (take_open po s) = timed s"
  "op \<noteq> TimerOp \<Longrightarrow> timed (take_io op s) = timed s"
  by (auto simp: timed_def take_defs in_set_remove1)

lemma timed_start [timing]: "timed t \<Longrightarrow> timed (start_io op t)"
  by (auto simp: timed_def)

lemma timed_frames [simp]:
  "timed (tick t) = timed t" "timed (upd_shm f t) = timed t" "timed (reply p st t) = timed t"
  "timed (post x t) = timed t" "timed (upd_sock r g t) = timed t"
  "timed (set_ws_status r ws t) = timed t" "timed (upd_subs r h t) = timed t"
  "timed (leave_one r q t) = timed t" "timed (snd (getClient t q)) = timed t"
  "timed (emit a t) = timed t" "timed (sendMessageToClient t m sz) = timed t"
  "timed (sendMessageToClient_at t m sz now) = timed t"
  by (simp_all add: timed_def emit_def tick_def sendMessageToClient_def sendMessageToClient_at_def)

lemma timed_fields [simp]:
  "timed (t\<lparr>clients := a\<rparr>) = timed t" "timed (t\<lparr>websocketsById := b\<rparr>) = timed t"
  "timed (t\<lparr>websocketsByUrlApiKey := c\<rparr>) = timed t" "timed (t\<lparr>shutdown_time := d\<rparr>) = timed t"
  "timed (t\<lparr>opens := e\<rparr>) = timed t" "timed (t\<lparr>run := f\<rparr>) = timed t"
  "timed (t\<lparr>heap := g\<rparr>) = timed t" "timed (t\<lparr>tasks := h\<rparr>) = timed t"
  "timed (t\<lparr>websocket_id := i\<rparr>) = timed t" "timed (t\<lparr>next_ref := j\<rparr>) = timed t"
  "timed (t\<lparr>shm := k\<rparr>) = timed t"
  by (simp_all add: timed_def)

lemma timed_onWs [simp]:
  "timed (onWsOpened t i c) = timed t" "timed (onWsClosed t i) = timed t"
  "timed (onWsError t i err len) = timed t" "timed (onWsData t i d len rem) = timed t"
  "timed (snd (sendHeartbeat t now)) = timed t"
  by (simp_all add: onWsOpened_def onWsClosed_def onWsError_def onWsData_def sendHeartbeat_def Let_def)

lemma timed_websocket [timing]:
  "timed t \<Longrightarrow> timed (websocket_close t r)" "timed t \<Longrightarrow> timed (websocket_send t r b)"
  "timed t \<Longrightarrow> timed (websocket_fail t r e None c)"
  "timed t \<Longrightarrow> timed (open_callback r p ok t)"
  by (simp_all add: websocket_close_def websocket_send_def websocket_fail_def open_callback_def Let_def timing)

lemma timed_fail [timing]: "timed t \<Longrightarrow> timed (websocket_fail t r e (Some (open_callback r' p)) c)"
  by (simp add: websocket_fail_def Let_def timing)

lemma timed_on_io [timing]:
  "timed t \<Longrightarrow> timed (websocket_on_write t r ec n)" "timed t \<Longrightarrow> timed (websocket_on_read t r ec d n)"
  "timed t \<Longrightarrow> timed (websocket_on_close t r ec)"
  by (simp_all add: websocket_on_write_def websocket_on_read_def websocket_on_close_def Let_def timing
      split: option.split)

lemma timed_closeWs_id [timing]: "timed t \<Longrightarrow> timed (closeWs_id t i q)"
  by (simp add: closeWs_id_def Let_def timing split: option.split)

lemma timed_close_fold [timing]: "timed t \<Longrightarrow> timed (fold (\<lambda>i x. closeWs_id x i q) is t)"
  by (induction "is" arbitrary: t) (simp_all add: timing)

lemma timed_drop_client [timing]: "timed t \<Longrightarrow> timed (drop_client t q)"
  unfolding drop_client_def by (rule timed_close_fold, subst leave_all_heap_only) simp

lemma timed_unregister [timing]:
  "timed t \<Longrightarrow> timed (unregisterClient_iter t q)" "timed t \<Longrightarrow> timed (unregisterClient t q)"
  by (simp_all add: unregister_drop unregister_iter_drop Let_def timing)

lemma timed_check_clients [timing]: "timed t \<Longrightarrow> timed (check_clients now cs t)"
  by (induction now cs t rule: check_clients.induct) (simp_all add: timing)

lemma timed_startHeartbeat [timing]: "timed t \<Longrightarrow> timed (startHeartbeat t)"
  by (simp add: startHeartbeat_def checkHeartbeats_def Let_def split_beta timing)

lemma timed_handlers [timing]:
  "timed t \<Longrightarrow> timed (handleClientRegistration t p)" "timed t \<Longrightarrow> timed (closeWs t p)"
  "timed t \<Longrightarrow> timed (handleSubscribe t p)" "timed t \<Longrightarrow> timed (handleUnsubscribe t p)"
  "timed t \<Longrightarrow> timed (sendWsRequest t p)" "timed t \<Longrightarrow> timed (share_ws t p r)"
  "timed t \<Longrightarrow> timed (result_state (openNewWs t p))"
  by (simp_all add: handleClientRegistration_def closeWs_def handleSubscribe_def handleUnsubscribe_def
      sendWsRequest_def share_ws_def openNewWs_def Let_def split_beta timing split: option.split sum.split)

lemma timed_handleClientMessage [timing]:
  "timed t \<Longrightarrow> timed (result_state (handleClientMessage t p))"
  by (simp add: handleClientMessage_def openWs_def handleClientHeartbeat_def Let_def split_beta timing
      split: option.split msg_type.split)

lemma timed_removeClosedSockets [timing]: "timed t \<Longrightarrow> timed (removeClosedSockets ids t)"
  by (induction ids t rule: removeClosedSockets.induct) (simp_all split: option.split)

lemma timed_close_all [timing]: "timed t \<Longrightarrow> timed (close_all kvs t)"
  by (induction kvs t rule: close_all.induct) (simp_all add: Let_def timing)

lemma timed_poll [timing]:
  assumes "timed t"
  shows "timed (result_state (processClientMessage t rd ids))"
proof -
  let ?h = "case rd of Some p \<Rightarrow> handleClientMessage t p | None \<Rightarrow> Inr t"
  have "timed (result_state ?h)" using assms by (simp add: timing split: option.split)
  then show ?thesis
    by (cases ?h) (auto simp: processClientMessage_result Let_def timing)
qed

lemma timed_resume [timing]:
  assumes "timed t"
  shows "timed (resume_open t po oc)"
  using assms by (cases "po_phase po")
    (simp_all add: resume_open_def take_open_def Let_def timing split: option.split)






section \<open>Properties\<close>



end
