(* ===== verification/Stale_Requests.thy ===== *)
theory Stale_Requests
  imports Informed
begin

text \<open>
  The attempt to connect keeps a reference to the request that started it, which lies in the memory of
  the clients' queue.  The queue goes on meanwhile, and when it has gone round, other messages lie there.
\<close>

section \<open>An attempt up to its last step\<close>

lemma attempt_ready:
  assumes "steps_left (po_phase po) = n" and "po \<in> set (opens s)"
  shows "\<exists>t. rtranclp loop_step s t \<and> po\<lparr>po_phase := WsHandshaking\<rparr> \<in> set (opens t) \<and>
    websocketsById t = websocketsById s \<and> ws_id (heap t (po_ref po)) = ws_id (heap s (po_ref po)) \<and> shm t = shm s \<and>
    published t = published s \<and> pid t = pid s"
  using assms
proof (induction n arbitrary: po s)
  case 0
  then have "po_phase po = WsHandshaking" by (cases "po_phase po") simp_all
  with 0 show ?case by (intro exI [of _ s]) (cases po, simp)
next
  case (Suc n)
  from attempt_step [OF Suc.prems(2,1)] obtain t ph where t: "loop_step s t"
      "po\<lparr>po_phase := ph\<rparr> \<in> set (opens t)" "steps_left ph = n" "websocketsById t = websocketsById s"
      "ws_id (heap t (po_ref po)) = ws_id (heap s (po_ref po))" "shm t = shm s"
      "published t = published s" "pid t = pid s"
    by blast
  from Suc.IH [of "po\<lparr>po_phase := ph\<rparr>" t] t(1-3) obtain u where
    "rtranclp loop_step s u" "po\<lparr>po_phase := WsHandshaking\<rparr> \<in> set (opens u)"
    "websocketsById u = websocketsById t" "ws_id (heap u (po_ref po)) = ws_id (heap t (po_ref po))" "shm u = shm t"
    "published u = published t" "pid u = pid t"
    by (auto intro: converse_rtranclp_into_rtranclp)
  with t show ?case by (intro exI [of _ u]) simp
qed

section \<open>Whoever lies there\<close>

text \<open>
  C20: A completed attempt belongs to whoever has a message where its request was.  The handler of the
  result reads the sender from the queue's memory again, at the request's address, so if the clients
  have written there meanwhile, the connection has the client of that message as its only client, and
  that message is marked \<open>SUCCESS\<close>; the client that asked, unless it is the same, gets nothing.
\<close>

theorem stale_request_misattributed:
  assumes "reachable s" and "po \<in> set (opens s)" and "po_phase po = WsHandshaking" and "oc_error oc = None"
    and "um_find (websocketsById s) (ws_id (heap s (po_ref po))) = None"
    and "t = resume_open (s\<lparr>shm := m\<rparr>) po oc"
  shows "rtranclp loop_step s t \<and> conns t (ws_id (heap s (po_ref po))) = Some {msg_pid m (po_msg po)} \<and>
    msg_status (shm t) (po_msg po) = status_code SUCCESS"
proof -
  let ?s = "s\<lparr>shm := m\<rparr>"
  have w: "loop_step s ?s" by (rule client_write)
  have ok: "tables_ok ?s" "fresh_opens ?s"
    using shares.inv_reach [OF reach_step [OF assms(1) w]] by auto
  have "loop_step ?s t" unfolding assms(6) by (rule step_resume) (simp add: assms(2))
  with w have "rtranclp loop_step s t" by (meson converse_rtranclp_into_rtranclp r_into_rtranclp)
  moreover have "conns s (ws_id (heap s (po_ref po))) = None" using assms(5) by (simp add: conns_def)
  then have "conns t (ws_id (heap s (po_ref po))) = Some {msg_pid m (po_msg po)}"
    using conns_established [OF ok, of po oc] assms(2-5) by (simp add: assms(6) abs_join_def conns_def)
  moreover have "msg_status (shm t) (po_msg po) = status_code SUCCESS"
    using assms(3,4) by (simp add: assms(6) resume_open_def open_callback_def Let_def)
  ultimately show ?thesis by blast
qed

text \<open>Client 7 asks; when its attempt succeeds, a heartbeat of client 9 lies where its request was.\<close>

theorem stale_request_misattributed_witness:
  "\<exists>s t. reachable s \<and> sender s 0 = 7 \<and> (\<exists>po \<in> set (opens s). po_msg po = 0) \<and>
    rtranclp loop_step s t \<and> conns t 30001 = Some {9}"
proof -
  let ?po = "\<lparr>po_ref = 0, po_msg = 0, po_phase = Spawned\<rparr>"
  let ?oc = "\<lparr>oc_error = None, oc_port = 443, oc_sni_error = None\<rparr>"
  let ?m = "set_type (set_pid zero_mem 0 9) 0 Heartbeat"
  have q: "sender demo_attempt 0 = 7" by (simp add: demo_attempt_more layout open_demo_def)
  obtain s where s: "rtranclp loop_step demo_attempt s" "?po\<lparr>po_phase := WsHandshaking\<rparr> \<in> set (opens s)"
      "websocketsById s = []" "ws_id (heap s 0) = 30001" "shm s = shm demo_attempt"
    using attempt_ready [OF refl, of ?po demo_attempt] by (auto simp: demo_attempt_fields demo_attempt_more)
  have r: "reachable s" by (rule steps_reachable [OF s(1) demo_attempt_fields(1)])
  have "rtranclp loop_step s (resume_open (s\<lparr>shm := ?m\<rparr>) (?po\<lparr>po_phase := WsHandshaking\<rparr>) ?oc) \<and>
      conns (resume_open (s\<lparr>shm := ?m\<rparr>) (?po\<lparr>po_phase := WsHandshaking\<rparr>) ?oc) 30001 = Some {9}"
    using stale_request_misattributed [OF r s(2) _ _ _ refl, of ?oc ?m] s(3,4) by (simp add: layout)
  with r q s(2,5) show ?thesis by (metis pending_open.select_convs(2) pending_open.update_convs(3))
qed

end
