(* ===== verification/Client_Worker.thy ===== *)
theory Client_Worker
  imports Client_Steps
begin

text \<open>
  The life of the client's worker thread: \<open>connect\<close> starts it, the thread itself creates the flag \<open>run_\<close>
  that its loop tests, and the destructor clears the flag, if there is one, and waits for the thread.
  The application's thread and the worker interleave.
\<close>

section \<open>The machine\<close>

datatype worker_thread = NoThread | Started | Working | Exited

text \<open>How far the destructor has got: not called, past \<open>unregister\<close>, past the flag, returned.\<close>

datatype app_phase = InUse | Unregistered | Signalled | Destroyed

record worker_sys =
  wk_client :: client
  wk_thread :: worker_thread
  wk_run :: "bool option"
  wk_app :: app_phase

definition worker_init :: "worker_sys \<Rightarrow> bool" where
  "worker_init s \<longleftrightarrow> (\<exists>clock p name. s = \<lparr>wk_client = WebsocketProxyClient_init clock p name,
     wk_thread = NoThread, wk_run = None, wk_app = InUse\<rparr>)"

definition start_worker :: "worker_sys \<Rightarrow> worker_sys" where
  "start_worker s = (if wk_thread s = NoThread then s\<lparr>wk_thread := Started\<rparr> else s)"

definition worker_begin :: "worker_sys \<Rightarrow> worker_sys" where
  "worker_begin s = s\<lparr>wk_run := Some True, wk_thread := Working\<rparr>"

text \<open>The loop's test and, if it goes on, one iteration.\<close>

definition worker_turn :: "(mem \<times> nat) option \<Rightarrow> worker_sys \<Rightarrow> worker_sys" where
  "worker_turn rd s = (if wk_run s = Some True then s\<lparr>wk_client := doWork rd (wk_client s)\<rparr>
     else s\<lparr>wk_thread := Exited\<rparr>)"

definition destroy_unregister :: "worker_sys \<Rightarrow> worker_sys" where
  "destroy_unregister s = s\<lparr>wk_client := client_destroy (wk_client s), wk_app := Unregistered\<rparr>"

definition destroy_signal :: "worker_sys \<Rightarrow> worker_sys" where
  "destroy_signal s = s\<lparr>wk_run := (case wk_run s of Some b \<Rightarrow> Some False | None \<Rightarrow> None), wk_app := Signalled\<rparr>"

text \<open>The calls of the application are steps of the client, any of them; \<open>join\<close> returns when the thread has exited.\<close>

inductive worker_step :: "worker_sys \<Rightarrow> worker_sys \<Rightarrow> bool" where
  wk_connect: "wk_app s = InUse \<Longrightarrow> worker_step s (start_worker s)"
| wk_call: "wk_app s = InUse \<Longrightarrow> client_step (wk_client s) c \<Longrightarrow> worker_step s (s\<lparr>wk_client := c\<rparr>)"
| wk_begin: "wk_thread s = Started \<Longrightarrow> worker_step s (worker_begin s)"
| wk_turn: "wk_thread s = Working \<Longrightarrow> worker_step s (worker_turn rd s)"
| wk_unregister: "wk_app s = InUse \<Longrightarrow> worker_step s (destroy_unregister s)"
| wk_signal: "wk_app s = Unregistered \<Longrightarrow> worker_step s (destroy_signal s)"
| wk_join: "wk_app s = Signalled \<Longrightarrow> wk_thread s = NoThread \<or> wk_thread s = Exited \<Longrightarrow>
    worker_step s (s\<lparr>wk_app := Destroyed\<rparr>)"

inductive_cases worker_stepE: "worker_step s t"

lemmas worker_defs = start_worker_def worker_begin_def worker_turn_def destroy_unregister_def destroy_signal_def

section \<open>What always holds\<close>

definition worker_ok :: "worker_sys \<Rightarrow> bool" where
  "worker_ok s \<longleftrightarrow>
     (wk_run s = None \<longleftrightarrow> wk_thread s = NoThread \<or> wk_thread s = Started) \<and>
     (wk_thread s = Exited \<longrightarrow> wk_run s = Some False) \<and>
     (wk_run s = Some False \<longrightarrow> wk_app s = Signalled \<or> wk_app s = Destroyed) \<and>
     (wk_app s = Destroyed \<longrightarrow> wk_thread s = NoThread \<or> wk_thread s = Exited)"

interpretation worker: invariant_system worker_init worker_step worker_ok
proof unfold_locales
  show "worker_init s \<Longrightarrow> worker_ok s" for s
    by (auto simp: worker_init_def worker_ok_def)
  show "worker_ok s \<Longrightarrow> worker_step s t \<Longrightarrow> worker_ok t" for s t
    by (erule worker_stepE) (auto simp: worker_ok_def worker_defs split: option.splits)
qed

section \<open>The destructor\<close>

text \<open>The thread had not come to create its flag when the destructor looked for it.\<close>

definition missed :: "worker_sys \<Rightarrow> bool" where
  "missed s \<longleftrightarrow> wk_app s = Signalled \<and> (wk_thread s = Started \<or> (wk_thread s = Working \<and> wk_run s = Some True))"

lemma missed_step: "missed s \<Longrightarrow> worker_step s t \<Longrightarrow> missed t"
  by (erule worker_stepE) (auto simp: missed_def worker_defs)

lemma missed_steps: "rtranclp worker_step s t \<Longrightarrow> missed s \<Longrightarrow> missed t"
  by (induction rule: rtranclp_induct) (auto intro: missed_step)

lemma join_returns:
  assumes "worker_ok s" and "wk_app s = Signalled" and "\<not> missed s"
  shows "\<exists>t. rtranclp worker_step s t \<and> wk_app t = Destroyed"
proof (cases "wk_thread s = Working")
  case True
  then have r: "wk_run s = Some False" using assms by (cases "wk_run s") (auto simp: worker_ok_def missed_def)
  let ?t = "s\<lparr>wk_thread := Exited\<rparr>"
  have "worker_step s ?t" using wk_turn [OF True, of None] r by (simp add: worker_turn_def)
  moreover have "worker_step ?t (?t\<lparr>wk_app := Destroyed\<rparr>)" using assms(2) by (intro wk_join) simp_all
  ultimately have "rtranclp worker_step s (?t\<lparr>wk_app := Destroyed\<rparr>)" by (meson converse_rtranclp_into_rtranclp r_into_rtranclp)
  then show ?thesis by (intro exI [of _ "?t\<lparr>wk_app := Destroyed\<rparr>"]) simp
next
  case False
  then have "wk_thread s = NoThread \<or> wk_thread s = Exited"
    using assms(2,3) by (cases "wk_thread s") (auto simp: missed_def)
  then have "worker_step s (s\<lparr>wk_app := Destroyed\<rparr>)" using assms(2) by (intro wk_join)
  then show ?thesis by (intro exI [of _ "s\<lparr>wk_app := Destroyed\<rparr>"]) auto
qed

lemma stopped_step: "\<not> missed s \<Longrightarrow> wk_app s \<in> {Signalled, Destroyed} \<Longrightarrow> worker_ok s \<Longrightarrow> worker_step s t \<Longrightarrow>
    \<not> missed t \<and> wk_app t \<in> {Signalled, Destroyed}"
  by (erule worker_stepE) (auto simp: missed_def worker_ok_def worker_defs)

lemma stopped_steps:
  assumes "rtranclp worker_step s t" and "\<not> missed s" and "wk_app s \<in> {Signalled, Destroyed}" and "worker_ok s"
  shows "\<not> missed t \<and> wk_app t \<in> {Signalled, Destroyed} \<and> worker_ok t"
  using assms
proof (induction rule: rtranclp_induct)
  case (step t u)
  then show ?case using stopped_step [of t u] worker.inv_step [of t u] by simp
qed simp

text \<open>
  C29: The destructor returns exactly if the worker thread had already created its flag, or was never
  started, when the destructor looked for the flag.  Then, however the threads go on, the destructor can
  still return: nothing but the thread's exit is left to wait for.  Otherwise nothing ever stops the
  thread, and the destructor waits for it for ever.
\<close>

theorem destructor_returns_iff:
  assumes "reach worker_init worker_step s" and "wk_app s = Unregistered"
  shows "if wk_thread s = Started
    then \<forall>t. rtranclp worker_step (destroy_signal s) t \<longrightarrow> wk_app t \<noteq> Destroyed
    else \<forall>t. rtranclp worker_step (destroy_signal s) t \<longrightarrow>
      (\<exists>u. rtranclp worker_step t u \<and> wk_app u = Destroyed)"
proof (cases "wk_thread s = Started")
  case True
  then have "missed (destroy_signal s)" by (simp add: missed_def destroy_signal_def)
  with True missed_steps show ?thesis by (auto simp: missed_def)
next
  case False
  have ok: "worker_ok s" by (rule worker.inv_reach [OF assms(1)])
  then have ok': "worker_ok (destroy_signal s)" using worker.inv_step wk_signal [OF assms(2)] by blast
  have m: "\<not> missed (destroy_signal s)" using False ok by (auto simp: missed_def destroy_signal_def worker_ok_def)
  have "\<exists>u. rtranclp worker_step t u \<and> wk_app u = Destroyed" if "rtranclp worker_step (destroy_signal s) t" for t
    using stopped_steps [OF that m _ ok'] join_returns [of t]
    by (cases "wk_app t = Destroyed") (auto simp: destroy_signal_def)
  with False show ?thesis by simp
qed

text \<open>The client is destroyed right after its first call, before the thread has run.\<close>

theorem destructor_returns_iff_witness:
  "\<exists>s. reach worker_init worker_step s \<and> wk_app s = Unregistered \<and>
    \<not> (\<exists>t. rtranclp worker_step (destroy_signal s) t \<and> wk_app t = Destroyed)"
proof -
  let ?i = "\<lparr>wk_client = WebsocketProxyClient_init (\<lambda>n. of_nat n) 8 ''demo'', wk_thread = NoThread,
    wk_run = None, wk_app = InUse\<rparr>"
  let ?a = "start_worker ?i"
  let ?b = "destroy_unregister ?a"
  have "reach worker_init worker_step ?i" by (rule reach_init) (auto simp: worker_init_def)
  then have "reach worker_init worker_step ?a" by (rule reach_step) (rule wk_connect, simp)
  then have b: "reach worker_init worker_step ?b" by (rule reach_step) (rule wk_unregister, simp add: worker_defs)
  have m: "wk_app ?b = Unregistered" "wk_thread ?b = Started" by (simp_all add: worker_defs)
  show ?thesis using destructor_returns_iff [OF b m(1)] b m by (intro exI [of _ ?b]) simp
qed

end
