(* ===== verification/Client_Race.thy ===== *)
theory Client_Race
  imports Client_Steps
begin

text \<open>
  An iteration of the worker reads the clock once, at its beginning, and compares the reading with times
  that the application's thread may set meanwhile.  The iteration is split where the two threads can
  interleave: \<open>now\<close> has been read, and the queue has been found empty.
\<close>

section \<open>The end of an iteration\<close>

text \<open>What is left of an iteration that found no message, with the time it read at its beginning.\<close>

definition worker_check :: "u64 \<Rightarrow> client \<Rightarrow> client" where
  "worker_check now c =
     (let c2 = snd (client_sendHeartbeat c now)
      in if cl_last_server_heartbeat_time c2 \<noteq> 0 \<and>
            now - cl_last_server_heartbeat_time c2 > HEARTBEAT_TIMEOUT
         then server_lost c2 else c2)"

lemma doWork_check:
  "doWork None c = (if cl_server_pid c = 0 then c else worker_check (cl_now c) (cl_tick c))"
  by (simp add: doWork_def worker_check_def Let_def)

text \<open>The difference of a time and a later one is a large number.\<close>

lemma early_minus_late:
  fixes a b :: u64
  assumes "a < b" and "b < 2 ^ 63"
  shows "a - b > 15000"
proof -
  have "unat a < unat b" "unat b < 2 ^ 63"
    using assms by (simp_all add: word_less_nat_alt)
  then have "unat (a - b) = 2 ^ 64 + unat a - unat b"
    by (simp add: unat_sub_if')
  then show ?thesis using \<open>unat b < 2 ^ 63\<close> by (simp add: word_less_nat_alt)
qed

text \<open>
  C32: An answer can cost the connection.  If, between the worker's reading of the clock and its look at
  the last sign of life of the server, the application's call of \<open>openWebSocket\<close> is answered and notes a
  later time, then the worker takes the server for dead: the difference wraps around, the client drops
  the server that has just answered, and the application is told that every websocket is closed.
\<close>

theorem answer_taken_for_silence:
  assumes "cl_server_pid c \<noteq> 0"
    and "openWebSocket w status m p url key (cl_tick c) = Some (Inr ((i, new), d))"
    and "cl_now c < cl_last_server_heartbeat_time d" and "cl_last_server_heartbeat_time d < 2 ^ 63"
  shows "cl_server_pid (worker_check (cl_now c) d) = 0 \<and> cl_websockets (worker_check (cl_now c) d) = [] \<and>
    callbacks (worker_check (cl_now c) d) = callbacks c @ OnDisconnected # map OnClosed (cl_websockets c)"
proof -
  have q: "quiet c d" using quiet_open [OF assms(2)] by (simp add: quiet_def)
  let ?e = "snd (client_sendHeartbeat d (cl_now c))"
  have "cl_last_server_heartbeat_time d \<noteq> 0" using assms(3) by auto
  then have "worker_check (cl_now c) d = server_lost ?e"
    using early_minus_late [OF assms(3,4)] by (simp add: worker_check_def HEARTBEAT_TIMEOUT_def Let_def)
  then show ?thesis using q by (simp add: server_lost_effect quiet_def)
qed

text \<open>Without such an answer the same iteration lets the client be.\<close>

theorem answer_taken_for_silence_witness:
  "\<exists>i d c. openWebSocket demo_world (\<lambda>_. 1) (store_u64 zero_mem 1042 30001) 0 ''wss://h'' [] (cl_tick c) =
      Some (Inr ((i, False), d)) \<and> i = 30001 \<and>
    cl_server_pid (worker_check (cl_now c) d) = 0 \<and> cl_server_pid (doWork None c) \<noteq> 0"
proof -
  let ?c = "demo_client\<lparr>cl_clock := \<lambda>n. 1000 + of_nat n, cl_last_server_heartbeat_time := 990\<rparr>"
  let ?m = "store_u64 zero_mem 1042 30001"
  have "open_msg (cl_tick ?c) ''wss://h'' [] \<noteq> None"
    by (simp add: open_msg_def strcpy_s_def cut_nul_def Let_def)
  then obtain b where b: "open_msg (cl_tick ?c) ''wss://h'' [] = Some b" by blast
  have s: "cl_now (client_sendMessage x b sz) = cl_clock x (Suc (cl_ticks x))"
    "cl_ticks (client_sendMessage x b sz) = Suc (cl_ticks x)" for x sz
    by (simp_all add: client_sendMessage_def cl_now_def cl_tick_def cl_emit_def Let_def)
  obtain d where d: "openWebSocket demo_world (\<lambda>_. 1) ?m 0 ''wss://h'' [] (cl_tick ?c) = Some (Inr ((30001, False), d))"
      "cl_last_server_heartbeat_time d = 1003"
    by (simp add: openWebSocket_def sendOpenMessage_def b wait_answered Let_def layout s)
      (simp add: cl_now_def cl_tick_def s)
  have n: "cl_now ?c = 1000" by (simp add: cl_now_def)
  have "cl_server_pid (worker_check (cl_now ?c) d) = 0"
    using answer_taken_for_silence [OF _ d(1)] d(2) n by simp
  moreover have "cl_server_pid (doWork None ?c) \<noteq> 0"
    by (simp add: doWork_def Let_def n HEARTBEAT_TIMEOUT_def)
  ultimately show ?thesis using d(1) by blast
qed

end
