(* ===== verification/Alpaca.thy ===== *)
theory Alpaca
  imports Client_Steps
begin

text \<open>
  The example client, \<open>example/alpaca_websocket_client.h\<close>, over the client library of \<open>Client\<close>.  The
  JSON library is a parameter: what parsing a text gives, and how the values it gives are looked at
  and written.  The application's thread and the worker that calls the callbacks interleave, so
  \<open>open\<close> and \<open>subscribe\<close> are split: \<open>_begin\<close> is the part up to the first wait, \<open>_request\<close> the call of the
  library, \<open>_poll\<close> one turn of the loop that waits for the exchange's result.  Assertions are those of a release build, that is, none.
\<close>

section \<open>The JSON library\<close>

text \<open>
  \<open>js_parse\<close> is \<open>None\<close> where \<open>json::parse\<close> throws, \<open>js_dump\<close> where \<open>dump\<close> does; \<open>js_items\<close> gives the
  elements of an array, \<open>js_field\<close> a member of an object, \<open>js_str\<close> the text of a string; \<open>js_show\<close> is what
  \<open>operator<<\<close> writes for a value that came from a text.
\<close>

record 'j json_lib =
  js_parse :: "string \<Rightarrow> 'j option"
  js_dump :: "'j \<Rightarrow> string option"
  js_show :: "'j \<Rightarrow> string"
  js_items :: "'j \<Rightarrow> 'j list option"
  js_is_object :: "'j \<Rightarrow> bool"
  js_field :: "'j \<Rightarrow> string \<Rightarrow> 'j option"
  js_str :: "'j \<Rightarrow> string option"
  js_null :: 'j
  js_string :: "string \<Rightarrow> 'j"
  js_array :: "'j list \<Rightarrow> 'j"
  js_object :: "(string \<times> 'j) list \<Rightarrow> 'j"

text \<open>\<open>obj[key]\<close> on an object that is not constant puts a null where the key is missing.\<close>

definition js_at :: "('j, 'x) json_lib_scheme \<Rightarrow> 'j \<Rightarrow> string \<Rightarrow> 'j" where
  "js_at L obj k = (case js_field L obj k of Some v \<Rightarrow> v | None \<Rightarrow> js_null L)"

section \<open>State\<close>

datatype request_status = RS_None | WaitingForResult | Completed | Failed

fun request_status_code :: "request_status \<Rightarrow> u8" where
  "request_status_code RS_None = 0"
| "request_status_code WaitingForResult = 1"
| "request_status_code Completed = 2"
| "request_status_code Failed = 3"

record alpaca =
  al_base :: client
  al_ws_id :: u64
  al_url :: string
  al_api_key :: string
  al_api_secret :: string
  al_ss :: string
  al_status :: request_status
  al_out :: "string list"

definition AlpacaWebSocketClient_init :: "client \<Rightarrow> alpaca" where
  "AlpacaWebSocketClient_init c = \<lparr>al_base = c, al_ws_id = 0, al_url = [], al_api_key = [],
     al_api_secret = [], al_ss = [], al_status = RS_None, al_out = []\<rparr>"

text \<open>A line on the standard output.\<close>

definition say :: "string \<Rightarrow> alpaca \<Rightarrow> alpaca" where
  "say l a = a\<lparr>al_out := al_out a @ [l]\<rparr>"

text \<open>\<open>request_status_\<close> is replaced only while a request waits.\<close>

definition settle :: "request_status \<Rightarrow> alpaca \<Rightarrow> alpaca" where
  "settle st a = (if al_status a = WaitingForResult then a\<lparr>al_status := st\<rparr> else a)"

definition al_send :: "string \<Rightarrow> alpaca \<Rightarrow> alpaca" where
  "al_send str a = a\<lparr>al_base := client_send (al_ws_id a) str (of_nat (length str)) (al_base a)\<rparr>"

definition al_closeWebSocket :: "(nat \<Rightarrow> u8) \<Rightarrow> u64 \<Rightarrow> alpaca \<Rightarrow> alpaca option" where
  "al_closeWebSocket status i a = (case closeWebSocket status i (al_base a) of
     None \<Rightarrow> None
   | Some (b, c) \<Rightarrow> Some (a\<lparr>al_base := c\<rparr>))"

section \<open>Opening and closing\<close>

text \<open>What the first part of a method ends in: an answer, or the loop that waits.\<close>

datatype progress = Answer bool | Waits

definition al_open_begin :: "string \<Rightarrow> string \<Rightarrow> string \<Rightarrow> alpaca \<Rightarrow> alpaca" where
  "al_open_begin url api_key api_secret a =
     a\<lparr>al_url := url, al_api_key := api_key, al_api_secret := api_secret, al_status := WaitingForResult\<rparr>"

definition al_open_request ::
    "connect_world \<Rightarrow> (nat \<Rightarrow> u8) \<Rightarrow> mem \<Rightarrow> nat \<Rightarrow> alpaca \<Rightarrow> (abort + progress \<times> alpaca) option" where
  "al_open_request w status m p a =
     (case openWebSocket w status m p (al_url a) (al_api_key a) (al_base a) of
        None \<Rightarrow> None
      | Some (Inl e) \<Rightarrow> Some (Inl e)
      | Some (Inr ((ws_id, is_new_connection), c)) \<Rightarrow>
          (let a1 = a\<lparr>al_base := c\<rparr>
           in if ws_id = 0 then Some (Inr (Answer False, a1))
              else if \<not> is_new_connection then
                Some (Inr (Answer True, say (al_url a1 @ '' key='' @ al_api_key a1 @ '' already connected'')
                  (a1\<lparr>al_ws_id := ws_id, al_status := RS_None\<rparr>)))
              else Some (Inr (Waits, a1))))"

text \<open>\<open>None\<close>: the loop goes on.\<close>

definition al_open_poll :: "alpaca \<Rightarrow> bool option" where
  "al_open_poll a = (let status = al_status a
     in if status = WaitingForResult then None else Some (status = Completed))"

definition al_close :: "(nat \<Rightarrow> u8) \<Rightarrow> alpaca \<Rightarrow> alpaca option" where
  "al_close status a = (if al_ws_id a \<noteq> 0 then al_closeWebSocket status (al_ws_id a) a else Some a)"

definition al_destroy :: "(nat \<Rightarrow> u8) \<Rightarrow> alpaca \<Rightarrow> alpaca option" where
  "al_destroy status a = (case al_close status a of
     None \<Rightarrow> None
   | Some a1 \<Rightarrow> Some (a1\<lparr>al_base := client_destroy (al_base a1)\<rparr>))"

section \<open>Subscribing\<close>

definition subscribe_json :: "('j, 'x) json_lib_scheme \<Rightarrow> string \<Rightarrow> 'j" where
  "subscribe_json L symbol = js_object L
     [(''action'', js_string L ''subscribe''), (''trades'', js_array L [js_string L symbol]),
      (''quotes'', js_array L [js_string L symbol])]"

text \<open>\<open>None\<close>: \<open>dump\<close> throws, and the exception leaves \<open>subscribe\<close>.\<close>

definition al_subscribe_begin :: "('j, 'x) json_lib_scheme \<Rightarrow> string \<Rightarrow> alpaca \<Rightarrow> alpaca option" where
  "al_subscribe_begin L symbol a =
     (let a1 = say (''subscribe '' @ symbol) a
      in case js_dump L (subscribe_json L symbol) of
           None \<Rightarrow> None
         | Some str \<Rightarrow> Some (al_send str (a1\<lparr>al_status := WaitingForResult\<rparr>)))"

text \<open>
  The loop's condition is \<open>!(status = request_status_.load()) == WaitingForResult\<close>: the negation
  binds to the loaded value, and its result, 0 or 1, is compared with the code of \<open>WaitingForResult\<close>.
\<close>

definition al_subscribe_poll :: "alpaca \<Rightarrow> bool option" where
  "al_subscribe_poll a =
     (let status = al_status a;
          negated = (if request_status_code status = 0 then 1 else 0)
      in if negated = request_status_code WaitingForResult then None else Some (status = Completed))"

section \<open>Callbacks\<close>

definition al_onServerDisconnected :: "(nat \<Rightarrow> u8) \<Rightarrow> alpaca \<Rightarrow> alpaca option" where
  "al_onServerDisconnected status a =
     (let a1 = say ''WebSocket Proxy Server disconnected'' a
      in if al_ws_id a1 \<noteq> 0 then al_closeWebSocket status (al_ws_id a1) a1 else Some a1)"

definition al_onOpened :: "u64 \<Rightarrow> alpaca \<Rightarrow> alpaca" where
  "al_onOpened i a = (say (''WebSocket Opened. id='' @ dec (unat i)) a)\<lparr>al_ws_id := i\<rparr>"

definition al_onClosed :: "u64 \<Rightarrow> alpaca \<Rightarrow> alpaca" where
  "al_onClosed i a = say (''WebSocket closed. id='' @ dec (unat i)) a"

definition al_onError :: "(nat \<Rightarrow> u8) \<Rightarrow> u64 \<Rightarrow> string \<Rightarrow> u32 \<Rightarrow> alpaca \<Rightarrow> alpaca option" where
  "al_onError status i err len a =
     (let a1 = say (''WebSocket id='' @ dec (unat i) @ '' Error: '' @ take (unat len) err) a
      in al_closeWebSocket status (al_ws_id a1) a1)"

definition auth_json :: "('j, 'x) json_lib_scheme \<Rightarrow> alpaca \<Rightarrow> 'j" where
  "auth_json L a = js_object L
     [(''action'', js_string L ''auth''), (''key'', js_string L (al_api_key a)),
      (''secret'', js_string L (al_api_secret a))]"

text \<open>How the handling of one element of the array ends.\<close>

datatype flow = Next | Break | Thrown

definition al_authenticate :: "('j, 'x) json_lib_scheme \<Rightarrow> alpaca \<Rightarrow> flow \<times> alpaca" where
  "al_authenticate L a =
     (let a1 = say ''Authenticating...'' a
      in case js_dump L (auth_json L a1) of
           None \<Rightarrow> (Thrown, a1)
         | Some str \<Rightarrow> (Next, al_send str a1))"

definition al_item ::
    "('j, 'x) json_lib_scheme \<Rightarrow> (nat \<Rightarrow> u8) \<Rightarrow> u64 \<Rightarrow> 'j \<Rightarrow> alpaca \<Rightarrow> (flow \<times> alpaca) option" where
  "al_item L status i obj a =
     (if \<not> js_is_object L obj then Some (Next, a)
      else (case js_field L obj ''T'' of
        None \<Rightarrow> Some (Next, a)
      | Some ty \<Rightarrow>
          if js_str L ty = Some ''error'' then
            (let a1 = say (''On Ws error'' @ js_show L (js_at L obj ''msg'') @ ''('' @
                   js_show L (js_at L obj ''code'') @ '')'') a
             in case al_closeWebSocket status i (settle Failed a1) of
                  None \<Rightarrow> None
                | Some a2 \<Rightarrow> Some (Break, a2))
          else if js_str L ty = Some ''success'' then
            (case js_str L (js_at L obj ''msg'') of
               None \<Rightarrow> Some (Thrown, a)
             | Some msg \<Rightarrow>
                 if msg = ''connected'' then Some (al_authenticate L a)
                 else if msg = ''authenticated'' then
                   Some (Next, settle Completed (say ''Authenticated'' a))
                 else Some (Next, say (al_ss a) a))
          else if js_str L ty = Some ''subscription'' then
            Some (Next, settle Failed (say (''subscription: '' @ al_ss a) a))
          else if js_str L ty = Some ''t'' then Some (Next, say (''Trade: '' @ al_ss a) a)
          else if js_str L ty = Some ''q'' then Some (Next, say (''Quote: '' @ al_ss a) a)
          else Some (Next, a)))"

fun al_items ::
    "('j, 'x) json_lib_scheme \<Rightarrow> (nat \<Rightarrow> u8) \<Rightarrow> u64 \<Rightarrow> 'j list \<Rightarrow> alpaca \<Rightarrow> alpaca option" where
  "al_items L status i [] a = Some a"
| "al_items L status i (obj # objs) a = (case al_item L status i obj a of
     None \<Rightarrow> None
   | Some (Next, a1) \<Rightarrow> al_items L status i objs a1
   | Some (Break, a1) \<Rightarrow> Some a1
   | Some (Thrown, a1) \<Rightarrow> Some a1)"

text \<open>
  The collected text is complete: whatever is thrown while it is handled is caught, and the text is
  dropped in the end.
\<close>

definition al_message :: "('j, 'x) json_lib_scheme \<Rightarrow> (nat \<Rightarrow> u8) \<Rightarrow> u64 \<Rightarrow> alpaca \<Rightarrow> alpaca option" where
  "al_message L status i a =
     (case (case js_parse L (al_ss a) of
              None \<Rightarrow> Some a
            | Some j \<Rightarrow> (case js_items L j of
                None \<Rightarrow> Some a
              | Some objs \<Rightarrow> al_items L status i objs a)) of
        None \<Rightarrow> None
      | Some a1 \<Rightarrow> Some (a1\<lparr>al_ss := []\<rparr>))"

text \<open>\<open>data\<close> is what the pointer, which is never null here, points to.\<close>

definition al_onData ::
    "('j, 'x) json_lib_scheme \<Rightarrow> (nat \<Rightarrow> u8) \<Rightarrow> u64 \<Rightarrow> string \<Rightarrow> u32 \<Rightarrow> u32 \<Rightarrow> alpaca \<Rightarrow> alpaca option" where
  "al_onData L status i data len remaining a =
     (let a1 = (if len \<noteq> 0 then a\<lparr>al_ss := al_ss a @ take (unat len) data\<rparr> else a)
      in if remaining = 0 then al_message L status i a1 else Some a1)"

text \<open>The virtual functions, called with what the client library reports.\<close>

fun al_callback ::
    "('j, 'x) json_lib_scheme \<Rightarrow> (nat \<Rightarrow> u8) \<Rightarrow> client_action \<Rightarrow> alpaca \<Rightarrow> alpaca option" where
  "al_callback L status (Sent m) a = Some a"
| "al_callback L status OnDisconnected a = al_onServerDisconnected status a"
| "al_callback L status (OnOpened i) a = Some (al_onOpened i a)"
| "al_callback L status (OnClosed i) a = Some (al_onClosed i a)"
| "al_callback L status (OnError i err len) a = al_onError status i err len a"
| "al_callback L status (OnData i data len remaining) a = al_onData L status i data len remaining a"

text \<open>What the library logs goes to the standard output too.\<close>

datatype log_call = LogError | LogWarning | LogInfo | LogDebug

fun log_prefix :: "log_call \<Rightarrow> string" where
  "log_prefix LogError = ''ERROR: ''"
| "log_prefix LogWarning = ''WAR: ''"
| "log_prefix LogInfo = ''INFO: ''"
| "log_prefix LogDebug = ''DEBUG: ''"

definition al_log :: "log_call \<Rightarrow> string \<Rightarrow> alpaca \<Rightarrow> alpaca" where
  "al_log k msg a = say (log_prefix k @ msg) a"

section \<open>The two threads\<close>

text \<open>Where the application's thread is.\<close>

datatype al_pc = Ready | Requesting | Opening | Opened bool | Subscribing | Subscribed bool

definition at_rest :: "al_pc \<Rightarrow> bool" where
  "at_rest pc \<longleftrightarrow> (case pc of Ready \<Rightarrow> True | Opened b \<Rightarrow> True | Subscribed b \<Rightarrow> True | _ \<Rightarrow> False)"

inductive al_step :: "('j, 'x) json_lib_scheme \<Rightarrow> alpaca \<times> al_pc \<Rightarrow> alpaca \<times> al_pc \<Rightarrow> bool" for L where
  as_open: "at_rest pc \<Longrightarrow> al_step L (a, pc) (al_open_begin url key secret a, Requesting)"
| as_request_answer: "al_open_request w status m p a = Some (Inr (Answer b, a')) \<Longrightarrow>
    al_step L (a, Requesting) (a', Opened b)"
| as_request_waits: "al_open_request w status m p a = Some (Inr (Waits, a')) \<Longrightarrow>
    al_step L (a, Requesting) (a', Opening)"
| as_open_poll: "al_open_poll a = Some b \<Longrightarrow> al_step L (a, Opening) (a, Opened b)"
| as_subscribe: "at_rest pc \<Longrightarrow> al_subscribe_begin L symbol a = Some a' \<Longrightarrow>
    al_step L (a, pc) (a', Subscribing)"
| as_subscribe_poll: "al_subscribe_poll a = Some b \<Longrightarrow> al_step L (a, Subscribing) (a, Subscribed b)"
| as_close: "at_rest pc \<Longrightarrow> al_close status a = Some a' \<Longrightarrow> al_step L (a, pc) (a', pc)"
| as_callback: "al_callback L status act a = Some a' \<Longrightarrow> al_step L (a, pc) (a', pc)"
| as_log: "al_step L (a, pc) (al_log k msg a, pc)"

end
