(* ===== verification/Client_Props.thy ===== *)
theory Client_Props
  imports Client_Steps Loop_Props
begin

text \<open>
  What arrives when a client and the server exchange messages through the shared queues, from the
  call on one side to the effect on the other.
\<close>

section \<open>Requests on their way\<close>

text \<open>The bytes \<open>sendMessage\<close> publishes of a message \<open>b\<close>, and their arrival at address \<open>p\<close>.\<close>

definition sent_bytes :: "mem \<Rightarrow> u32 \<Rightarrow> string" where
  "sent_bytes b sz = load (set_status b 0 PENDING) 0 (unat sz)"

lemma sizes:
  "unat (get_message_size RegisterMessage_layout 0) = 306"
  "unat (get_message_size WsOpen_layout 0) = 1307" "unat (get_message_size WsClose_layout 0) = 18"
  by (simp_all add: get_message_size_def)

lemma header_arrives:
  assumes "holds m p (sent_bytes b sz)" and "10 \<le> unat sz"
  shows "msg_pid m p = load_u64 b 0" and "msg_type m p = load_u8 b 8" and "msg_status m p = status_code PENDING"
proof -
  note h = assms(1) [unfolded sent_bytes_def]
  show "msg_pid m p = load_u64 b 0"
    using holds_loads(3) [OF h, of 0] assms(2) by (simp add: layout)
  show "msg_type m p = load_u8 b 8"
    using holds_loads(1) [OF h, of 8] assms(2) by (simp add: layout)
  show "msg_status m p = status_code PENDING"
    using holds_loads(1) [OF h, of 9] assms(2) by (simp add: layout)
qed

lemma cut_nul_nul_free: "nul_free url \<Longrightarrow> cut_nul url = url"
  by (rule cut_nul_id)

lemma open_msg_Some:
  assumes "nul_free url" and "nul_free key" and "length url < 512" and "length key < 512"
  shows "open_msg c url key = Some (store (store (set_type (reserve_block (cl_pid c)) 0 OpenWs) 10
    (url @ [CHR 0x00])) 522 (key @ [CHR 0x00]))"
  using assms by (simp add: open_msg_def strcpy_s_def cut_nul_id layout Let_def)

lemma open_arrives:
  assumes "open_msg c url key = Some b" and "nul_free url" and "nul_free key"
    and "length url < 512" and "length key < 512"
    and "holds m p (sent_bytes b (get_message_size WsOpen_layout 0))"
  shows "msg_pid m p = cl_pid c" and "msg_type m p = type_code OpenWs"
    and "msg_status m p = status_code PENDING" and "open_url m p = url" and "open_api_key m p = key"
proof -
  let ?m1 = "store (set_type (reserve_block (cl_pid c)) 0 OpenWs) 10 (url @ [CHR 0x00])"
  have b: "b = store ?m1 522 (key @ [CHR 0x00])"
    using assms(1) open_msg_Some [OF assms(2-5), of c] by simp
  note h = assms(6) [unfolded sent_bytes_def sizes]
  show "msg_pid m p = cl_pid c" "msg_type m p = type_code OpenWs" "msg_status m p = status_code PENDING"
    using header_arrives [OF assms(6)] assms(4,5)
    by (simp_all add: b sizes layout reserve_block_def del: type_code.simps)
  have "load_cstr ?m1 10 512 = url"
    by (rule load_cstr_store) (use assms in simp_all)
  then have "load_cstr (set_status b 0 PENDING) 10 512 = url" by (simp add: b layout)
  then show "open_url m p = url"
    using holds_loads(4) [OF h, of 10 512] by (simp add: open_url_def layout)
  have "load_cstr (store ?m1 522 (key @ [CHR 0x00])) 522 512 = key"
    by (rule load_cstr_store) (use assms in simp_all)
  then have "load_cstr (set_status b 0 PENDING) 522 512 = key" by (simp add: b layout)
  then show "open_api_key m p = key"
    using holds_loads(4) [OF h, of 522 512] by (simp add: open_api_key_def layout)
qed

section \<open>Registration, end to end\<close>

lemma register_arrives:
  assumes "register_msg c = Some b" and "holds m p (sent_bytes b (get_message_size RegisterMessage_layout 0))"
  shows "msg_pid m p = cl_pid c" and "msg_type m p = type_code Register"
  using header_arrives [OF assms(2)] assms(1)
  by (auto simp: register_msg_def Let_def strcpy_s_def sizes layout reserve_block_def split: if_splits)

text \<open>
  A client that registers learns the pid of the server that handled its message, and is known
  there: the message the client publishes makes the server enter it, and the answer the server leaves
  in it makes the client connected.
\<close>

theorem register_end_to_end:
  assumes "register_msg c = Some b" and "um_ok (clients s)"
    and "holds (shm s) p (sent_bytes b (get_message_size RegisterMessage_layout 0))"
    and "status 0 \<noteq> status_code PENDING" and "t = result_state (handleClientMessage s p)"
  shows "known t (cl_pid c) \<and> shutdown_time t = 0 \<and>
    (\<exists>d. client_register status (shm t) p c = Some (Inr (True, d)) \<and> cl_server_pid d = pid s \<and>
      Sent (sent_bytes b (get_message_size RegisterMessage_layout 0)) \<in> set (cl_trace d))"
proof -
  note a = register_arrives [OF assms(1,3)]
  have t: "t = handleClientRegistration s p"
    using a(2) by (simp add: assms(5) handleClientMessage_def del: type_code.simps)
  have "known t (cl_pid c)"
    by (simp add: t registration_clients a(1) um_laws assms(2))
  moreover have "shutdown_time t = 0"
    by (simp add: t handleClientRegistration_def Let_def tick_def)
  moreover have "load_u64 (shm t) (fld RegisterMessage_layout ''server_pid'' p) = pid s"
    "msg_status (shm t) p = status_code SUCCESS"
    by (simp_all add: t handleClientRegistration_def Let_def tick_def layout)
  moreover have "cl_trace (cl_tick x) = cl_trace x" for x by (simp add: cl_tick_def)
  ultimately show ?thesis
    using assms(1,4) by (simp add: client_register_def wait_answered Let_def trace_sendMessage sent_bytes_def)
qed

definition demo_arrived :: "mem \<Rightarrow> u32 \<Rightarrow> proxy" where
  "demo_arrived b sz = demo_state\<lparr>shm := store zero_mem 100 (sent_bytes b sz)\<rparr>"

lemma demo_arrived_fields [simp]:
  "holds (shm (demo_arrived b sz)) 100 (sent_bytes b sz)" "tables_ok (demo_arrived b sz)"
  "clients (demo_arrived b sz) = clients demo_state" "pid (demo_arrived b sz) = 3"
  "websocketsById (demo_arrived b sz) = [(30001, 0)]" "heap (demo_arrived b sz) = heap demo_state"
  "websocketsByUrlApiKey (demo_arrived b sz) = websocketsByUrlApiKey demo_state"
  "env (demo_arrived b sz) = demo_env" "io (demo_arrived b sz) = []" "conns (demo_arrived b sz) = [30001 \<mapsto> {7}]"
  by (simp_all add: demo_arrived_def holds_def)

theorem register_end_to_end_example:
  "\<exists>b d. register_msg demo_client = Some b \<and>
     client_register (\<lambda>_. 1) (shm (result_state (handleClientMessage (demo_arrived b 306) 100))) 100 demo_client =
       Some (Inr (True, d)) \<and> cl_server_pid d = 3"
proof -
  obtain b where b: "register_msg demo_client = Some b"
    by (simp add: register_msg_def strcpy_s_def cut_nul_def Let_def)
  have "get_message_size RegisterMessage_layout 0 = 306" by (simp add: get_message_size_def)
  then show ?thesis
    using register_end_to_end [OF b, of "demo_arrived b 306" 100 "\<lambda>_. 1"] b by (force simp: um_ok_def)
qed

section \<open>Opening, end to end\<close>

text \<open>
  C11: A client that opens a url and key another client has already connected gets that connection:
  the server adds it to the connection's clients, starts nothing on the network, and the call returns
  the connection's id and that it is not new.
\<close>

theorem open_end_to_end:
  assumes "tables_ok s" and "cl_server_pid c \<noteq> 0" and "known s (cl_pid c)"
    and "nul_free url" and "nul_free key" and "length url \<le> 255" and "length key < 512"
    and "live s (url, key) = Some r" and "um_find (websocketsById s) (ws_id (heap s r)) = Some r"
    and "open_msg c url key = Some b"
    and "holds (shm s) p (sent_bytes b (get_message_size WsOpen_layout 0))"
    and "status 0 \<noteq> status_code PENDING" and "t = result_state (handleClientMessage s p)"
  shows "conns t = abs_join (ws_id (heap s r)) (cl_pid c) (conns s) \<and> io t = io s \<and>
    (\<exists>d. openWebSocket w status (shm t) p url key c = Some (Inr ((ws_id (heap s r), False), d)) \<and>
      Sent (sent_bytes b (get_message_size WsOpen_layout 0)) \<in> set (cl_trace d))"
proof -
  have "length url < 512" using assms(6) by simp
  note a = open_arrives [OF assms(10,4,5) this assms(7,11)]
  have k: "known s (sender s p)" and l: "live s (open_key (shm s) p) = Some r"
    using assms(3,8) by (simp_all add: a)
  have t: "t = share_ws (stamped s p) p r"
    using a(2) by (simp add: assms(13) handleClientMessage_def openWs_live [OF k l] del: type_code.simps)
  have "byId_ok (stamped s p)"
    using tables_ok_getClient [OF assms(1)] by (simp add: tables_ok_def)
  then have "conns t = abs_join (ws_id (heap s r)) (cl_pid c) (conns s)"
    using assms(9) by (simp add: t conns_share_ws a(1))
  moreover have "io t = io s" by (simp add: t share_ws_io)
  moreover have "msg_status (shm t) p = status_code SUCCESS"
    "load_u64 (shm t) (fld WsOpen_layout ''id'' p) = ws_id (heap s r)"
    "load_u8 (shm t) (fld WsOpen_layout ''new_connection'' p) = 0"
    using share_ws_reply [of "stamped s p" r p] live_connected [OF assms(1,8)] by (simp_all add: t)
  moreover have "cl_trace (cl_tick x) = cl_trace x" for x by (simp add: cl_tick_def)
  ultimately show ?thesis
    using assms(2,6,10,12)
    by (simp add: openWebSocket_def sendOpenMessage_def wait_answered Let_def trace_sendMessage sent_bytes_def)
qed

theorem open_end_to_end_witness:
  "\<exists>b d. openWebSocket demo_world (\<lambda>_. 1) (shm (result_state (handleClientMessage (demo_arrived b 1307) 100))) 100
     ''wss://host.com'' [] demo_client = Some (Inr ((30001, False), d))"
proof -
  have n: "nul_free ''wss://host.com''" "nul_free []" by (simp_all add: nul_free_def)
  obtain b where b: "open_msg demo_client ''wss://host.com'' [] = Some b"
    using open_msg_Some [OF n, of demo_client] by simp
  have sz: "get_message_size WsOpen_layout 0 = 1307" by (simp add: get_message_size_def)
  have "live (demo_arrived b 1307) (''wss://host.com'', []) = Some 0"
    by (simp add: live_def fm_find_def)
  from open_end_to_end [OF _ _ _ n _ _ this _ b, where status = "\<lambda>_. 1" and p = 100 and w = demo_world] sz
  show ?thesis by auto
qed

section \<open>Data, end to end\<close>

text \<open>
  C13: What arrives on a websocket reaches exactly the clients that have it open: the worker of a
  connected client that reads the message the server publishes calls the application back with the
  websocket's id and the received bytes, unchanged, if the client has that websocket open, and
  reports nothing otherwise.
\<close>

theorem data_end_to_end:
  assumes "trace (onWsData s i data len 0) = trace s @ [Publish bs]" and "holds m p bs"
    and "length data = unat len" and "unat len + 26 < 2 ^ 32"
    and "cl_server_pid c = pid s" and "pid s \<noteq> 0" and "d = doWork (Some (m, p)) c"
  shows "callbacks d = callbacks c @ (if i \<in> set (cl_websockets c) then [OnData i data len 0] else []) \<and>
    cl_websockets d = cl_websockets c \<and> cl_last_server_heartbeat_time d = cl_now c"
proof -
  note f = onWsData_fields [OF assms(1-4)]
  have "type_of_code (msg_type m p) = Some WsData"
    using f(2) by (simp del: type_code.simps)
  then show ?thesis
    using f assms(5,6)
    by (simp add: assms(7) doWork_def Let_def client_dispatch_def handleWsData_def)
      (simp add: cl_emit_def)
qed

definition demo_published :: string where
  "demo_published = load (let m0 = set_type (reserve_block 3) 0 WsData;
         m1 = store_u64 m0 (fld WsData_layout ''id'' 0) 30001;
         m2 = store_u32 m1 (fld WsData_layout ''len'' 0) 4;
         m3 = store_u32 m2 (fld WsData_layout ''remaining'' 0) 0
     in store m3 (fld WsData_layout ''data'' 0) ''tick'') 0 30"

theorem data_end_to_end_witness:
  "callbacks (doWork (Some (store zero_mem 7 demo_published, 7)) (demo_client\<lparr>cl_websockets := [30001]\<rparr>)) =
     [OnData 30001 ''tick'' 4 0]"
proof -
  let ?c = "demo_client\<lparr>cl_websockets := [30001]\<rparr>"
  have t: "trace (onWsData demo_state 30001 ''tick'' 4 0) = trace demo_state @ [Publish demo_published]"
    by (simp add: onWsData_def demo_published_def Let_def get_message_size_def)
  have "holds (store zero_mem 7 demo_published) 7 demo_published"
    by (simp add: holds_def)
  from data_end_to_end [OF t this, of ?c, OF _ _ _ _ refl] show ?thesis
    by (simp add: callbacks_def)
qed

section \<open>Subscriptions and requests, end to end\<close>

lemma size_sub:
  assumes "unat len + 280 < 2 ^ 32"
  shows "unat (get_message_size WsSubscription_layout len) = 280 + unat len"
  using unat_get_message_size [of len WsSubscription_layout] assms by simp

lemma sub_block_zero:
  "load (store_u8 (store_u64 (store_u32 (set_type (reserve_block q) 0 Subscribe) 274 len) 266 i) 279 ty) 10 256 =
     replicate 256 (CHR 0x00)"
  by (simp add: reserve_block_def set_pid_def set_type_def store_u8_def store_u32_def store_u64_def
      load_store_disjoint load_zero_mem layout_defs del: type_code.simps)

text \<open>
  A subscription arrives as it was asked for: wherever the published message lies in the server's
  memory, the server reads the client's pid, the type of message, the connection's id, the symbol, the
  subscription type and the request as the caller gave them, for every symbol that fits its field,
  also one that fills it.
\<close>

theorem subscribe_arrives:
  assumes "b = subscribe_msg c i symbol rq len ty" and "nul_free symbol" and "length symbol \<le> 256"
    and "length rq = unat len" and "unat len + 280 < 2 ^ 32"
    and "holds m p (sent_bytes b (get_message_size WsSubscription_layout len))"
  shows "msg_pid m p = cl_pid c \<and> type_of_code (msg_type m p) = Some Subscribe \<and> sub_id m p = i \<and>
    sub_symbol m p = symbol \<and> sub_req_type m p = ty \<and> sub_request m p = rq"
proof -
  let ?m3 = "store_u8 (store_u64 (store_u32 (set_type (reserve_block (cl_pid c)) 0 Subscribe) 274 len) 266 i) 279 ty"
  have b: "b = store (store ?m3 10 symbol) 280 rq"
    using assms(4) by (simp add: assms(1) subscribe_msg_def Let_def layout)
  note sz = size_sub [OF assms(5)]
  note h = assms(6) [unfolded sent_bytes_def sz]
  note at = holds_loads [OF h] holds_load [OF h]
  have hd: "msg_pid m p = cl_pid c" "msg_type m p = type_code Subscribe"
    using header_arrives [OF assms(6)] assms(3) sz
    by (simp_all add: b layout reserve_block_def del: type_code.simps)
  have "load_cstr (store ?m3 10 symbol) 10 256 = symbol"
    by (rule load_cstr_store_zero [OF assms(2,3) sub_block_zero])
  then have sym: "sub_symbol m p = symbol"
    using at(4) [of 10 256] by (simp add: sub_symbol_def layout b)
  have id: "sub_id m p = i" "sub_req_type m p = ty"
    using at(3) [of 266] at(1) [of 279] assms(3) by (simp_all add: sub_id_def sub_req_type_def layout b)
  have "load_u32 m (p + 274) = len"
    using at(2) [of 274] assms(3) by (simp add: layout b)
  moreover have "load (set_status b 0 PENDING) 280 (unat len) = rq"
    using assms(4) by (simp add: b set_status_def store_u8_def load_store_disjoint load_store_same_len layout_defs)
  then have "load m (p + 280) (unat len) = rq"
    using at(5) [of 280 "unat len"] by simp
  ultimately have "sub_request m p = rq" by (simp add: sub_request_def layout)
  then show ?thesis using hd sym id by (simp del: type_code.simps)
qed

theorem subscribe_arrives_example:
  "sub_symbol (shm (demo_arrived (subscribe_msg demo_client 30001 ''AAPL'' ''{}'' 2 1) 282)) 100 = ''AAPL''"
proof -
  let ?b = "subscribe_msg demo_client 30001 ''AAPL'' ''{}'' 2 1"
  have "get_message_size WsSubscription_layout 2 = 282" by (simp add: get_message_size_def)
  then show ?thesis
    using subscribe_arrives [of ?b demo_client 30001 "''AAPL''" "''{}''" 2 1 "shm (demo_arrived ?b 282)" 100, OF refl]
    by (simp add: nul_free_def)
qed

text \<open>
  C28: A symbol longer than its field overwrites the fields behind it: of a symbol of at least 264
  characters the server takes eight for the connection's id, whatever id the caller gave.
\<close>

theorem subscribe_symbol_overflow:
  assumes "b = subscribe_msg c i symbol rq len ty" and "264 \<le> length symbol" and "unat len + 280 < 2 ^ 32"
    and "holds m p (sent_bytes b (get_message_size WsSubscription_layout len))"
  shows "sub_id m p = of_nat (le_nat (take 8 (drop 256 symbol)))"
proof -
  note h = assms(4) [unfolded sent_bytes_def size_sub [OF assms(3)]]
  obtain m3 where b: "b = store (store m3 10 symbol) 280 (take (unat len) rq)"
    by (simp add: assms(1) subscribe_msg_def Let_def layout)
  have "load (store m3 10 symbol) 266 8 = take 8 (drop 256 symbol)"
    using assms(2) by (intro nth_equalityI) (auto simp: nth_load store_def)
  then have "load_u64 (set_status b 0 PENDING) 266 = of_nat (le_nat (take 8 (drop 256 symbol)))"
    by (simp add: b layout) (simp add: load_u64_def)
  then show ?thesis
    using holds_loads(3) [OF h, of 266] by (simp add: sub_id_def layout)
qed

theorem subscribe_symbol_overflow_witness:
  "sub_id (shm (demo_arrived (subscribe_msg demo_client 30001 (replicate 256 (CHR ''A'') @ ''BBBBBBBB'') [] 0 1) 280)) 100
    = of_nat (le_nat ''BBBBBBBB'')"
proof -
  let ?b = "subscribe_msg demo_client 30001 (replicate 256 (CHR ''A'') @ ''BBBBBBBB'') [] 0 1"
  have "get_message_size WsSubscription_layout 0 = 280" by (simp add: get_message_size_def)
  then show ?thesis
    using subscribe_symbol_overflow [of ?b demo_client 30001 _ "[]" 0 1 "shm (demo_arrived ?b 280)" 100, OF refl]
    by simp
qed

lemma request_arrives:
  assumes "b = request_msg c i data len" and "length data = unat len" and "unat len + 22 < 2 ^ 32"
    and "holds m p (sent_bytes b (get_message_size WsRequest_layout len))"
  shows "msg_pid m p = cl_pid c" and "msg_type m p = type_code WsRequest" and "request_id m p = i"
    and "request_data m p = data"
proof -
  let ?m2 = "store_u64 (store_u32 (set_type (reserve_block (cl_pid c)) 0 WsRequest) 18 len) 10 i"
  have b: "b = store ?m2 22 data"
    using assms(2) by (simp add: assms(1) request_msg_def Let_def layout)
  have sz: "unat (get_message_size WsRequest_layout len) = 22 + unat len"
    using unat_get_message_size [of len WsRequest_layout] assms(3) by simp
  note h = assms(4) [unfolded sent_bytes_def sz]
  note at = holds_loads [OF h] holds_load [OF h]
  show "msg_pid m p = cl_pid c" "msg_type m p = type_code WsRequest"
    using header_arrives [OF assms(4)] sz
    by (simp_all add: b layout reserve_block_def del: type_code.simps)
  show "request_id m p = i"
    using at(3) [of 10] by (simp add: request_id_def layout b)
  have "load_u32 m (p + 18) = len" using at(2) [of 18] by (simp add: layout b)
  moreover have "load (set_status b 0 PENDING) 22 (unat len) = data"
    using assms(2) by (simp add: b set_status_def store_u8_def load_store_disjoint load_store_same_len layout_defs)
  then have "load m (p + 22) (unat len) = data"
    using at(5) [of 22 "unat len"] by simp
  ultimately show "request_data m p = data" by (simp add: request_data_def layout)
qed

text \<open>
  What a registered client sends on a listed connection is what the server writes to its socket:
  handling the published message appends exactly the caller's bytes to the connection's write buffer
  and starts one write of it.
\<close>

theorem send_end_to_end:
  assumes "cl_trace (client_send i data len c) = cl_trace c @ [Sent bs]" and "holds (shm s) p bs"
    and "length data = unat len" and "unat len + 22 < 2 ^ 32" and "buffer_laws (env s)"
    and "known s (cl_pid c)" and "um_find (websocketsById s) i = Some r"
    and "t = result_state (handleClientMessage s p)"
  shows "io t = io s @ [WriteOp r (ws_w_buffer (heap s r) @ data)] \<and>
    ws_w_buffer (heap t r) = ws_w_buffer (heap s r) @ data \<and> msg_status (shm t) p = status_code SUCCESS"
proof -
  have "bs = sent_bytes (request_msg c i data len) (get_message_size WsRequest_layout len)"
    using assms(1) by (simp add: client_send_def trace_sendMessage sent_bytes_def)
  note a = request_arrives [OF refl assms(3,4), of "shm s" p c i, folded this, OF assms(2)]
  have "t = sendWsRequest s p"
    using a(2) by (simp add: assms(8) handleClientMessage_def del: type_code.simps)
  then have "t = reply p SUCCESS (websocket_send (stamped s p) r data)"
    using assms(6,7) a(1,3,4)
    by (simp add: sendWsRequest_def split_beta Let_def request_id_def request_data_def)
  then show ?thesis
    using assms(5) by (simp add: io_send heap_send) (simp add: buffer_laws_def)
qed

definition demo_sent :: string where
  "demo_sent = sent_bytes (request_msg (demo_client\<lparr>cl_pid := 7\<rparr>) 30001 ''ping'' 4) 26"

theorem send_end_to_end_example:
  "io (result_state (handleClientMessage (demo_state\<lparr>shm := store zero_mem 100 demo_sent\<rparr>) 100)) = [WriteOp 0 ''ping'']"
proof -
  let ?s = "demo_state\<lparr>shm := store zero_mem 100 demo_sent\<rparr>" and ?c = "demo_client\<lparr>cl_pid := 7\<rparr>"
  have sz: "get_message_size WsRequest_layout 4 = 26" by (simp add: get_message_size_def)
  have "cl_trace (client_send 30001 ''ping'' 4 ?c) = cl_trace ?c @ [Sent demo_sent]"
    by (simp add: client_send_def trace_sendMessage sent_bytes_def demo_sent_def sz)
  from send_end_to_end [OF this, of ?s 100 0, OF _ _ _ _ _ _ refl] show ?thesis
    by (simp add: holds_def)
qed

section \<open>Closing, end to end\<close>

lemma close_arrives:
  assumes "holds m p (sent_bytes (close_msg c i) (get_message_size WsClose_layout 0))"
  shows "msg_pid m p = cl_pid c" and "msg_type m p = type_code CloseWs"
    and "load_u64 m (fld WsClose_layout ''id'' p) = (if i = 0 then cl_id c else i)"
proof -
  note h = assms [unfolded sent_bytes_def sizes]
  show "msg_pid m p = cl_pid c" "msg_type m p = type_code CloseWs"
    using header_arrives [OF assms]
    by (simp_all add: close_msg_def sizes layout reserve_block_def del: type_code.simps)
  show "load_u64 m (fld WsClose_layout ''id'' p) = (if i = 0 then cl_id c else i)"
    using holds_loads(3) [OF h, of 10] by (simp add: layout close_msg_def)
qed

lemma unregister_arrives:
  assumes "holds m p (sent_bytes (unregister_msg c) (of_nat (sizeof Message_layout)))"
  shows "msg_pid m p = cl_pid c" and "msg_type m p = type_code Unregister"
  using header_arrives [OF assms]
  by (simp_all add: unregister_msg_def layout reserve_block_def del: type_code.simps)

lemma abs_unregister_leave: "abs_unregister q (abs_leave i q C) = abs_unregister q C"
  by (auto simp: abs_unregister_def abs_leave_def fun_eq_iff split: option.split)

text \<open>
  C27: Closing one websocket ends all of them.  \<open>closeWebSocket\<close>, once answered, also publishes an
  \<open>Unregister\<close> message and forgets the server; when the server has handled both messages, the client
  is unknown and out of every connection, not only of the one it closed.
\<close>

theorem close_ends_all:
  assumes "closeWebSocket status i c = Some (True, d)" and "tables_ok s"
    and "holds (shm s) p (sent_bytes (close_msg c i) (get_message_size WsClose_layout 0))"
    and "t = result_state (handleClientMessage s p)"
    and "holds m p' (sent_bytes (unregister_msg c) (of_nat (sizeof Message_layout)))"
    and "u = result_state (handleClientMessage (t\<lparr>shm := m\<rparr>) p')"
  shows "cl_server_pid d = 0 \<and>
    Sent (sent_bytes (unregister_msg c) (of_nat (sizeof Message_layout))) \<in> set (cl_trace d) \<and>
    (known s (cl_pid c) \<longrightarrow> \<not> known u (cl_pid c) \<and> conns u = abs_unregister (cl_pid c) (conns s))"
proof -
  let ?w = "waitForResponse status 10000
         (client_sendMessage c (close_msg c i) (get_message_size WsClose_layout 0))"
  from assms(1) obtain e where e: "?w = Some (True, e)" and d: "d = client_unregister e"
    by (auto simp: closeWebSocket_def split: option.splits bool.splits)
  have "cl_core e = cl_core c" using wait_frame(1) [OF e] by simp
  then have "cl_pid e = cl_pid c" by (rule cl_core_fields)
  then have ue: "unregister_msg e = unregister_msg c" by (simp add: unregister_msg_def)
  have 1: "cl_server_pid d = 0"
    "Sent (sent_bytes (unregister_msg c) (of_nat (sizeof Message_layout))) \<in> set (cl_trace d)"
    by (simp_all add: d client_unregister_def ue trace_sendMessage sent_bytes_def)
  have t: "t = closeWs s p"
    using close_arrives(2) [OF assms(3)] by (simp add: assms(4) handleClientMessage_def del: type_code.simps)
  let ?t = "t\<lparr>shm := m\<rparr>"
  have u: "u = unregisterClient ?t (cl_pid c)"
    using unregister_arrives [OF assms(5)] by (simp add: assms(6) handleClientMessage_def del: type_code.simps)
  have tt: "tables_ok ?t"
    using tables_ok_closeWs [OF assms(2)] t tables_ok_cong [of ?t t] by simp
  have 2: "\<not> known u (cl_pid c) \<and> conns u = abs_unregister (cl_pid c) (conns s)" if k: "known s (cl_pid c)"
  proof -
    have b: "byId_ok (snd (getClient s (cl_pid c)))"
      using tables_ok_getClient [OF assms(2)] by (simp add: tables_ok_def)
    have ct: "conns ?t = abs_leave (if i = 0 then cl_id c else i) (cl_pid c) (conns s)"
      using k close_arrives [OF assms(3)] conns_cong [of ?t t]
      by (simp add: t closeWs_def split_beta conns_closeWs_id [OF b])
    have kt: "known ?t (cl_pid c)"
      using k close_arrives(1) [OF assms(3)] getClient_find [of s] assms(2)
      by (simp add: t closeWs_def split_beta closeWs_id_effects tables_ok_defs)
    have ok: "um_ok (clients ?t)" "byId_ok ?t" using tt by (simp_all add: tables_ok_defs)
    show ?thesis
      using kt ok conns_unregister_iter [OF ok(2), of "cl_pid c"]
      by (auto simp: u unregister_drop um.lookup_remove ct abs_unregister_leave)
  qed
  show ?thesis using 1 2 by blast
qed

theorem close_ends_all_witness:
  "\<exists>u. conns u = Map.empty \<and> \<not> known u 7 \<and>
    u = result_state (handleClientMessage ((result_state (handleClientMessage
      (demo_state\<lparr>shm := store zero_mem 100 (sent_bytes (close_msg (demo_client\<lparr>cl_pid := 7\<rparr>) 5) 18)\<rparr>) 100))
        \<lparr>shm := store zero_mem 200 (sent_bytes (unregister_msg (demo_client\<lparr>cl_pid := 7\<rparr>)) 10)\<rparr>) 200)"
proof -
  let ?c = "demo_client\<lparr>cl_pid := 7\<rparr>"
  have sz: "get_message_size WsClose_layout 0 = 18" by (simp add: get_message_size_def)
  obtain d where "closeWebSocket (\<lambda>_. 1) 5 ?c = Some (True, d)"
    by (simp add: closeWebSocket_def wait_answered)
  from close_ends_all [OF this, of "demo_state\<lparr>shm := store zero_mem 100 (sent_bytes (close_msg ?c 5) 18)\<rparr>" 100 _
      "store zero_mem 200 (sent_bytes (unregister_msg ?c) 10)" 200, OF _ _ refl _ refl]
  show ?thesis
    by (simp add: sz holds_def abs_unregister_def fun_eq_iff)
qed

end
