(* ===== verification/Alpaca_Props.thy ===== *)
theory Alpaca_Props
  imports Alpaca Client_Props
begin

text \<open>
  Properties of the example client: what its answers mean, the exchange that opens a connection,
  messages in pieces, and why \<open>subscribe\<close> never reports success.
\<close>

section \<open>What each operation changes\<close>

lemma say_fields [simp]:
  "al_base (say l a) = al_base a" "al_ws_id (say l a) = al_ws_id a" "al_status (say l a) = al_status a"
  "al_ss (say l a) = al_ss a" "al_out (say l a) = al_out a @ [l]" "al_api_key (say l a) = al_api_key a"
  "al_api_secret (say l a) = al_api_secret a" "al_url (say l a) = al_url a"
  by (simp_all add: say_def)

lemma al_send_fields [simp]:
  "al_ws_id (al_send str a) = al_ws_id a" "al_status (al_send str a) = al_status a"
  "al_ss (al_send str a) = al_ss a" "al_out (al_send str a) = al_out a"
  "al_api_key (al_send str a) = al_api_key a" "al_api_secret (al_send str a) = al_api_secret a"
  "al_base (al_send str a) = client_send (al_ws_id a) str (of_nat (length str)) (al_base a)"
  by (simp_all add: al_send_def)

lemma settle_fields [simp]:
  "al_base (settle st a) = al_base a" "al_ws_id (settle st a) = al_ws_id a" "al_ss (settle st a) = al_ss a"
  "al_out (settle st a) = al_out a" "al_status (settle st a) = (if al_status a = WaitingForResult then st else al_status a)"
  by (simp_all add: settle_def)

text \<open>
  A call of a callback lets the status as it is, settles it as failed, or settles it as completed after
  it has said so; and what was written stays written.
\<close>

definition settles :: "alpaca \<Rightarrow> alpaca \<Rightarrow> bool" where
  "settles a b \<longleftrightarrow> (\<exists>ls. al_out b = al_out a @ ls \<and>
     (al_status b = al_status a \<or>
      (al_status a = WaitingForResult \<and>
        (al_status b = Failed \<or> (al_status b = Completed \<and> ''Authenticated'' \<in> set ls)))))"

lemma settles_refl [simp]: "settles a a"
  by (simp add: settles_def)

lemma settles_trans: "settles a b \<Longrightarrow> settles b c \<Longrightarrow> settles a c"
  unfolding settles_def by (elim exE conjE, rule_tac x = "ls @ lsa" in exI) auto

lemma settles_say [simp]: "settles a (say l a)"
  by (simp add: settles_def)

lemma settles_more [simp]:
  "settles a (b\<lparr>al_base := c\<rparr>) = settles a b" "settles a (b\<lparr>al_ws_id := i\<rparr>) = settles a b"
  "settles a (b\<lparr>al_ss := ss\<rparr>) = settles a b" "settles a (al_send str b) = settles a b"
  "settles (a\<lparr>al_ss := ss\<rparr>) b = settles a b"
  by (simp_all add: settles_def)

lemma settles_close: "al_closeWebSocket status i a = Some b \<Longrightarrow> settles a b"
  by (auto simp: al_closeWebSocket_def split: option.splits)

lemma settles_settle: "settles a (settle Failed (say l a))" "settles a (settle Completed (say ''Authenticated'' a))"
  by (simp_all add: settles_def)

lemma settles_item: "al_item L status i obj a = Some (fl, b) \<Longrightarrow> settles a b"
  by (auto simp: al_item_def al_authenticate_def Let_def settles_settle
      dest!: settles_close intro: settles_trans [OF settles_settle(1)] split: if_splits option.splits)

lemma settles_items: "al_items L status i objs a = Some b \<Longrightarrow> settles a b"
proof (induction L status i objs a rule: al_items.induct)
  case (2 L status i obj objs a)
  obtain fl c where c: "al_item L status i obj a = Some (fl, c)"
    using 2(2) by (cases "al_item L status i obj a") auto
  then have "settles a c" by (rule settles_item)
  moreover have "settles c b"
    using 2 c by (cases fl) auto
  ultimately show ?case by (rule settles_trans)
qed simp

lemma settles_onData: "al_onData L status i d len rem a = Some b \<Longrightarrow> settles a b"
  by (auto simp: al_onData_def al_message_def Let_def split: if_splits option.splits dest!: settles_items)

lemma settles_callback:
  assumes "al_callback L status act a = Some b"
  shows "settles a b"
proof (cases act)
  case OnDisconnected
  then show ?thesis
    using assms settles_trans [OF settles_say settles_close]
    by (auto simp: al_onServerDisconnected_def Let_def split: if_splits)
next
  case (OnError i err len)
  then show ?thesis
    using assms settles_trans [OF settles_say settles_close] by (auto simp: al_onError_def Let_def)
qed (use assms settles_onData in \<open>auto simp: al_onOpened_def al_onClosed_def\<close>)

section \<open>A JSON library for the examples\<close>

datatype demo_json = DNull | DStr string | DArr "demo_json list" | DObj "(string \<times> demo_json) list"

definition demo_success :: "string \<Rightarrow> demo_json" where
  "demo_success msg = DArr [DObj [(''T'', DStr ''success''), (''msg'', DStr msg)]]"

text \<open>Three texts, one letter each, stand for messages of the market.\<close>

definition demo_lib :: "demo_json json_lib" where
  "demo_lib = \<lparr>js_parse = (\<lambda>t. if t = ''C'' then Some (demo_success ''connected'')
       else if t = ''A'' then Some (demo_success ''authenticated'')
       else if t = ''S'' then Some (DArr [DObj [(''T'', DStr ''subscription'')]]) else None),
     js_dump = (\<lambda>j. Some ''request''), js_show = (\<lambda>j. ''value''),
     js_items = (\<lambda>j. case j of DArr xs \<Rightarrow> Some xs | _ \<Rightarrow> None),
     js_is_object = (\<lambda>j. case j of DObj kvs \<Rightarrow> True | _ \<Rightarrow> False),
     js_field = (\<lambda>j k. case j of DObj kvs \<Rightarrow> map_of kvs k | _ \<Rightarrow> None),
     js_str = (\<lambda>j. case j of DStr t \<Rightarrow> Some t | _ \<Rightarrow> None),
     js_null = DNull, js_string = DStr, js_array = DArr, js_object = DObj\<rparr>"

lemma demo_lib_simps [simp]:
  "js_parse demo_lib t = (if t = ''C'' then Some (demo_success ''connected'')
       else if t = ''A'' then Some (demo_success ''authenticated'')
       else if t = ''S'' then Some (DArr [DObj [(''T'', DStr ''subscription'')]]) else None)"
  "js_dump demo_lib j = Some ''request''"
  "js_items demo_lib (DArr xs) = Some xs" "js_is_object demo_lib (DObj kvs)"
  "js_field demo_lib (DObj kvs) k = map_of kvs k" "js_str demo_lib (DStr t) = Some t"
  by (simp_all add: demo_lib_def)

definition demo_alpaca :: alpaca where
  "demo_alpaca = al_open_begin ''wss://host.com'' ''key'' ''secret'' (AlpacaWebSocketClient_init demo_client)"

lemma demo_alpaca_fields [simp]:
  "al_ss demo_alpaca = []" "al_status demo_alpaca = WaitingForResult" "al_base demo_alpaca = demo_client"
  "al_out demo_alpaca = []" "al_ws_id demo_alpaca = 0"
  by (simp_all add: demo_alpaca_def al_open_begin_def AlpacaWebSocketClient_init_def)

section \<open>What an answer of open means\<close>

text \<open>The lines written since the first \<open>n\<close>, and what they may say about the connection.\<close>

definition since :: "nat \<Rightarrow> alpaca \<Rightarrow> string list" where
  "since n a = drop n (al_out a)"

definition already_connected :: "string list \<Rightarrow> bool" where
  "already_connected ls \<longleftrightarrow> (\<exists>u k. u @ '' key='' @ k @ '' already connected'' \<in> set ls)"

text \<open>The state when \<open>open\<close> has begun, and what holds from then on.\<close>

definition al_begun :: "nat \<Rightarrow> alpaca \<times> al_pc \<Rightarrow> bool" where
  "al_begun n s \<longleftrightarrow> (\<exists>url key secret a. s = (al_open_begin url key secret a, Requesting) \<and> n = length (al_out a))"

definition al_inv :: "nat \<Rightarrow> alpaca \<times> al_pc \<Rightarrow> bool" where
  "al_inv n s \<longleftrightarrow> (case s of (a, pc) \<Rightarrow> n \<le> length (al_out a) \<and>
     (al_status a = Completed \<longrightarrow> ''Authenticated'' \<in> set (since n a)) \<and>
     (pc = Opened True \<longrightarrow> ''Authenticated'' \<in> set (since n a) \<or> already_connected (since n a)))"

lemma since_more:
  "n \<le> length (al_out a) \<Longrightarrow> al_out b = al_out a @ ls \<Longrightarrow> since n b = since n a @ ls"
  by (simp add: since_def)

lemma since_base [simp]: "since n (a\<lparr>al_base := c\<rparr>) = since n a" "since n (a\<lparr>al_status := st\<rparr>) = since n a"
  "since n (a\<lparr>al_ws_id := i\<rparr>) = since n a" "since n (al_send str a) = since n a"
  by (simp_all add: since_def)

lemma already_connected_append: "already_connected xs \<Longrightarrow> already_connected (xs @ ys)"
  unfolding already_connected_def by (metis UnI1 set_append)

lemma al_inv_settles:
  assumes "al_inv n (a, pc)" and "settles a b"
  shows "al_inv n (b, pc)"
proof -
  obtain ls where ls: "al_out b = al_out a @ ls" and st: "al_status b = al_status a \<or>
      (al_status a = WaitingForResult \<and>
        (al_status b = Failed \<or> (al_status b = Completed \<and> ''Authenticated'' \<in> set ls)))"
    using assms(2) unfolding settles_def by blast
  have a: "n \<le> length (al_out a)" "al_status a = Completed \<longrightarrow> ''Authenticated'' \<in> set (since n a)"
    "pc = Opened True \<longrightarrow> ''Authenticated'' \<in> set (since n a) \<or> already_connected (since n a)"
    using assms(1) unfolding al_inv_def by simp_all
  have s: "since n b = since n a @ ls" by (rule since_more [OF a(1) ls])
  have "n \<le> length (al_out b)" using a(1) ls by simp
  moreover have "al_status b = Completed \<longrightarrow> ''Authenticated'' \<in> set (since n b)"
    using st a(2) unfolding s set_append by (metis UnI1 UnI2 request_status.distinct(12))
  moreover have "pc = Opened True \<longrightarrow> ''Authenticated'' \<in> set (since n b) \<or> already_connected (since n b)"
    using a(3) already_connected_append unfolding s set_append by blast
  ultimately show ?thesis by (simp add: al_inv_def)
qed

lemma al_inv_request:
  assumes "al_inv n (a, pc)" and "al_open_request w status m p a = Some (Inr (x, b))"
  shows "al_inv n (b, case x of Answer y \<Rightarrow> Opened y | Waits \<Rightarrow> Opening)"
proof -
  obtain i new c where o: "openWebSocket w status m p (al_url a) (al_api_key a) (al_base a) = Some (Inr ((i, new), c))"
    using assms(2) by (auto simp: al_open_request_def split: option.splits sum.splits)
  have n: "n \<le> length (al_out a)" using assms(1) by (simp add: al_inv_def)
  show ?thesis
  proof (cases "i = 0 \<or> new")
    case True
    then show ?thesis using assms o by (auto simp: al_open_request_def al_inv_def Let_def split: if_splits)
  next
    case False
    let ?l = "al_url a @ '' key='' @ al_api_key a @ '' already connected''"
    have "x = Answer True" "al_out b = al_out a @ [?l]" "al_status b = RS_None"
      using False assms(2) o by (auto simp: al_open_request_def Let_def)
    then show ?thesis
      using n since_more [OF n, of b "[?l]"] by (auto simp: al_inv_def already_connected_def)
  qed
qed

lemma al_inv_step:
  assumes "al_inv n s" and "al_step L s t"
  shows "al_inv n t"
  using assms(2,1)
proof (cases rule: al_step.cases)
  case (as_request_answer w status m p a b a')
  then show ?thesis using al_inv_request [of n a Requesting w status m p "Answer b" a'] assms(1) by simp
next
  case (as_request_waits w status m p a a')
  then show ?thesis using al_inv_request [of n a Requesting w status m p Waits a'] assms(1) by simp
next
  case (as_subscribe pc symbol a a')
  then show ?thesis
    using assms(1) by (auto simp: al_subscribe_begin_def al_inv_def Let_def split: option.splits)
next
  case (as_close pc status a a')
  then have "settles a a'"
    by (auto simp: al_close_def split: if_splits dest: settles_close)
  then show ?thesis using as_close assms(1) al_inv_settles by blast
next
  case (as_callback status act a a' pc)
  then show ?thesis using assms(1) al_inv_settles settles_callback by blast
next
  case (as_log a pc k msg)
  then show ?thesis using assms(1) al_inv_settles [OF _ settles_say] by (auto simp: al_log_def)
qed (use assms(1) in \<open>auto simp: al_inv_def al_open_begin_def al_open_poll_def Let_def split: if_splits\<close>)

interpretation alpaca: invariant_system "al_begun n" "al_step L" "al_inv n" for n L
proof unfold_locales
  show "al_begun n s \<Longrightarrow> al_inv n s" for s
    by (auto simp: al_begun_def al_inv_def al_open_begin_def)
  show "al_inv n s \<Longrightarrow> al_step L s t \<Longrightarrow> al_inv n t" for s t by (rule al_inv_step)
qed

lemma al_step_out:
  assumes "al_step L s t"
  shows "\<exists>ls. al_out (fst t) = al_out (fst s) @ ls"
proof -
  have settled: "settles a b \<Longrightarrow> \<exists>ls. al_out b = al_out a @ ls" for a b by (auto simp: settles_def)
  show ?thesis
    using assms
  proof (cases rule: al_step.cases)
    case (as_subscribe pc symbol a a')
    then show ?thesis by (auto simp: al_subscribe_begin_def Let_def split: option.splits)
  next
    case (as_close pc status a a')
    then show ?thesis using settled by (auto simp: al_close_def split: if_splits dest: settles_close)
  next
    case (as_callback status act a a' pc)
    then show ?thesis using settled [OF settles_callback] by auto
  qed (auto simp: al_open_begin_def al_open_request_def al_log_def Let_def split: option.splits sum.splits prod.splits if_splits)
qed

text \<open>
  C36: \<open>open\<close> answers true only on a usable connection.  Whatever state a call of \<open>open\<close> finds - an earlier
  call may have completed - and whatever the callbacks of the worker do meanwhile, if it answers true then
  since it began the server has accepted the credentials, which is reported, or the proxy has
  answered that it had the connection for another client, which is reported too.
\<close>

theorem alpaca_open_true:
  assumes "rtranclp (al_step L) (al_open_begin url key secret a, Requesting) (b, Opened True)"
  shows "\<exists>ls. al_out b = al_out a @ ls \<and>
    (''Authenticated'' \<in> set ls \<or> (\<exists>u k. u @ '' key='' @ k @ '' already connected'' \<in> set ls))"
proof -
  let ?n = "length (al_out a)"
  have out: "\<exists>ls. al_out (fst t) = al_out (fst s) @ ls" if "rtranclp (al_step L) s t" for s t
    using that
  proof (induction rule: rtranclp_induct)
    case (step t u)
    have "\<exists>ls. al_out (fst u) = al_out (fst t) @ ls" by (rule al_step_out [OF step(2)])
    with step(3) show ?case by auto
  qed simp
  have "al_begun ?n (al_open_begin url key secret a, Requesting)" by (auto simp: al_begun_def)
  then have "al_inv ?n (al_open_begin url key secret a, Requesting)" by (rule alpaca.inv_init)
  from alpaca.inv_steps [OF assms this]
  have "''Authenticated'' \<in> set (since ?n b) \<or> already_connected (since ?n b)" by (simp add: al_inv_def)
  moreover obtain ls where ls: "al_out b = al_out a @ ls"
    using out [OF assms] by (auto simp: al_open_begin_def)
  then have "since ?n b = ls" by (simp add: since_def)
  ultimately show ?thesis using ls by (auto simp: already_connected_def)
qed

section \<open>The exchange\<close>

text \<open>The text \<open>d\<close> is an array of one success message that says \<open>msg\<close>.\<close>

definition says :: "('j, 'x) json_lib_scheme \<Rightarrow> string \<Rightarrow> string \<Rightarrow> bool" where
  "says L d msg \<longleftrightarrow> (\<exists>j obj ty m. js_parse L d = Some j \<and> js_items L j = Some [obj] \<and>
     js_is_object L obj \<and> js_field L obj ''T'' = Some ty \<and> js_str L ty = Some ''success'' \<and>
     js_field L obj ''msg'' = Some m \<and> js_str L m = Some msg)"

text \<open>A last piece, or a whole message, whose length the counter holds.\<close>

lemma length_word:
  assumes "length d < 2 ^ 32"
  shows "unat (of_nat (length d) :: u32) = length d" and "(of_nat (length d) :: u32) = 0 \<longleftrightarrow> d = []"
proof -
  show u: "unat (of_nat (length d) :: u32) = length d" using assms by (simp add: unat_of_nat)
  show "(of_nat (length d) :: u32) = 0 \<longleftrightarrow> d = []"
  proof
    assume "(of_nat (length d) :: u32) = 0"
    with u show "d = []" by simp
  qed simp
qed

lemma onData_piece:
  assumes "length d < 2 ^ 32"
  shows "al_onData L status i d (of_nat (length d)) remaining a =
    (if remaining = 0 then al_message L status i (a\<lparr>al_ss := al_ss a @ d\<rparr>) else Some (a\<lparr>al_ss := al_ss a @ d\<rparr>))"
  by (cases "d = []") (simp_all add: al_onData_def length_word [OF assms])

lemma onData_connected:
  assumes "says L d ''connected''" and "al_ss a = []" and "length d < 2 ^ 32"
    and "js_dump L (auth_json L a) = Some str"
  shows "al_onData L status i d (of_nat (length d)) 0 a = Some (al_send str (say ''Authenticating...'' a))"
proof -
  have j: "auth_json L (say l (x\<lparr>al_ss := ss\<rparr>)) = auth_json L x" for l x ss
    by (simp add: auth_json_def)
  have r: "(al_send str (say l (x\<lparr>al_ss := d\<rparr>)))\<lparr>al_ss := []\<rparr> = al_send str (say l x)" if "al_ss x = []" for x l
    using that by (cases x) (simp add: al_send_def say_def)
  show ?thesis
    using assms(1,2,4)
    by (auto simp: says_def onData_piece [OF assms(3)] al_message_def al_item_def js_at_def al_authenticate_def j r)
qed

lemma onData_authenticated:
  assumes "says L d ''authenticated''" and "al_ss a = []" and "length d < 2 ^ 32"
  shows "al_onData L status i d (of_nat (length d)) 0 a = Some (settle Completed (say ''Authenticated'' a))"
proof -
  have r: "(settle Completed (say l (x\<lparr>al_ss := d\<rparr>)))\<lparr>al_ss := []\<rparr> = settle Completed (say l x)" if "al_ss x = []" for x l
    using that by (cases x) (simp add: settle_def say_def)
  show ?thesis
    using assms(1,2) by (auto simp: says_def onData_piece [OF assms(3)] al_message_def al_item_def js_at_def r)
qed

text \<open>
  C37: The exchange that opens a connection.  When a waiting \<open>open\<close> is told that the websocket is open,
  and the market then says that it is connected and, later, that it has authenticated the client,
  the client sends exactly one message in between, the request to authenticate with its key and
  secret, on that websocket, and \<open>open\<close> answers true.
\<close>

theorem alpaca_handshake:
  assumes "al_status a = WaitingForResult" and "al_ss a = []" and "js_dump L (auth_json L a) = Some str"
    and "says L d1 ''connected''" and "length d1 < 2 ^ 32"
    and "says L d2 ''authenticated''" and "length d2 < 2 ^ 32"
  shows "\<exists>b c. al_callback L st1 (OnData i d1 (of_nat (length d1)) 0) (al_onOpened i a) = Some b \<and>
    al_callback L st2 (OnData i d2 (of_nat (length d2)) 0) b = Some c \<and>
    al_base c = client_send i str (of_nat (length str)) (al_base a) \<and>
    al_open_poll b = None \<and> al_open_poll c = Some True \<and> al_ws_id c = i"
proof -
  let ?a = "al_onOpened i a"
  have f: "al_status ?a = WaitingForResult" "al_ss ?a = []" "al_ws_id ?a = i" "al_base ?a = al_base a"
    using assms(1,2) by (simp_all add: al_onOpened_def)
  have "auth_json L ?a = auth_json L a" by (simp add: auth_json_def al_onOpened_def)
  then have s: "js_dump L (auth_json L ?a) = Some str" using assms(3) by simp
  let ?b = "al_send str (say ''Authenticating...'' ?a)"
  note b = onData_connected [OF assms(4) f(2) assms(5) s]
  have "al_ss ?b = []" using f by simp
  note c = onData_authenticated [OF assms(6) this assms(7)]
  show ?thesis using b c f by (simp add: al_open_poll_def Let_def)
qed

theorem alpaca_handshake_witness:
  "\<exists>b c. al_callback demo_lib (\<lambda>_. 1) (OnData 30001 ''C'' 1 0) (al_onOpened 30001 demo_alpaca) = Some b \<and>
    al_callback demo_lib (\<lambda>_. 1) (OnData 30001 ''A'' 1 0) b = Some c \<and> al_open_poll c = Some True"
proof -
  have "says demo_lib ''C'' ''connected''" "says demo_lib ''A'' ''authenticated''"
    by (simp_all add: says_def demo_success_def)
  from alpaca_handshake [OF _ _ _ this(1) _ this(2), of demo_alpaca _ "\<lambda>_. 1" 30001 "\<lambda>_. 1"] show ?thesis
    by auto
qed

section \<open>Messages in pieces\<close>

text \<open>
  A message in pieces, as the interface documents it: with each piece the number of bytes that are
  still to come.
\<close>

fun al_pieces ::
    "('j, 'x) json_lib_scheme \<Rightarrow> (nat \<Rightarrow> u8) \<Rightarrow> u64 \<Rightarrow> string list \<Rightarrow> alpaca \<Rightarrow> alpaca option" where
  "al_pieces L status i [] a = Some a"
| "al_pieces L status i (d # ds) a =
     (case al_callback L status (OnData i d (of_nat (length d)) (of_nat (length (concat ds)))) a of
        None \<Rightarrow> None
      | Some b \<Rightarrow> al_pieces L status i ds b)"

text \<open>
  C39: A message that arrives in pieces is handled like the same message in one piece: however it is
  cut, nothing happens until its last byte is there, and then exactly what happens for the whole.
\<close>

theorem alpaca_pieces:
  assumes "ds \<noteq> []" and "[] \<notin> set ds" and "length (concat ds) < 2 ^ 32"
  shows "al_pieces L status i ds a =
    al_callback L status (OnData i (concat ds) (of_nat (length (concat ds))) 0) a"
  using assms
proof (induction ds arbitrary: a)
  case Nil
  then show ?case by simp
next
  case (Cons d ds)
  have len: "length d < 2 ^ 32" "length (concat ds) < 2 ^ 32" "length (d @ concat ds) < 2 ^ 32"
    using Cons.prems(3) by simp_all
  show ?case
  proof (cases "ds = []")
    case True
    then show ?thesis by (simp split: option.split)
  next
    case False
    then have c: "concat ds \<noteq> []" using Cons.prems(2) by (cases ds) auto
    have "al_pieces L status i (d # ds) a = al_pieces L status i ds (a\<lparr>al_ss := al_ss a @ d\<rparr>)"
      using c length_word(2) [OF len(2)] by (auto simp: onData_piece [OF len(1)])
    also have "\<dots> = al_onData L status i (concat ds) (of_nat (length (concat ds))) 0 (a\<lparr>al_ss := al_ss a @ d\<rparr>)"
      using Cons.IH [OF False] Cons.prems(2) len(2) by simp
    finally show ?thesis
      using onData_piece [OF len(3), of L status i 0 a] by (simp add: onData_piece [OF len(2)])
  qed
qed

theorem alpaca_pieces_witness:
  "al_pieces demo_lib (\<lambda>_. 1) 30001 [''C'', ''C''] demo_alpaca = Some demo_alpaca"
  using alpaca_pieces [of "[''C'', ''C'']" demo_lib "\<lambda>_. 1" 30001 demo_alpaca]
  by (simp add: al_onData_def al_message_def)

section \<open>Subscribing\<close>

text \<open>The worker calls a callback, or the library logs.\<close>

inductive callback_step :: "('j, 'x) json_lib_scheme \<Rightarrow> alpaca \<Rightarrow> alpaca \<Rightarrow> bool" for L where
  cb_call: "al_callback L status act a = Some b \<Longrightarrow> callback_step L a b"
| cb_log: "callback_step L a (al_log k msg a)"

lemma settles_worker: "rtranclp (callback_step L) a b \<Longrightarrow> settles a b"
proof (induction rule: rtranclp_induct)
  case (step b c)
  have "settles b c"
    using step(2) by (cases rule: callback_step.cases) (auto simp: al_log_def dest: settles_callback)
  with step(3) show ?case by (rule settles_trans)
qed simp

text \<open>The text \<open>d\<close> is an array of one message that confirms a subscription.\<close>

definition confirms :: "('j, 'x) json_lib_scheme \<Rightarrow> string \<Rightarrow> bool" where
  "confirms L d \<longleftrightarrow> (\<exists>j obj ty. js_parse L d = Some j \<and> js_items L j = Some [obj] \<and>
     js_is_object L obj \<and> js_field L obj ''T'' = Some ty \<and> js_str L ty = Some ''subscription'')"

lemma onData_confirmed:
  assumes "confirms L d" and "al_ss a = []" and "length d < 2 ^ 32"
  shows "al_onData L status i d (of_nat (length d)) 0 a = Some (settle Failed (say (''subscription: '' @ d) a))"
proof -
  have r: "(settle Failed (say l (x\<lparr>al_ss := d\<rparr>)))\<lparr>al_ss := []\<rparr> = settle Failed (say l x)" if "al_ss x = []" for x l
    using that by (cases x) (simp add: settle_def say_def)
  show ?thesis
    using assms(1,2) by (auto simp: confirms_def onData_piece [OF assms(3)] al_message_def al_item_def r)
qed

text \<open>
  C40: \<open>subscribe\<close> cannot report that a subscription has succeeded.  Its loop does not wait: right after the
  request is sent, and whatever callbacks come before it looks at the status, it answers at once.  Right
  after the request the answer is false; the confirmation of the subscription by the market makes it
  false too, for good; and it is true only if meanwhile the market has said that the client is
  authenticated, which is not an answer to a subscription.
\<close>

theorem alpaca_subscribe_false:
  assumes "al_subscribe_begin L symbol a = Some b" and "rtranclp (callback_step L) b c"
  shows "al_subscribe_poll b = Some False \<and>
    (\<exists>ls. al_out c = al_out b @ ls \<and> (al_subscribe_poll c = Some False \<or>
       al_subscribe_poll c = Some True \<and> ''Authenticated'' \<in> set ls)) \<and>
    (\<forall>status i d. al_status c = WaitingForResult \<and> al_ss c = [] \<and> confirms L d \<and> length d < 2 ^ 32 \<longrightarrow>
       (\<exists>e. al_callback L status (OnData i d (of_nat (length d)) 0) c = Some e \<and>
          (\<forall>f. rtranclp (callback_step L) e f \<longrightarrow> al_subscribe_poll f = Some False)))"
proof (intro conjI allI impI)
  have b: "al_status b = WaitingForResult"
    using assms(1) by (auto simp: al_subscribe_begin_def Let_def split: option.splits)
  then show "al_subscribe_poll b = Some False" by (simp add: al_subscribe_poll_def Let_def)
  obtain ls where ls: "al_out c = al_out b @ ls"
      "al_status c = WaitingForResult \<or> al_status c = Failed \<or> (al_status c = Completed \<and> ''Authenticated'' \<in> set ls)"
    using settles_worker [OF assms(2)] b by (auto simp: settles_def)
  then show "\<exists>ls. al_out c = al_out b @ ls \<and> (al_subscribe_poll c = Some False \<or>
      al_subscribe_poll c = Some True \<and> ''Authenticated'' \<in> set ls)"
    by (intro exI [of _ ls]) (auto simp: al_subscribe_poll_def Let_def)
next
  fix status i d
  assume c: "al_status c = WaitingForResult \<and> al_ss c = [] \<and> confirms L d \<and> length d < 2 ^ 32"
  let ?e = "settle Failed (say (''subscription: '' @ d) c)"
  have f: "al_subscribe_poll f = Some False" if "rtranclp (callback_step L) ?e f" for f
    using settles_worker [OF that] c by (auto simp: settles_def al_subscribe_poll_def Let_def)
  have "al_callback L status (OnData i d (of_nat (length d)) 0) c = Some ?e"
    using onData_confirmed [of L d c status i] c by (simp only: al_callback.simps)
  with f show "\<exists>e. al_callback L status (OnData i d (of_nat (length d)) 0) c = Some e \<and>
      (\<forall>f. rtranclp (callback_step L) e f \<longrightarrow> al_subscribe_poll f = Some False)"
    by blast
qed

text \<open>The confirmation of the subscription arrives.\<close>

theorem alpaca_subscribe_false_witness:
  "\<exists>b e. al_subscribe_begin demo_lib ''AAPL'' demo_alpaca = Some b \<and>
    al_callback demo_lib (\<lambda>_. 1) (OnData 30001 ''S'' 1 0) b = Some e \<and> al_subscribe_poll e = Some False"
proof -
  obtain b where b: "al_subscribe_begin demo_lib ''AAPL'' demo_alpaca = Some b" "al_ss b = []"
      "al_status b = WaitingForResult"
    by (simp add: al_subscribe_begin_def Let_def)
  have "confirms demo_lib ''S''" by (simp add: confirms_def)
  moreover have "length ''S'' < 2 ^ 32" by simp
  ultimately obtain e where e:
      "al_callback demo_lib (\<lambda>_. 1) (OnData 30001 ''S'' (of_nat (length ''S'')) 0) b = Some e"
      "\<forall>f. rtranclp (callback_step demo_lib) e f \<longrightarrow> al_subscribe_poll f = Some False"
    using alpaca_subscribe_false [OF b(1) rtranclp.rtrancl_refl, THEN conjunct2, THEN conjunct2] b(2,3) by blast
  from e(2) have "al_subscribe_poll e = Some False" by blast
  with b(1) e(1) show ?thesis by auto
qed

section \<open>A run of the example, for the witnesses\<close>

definition demo_answer :: mem where
  "demo_answer = store_u8 (store_u64 (set_status zero_mem 0 SUCCESS) (fld WsOpen_layout ''id'' 0) 30001)
     (fld WsOpen_layout ''new_connection'' 0) 1"

lemma demo_request:
  "\<exists>c. al_open_request demo_world (\<lambda>_. 1) demo_answer 0 demo_alpaca =
     Some (Inr (Waits, demo_alpaca\<lparr>al_base := c\<rparr>))"
proof -
  have f: "al_url demo_alpaca = ''wss://host.com''" "al_api_key demo_alpaca = ''key''"
    by (simp_all add: demo_alpaca_def al_open_begin_def)
  obtain b where b: "open_msg demo_client ''wss://host.com'' ''key'' = Some b"
    by (simp add: open_msg_def strcpy_s_def cut_nul_def Let_def)
  have "\<exists>c. openWebSocket demo_world (\<lambda>_. 1) demo_answer 0 ''wss://host.com'' ''key'' demo_client =
      Some (Inr ((30001, True), c))"
    by (simp add: openWebSocket_def sendOpenMessage_def b wait_answered Let_def demo_answer_def layout)
  then show ?thesis using f by (auto simp: al_open_request_def Let_def)
qed

theorem alpaca_open_true_witness:
  "\<exists>b ls. rtranclp (al_step demo_lib) (demo_alpaca, Requesting) (b, Opened True) \<and> al_out b = ls \<and>
    (''Authenticated'' \<in> set ls \<or> (\<exists>u k. u @ '' key='' @ k @ '' already connected'' \<in> set ls))"
proof -
  let ?i = "AlpacaWebSocketClient_init demo_client"
  obtain c where c: "al_open_request demo_world (\<lambda>_. 1) demo_answer 0 demo_alpaca =
      Some (Inr (Waits, demo_alpaca\<lparr>al_base := c\<rparr>))"
    using demo_request by blast
  let ?a = "demo_alpaca\<lparr>al_base := c\<rparr>"
  have "says demo_lib ''C'' ''connected''" "says demo_lib ''A'' ''authenticated''"
    by (simp_all add: says_def demo_success_def)
  from alpaca_handshake [OF _ _ _ this(1) _ this(2), of ?a _ "\<lambda>_. 1" 30001 "\<lambda>_. 1"] obtain x y where
      x: "al_callback demo_lib (\<lambda>_. 1) (OnData 30001 ''C'' 1 0) (al_onOpened 30001 ?a) = Some x"
        "al_callback demo_lib (\<lambda>_. 1) (OnData 30001 ''A'' 1 0) x = Some y" "al_open_poll y = Some True"
    by auto
  let ?s = "(demo_alpaca, Requesting)"
  have "rtranclp (al_step demo_lib) ?s (?a, Opening)"
    by (rule r_into_rtranclp) (rule as_request_waits [OF c])
  then have "rtranclp (al_step demo_lib) ?s (al_onOpened 30001 ?a, Opening)"
    by (rule rtranclp.rtrancl_into_rtrancl) (rule as_callback [where act = "OnOpened 30001" and status = "\<lambda>_. 1"], simp)
  then have "rtranclp (al_step demo_lib) ?s (x, Opening)"
    by (rule rtranclp.rtrancl_into_rtrancl) (rule as_callback [OF x(1)])
  then have "rtranclp (al_step demo_lib) ?s (y, Opening)"
    by (rule rtranclp.rtrancl_into_rtrancl) (rule as_callback [OF x(2)])
  then have r: "rtranclp (al_step demo_lib) ?s (y, Opened True)"
    by (rule rtranclp.rtrancl_into_rtrancl) (rule as_open_poll [OF x(3)])
  have "al_out ?i = []" by (simp add: AlpacaWebSocketClient_init_def)
  with alpaca_open_true [OF r [unfolded demo_alpaca_def]] r show ?thesis by auto
qed

end
