(* ===== verification/Alpaca_Worker.thy ===== *)
theory Alpaca_Worker
  imports Alpaca_Props News
begin

text \<open>
  An iteration of the library's worker with the virtual functions of the example client: they run in
  the middle of the iteration and may themselves send, wait or disconnect.
\<close>

section \<open>The iteration\<close>

text \<open>The dispatch updates \<open>websockets_\<close> and then calls the function, if it calls one.\<close>

fun al_callbacks ::
    "('j, 'x) json_lib_scheme \<Rightarrow> (nat \<Rightarrow> u8) \<Rightarrow> client_action list \<Rightarrow> alpaca \<Rightarrow> alpaca option" where
  "al_callbacks L status [] a = Some a"
| "al_callbacks L status (act # acts) a = (case al_callback L status act a of
     None \<Rightarrow> None
   | Some b \<Rightarrow> al_callbacks L status acts b)"

definition al_dispatch ::
    "('j, 'x) json_lib_scheme \<Rightarrow> (nat \<Rightarrow> u8) \<Rightarrow> mem \<Rightarrow> nat \<Rightarrow> alpaca \<Rightarrow> alpaca option" where
  "al_dispatch L status m p a =
     (let c = al_base a; d = client_dispatch m p c
      in al_callbacks L status (drop (length (cl_trace c)) (cl_trace d)) (a\<lparr>al_base := d\<rparr>))"

definition al_heartbeat :: "u64 \<Rightarrow> alpaca \<Rightarrow> alpaca" where
  "al_heartbeat now a = a\<lparr>al_base := snd (client_sendHeartbeat (al_base a) now)\<rparr>"

text \<open>
  The server is given up: \<open>onWebsocketProxyServerDisconnected\<close>, and then \<open>onWebsocketClosed\<close> for every
  websocket that is open when it returns.
\<close>

definition al_server_lost :: "('j, 'x) json_lib_scheme \<Rightarrow> (nat \<Rightarrow> u8) \<Rightarrow> alpaca \<Rightarrow> alpaca option" where
  "al_server_lost L status a =
     (let a1 = a\<lparr>al_base := cl_emit OnDisconnected ((al_base a)\<lparr>cl_server_pid := 0\<rparr>)\<rparr>
      in case al_callback L status OnDisconnected a1 of
           None \<Rightarrow> None
         | Some a2 \<Rightarrow>
             (let a3 = fold (\<lambda>i b. al_onClosed i (b\<lparr>al_base := cl_emit (OnClosed i) (al_base b)\<rparr>))
                  (cl_websockets (al_base a2)) a2
              in Some (a3\<lparr>al_base := (al_base a3)\<lparr>cl_websockets := []\<rparr>\<rparr>)))"

definition al_doWork ::
    "('j, 'x) json_lib_scheme \<Rightarrow> (nat \<Rightarrow> u8) \<Rightarrow> (mem \<times> nat) option \<Rightarrow> alpaca \<Rightarrow> alpaca option" where
  "al_doWork L status rd a =
     (if cl_server_pid (al_base a) = 0 then Some a
      else
        (let server = cl_server_pid (al_base a); now = cl_now (al_base a);
             a1 = a\<lparr>al_base := cl_tick (al_base a)\<rparr>
         in case rd of
              Some (m, p) \<Rightarrow>
                (let a2 = a1\<lparr>al_base := (al_base a1)\<lparr>cl_last_server_heartbeat_time := now\<rparr>\<rparr>
                 in if server \<noteq> msg_pid m p then Some a2
                    else (case al_dispatch L status m p a2 of
                      None \<Rightarrow> None
                    | Some a3 \<Rightarrow> Some (al_heartbeat now a3)))
            | None \<Rightarrow>
                (let a2 = al_heartbeat now a1
                 in if cl_last_server_heartbeat_time (al_base a2) \<noteq> 0 \<and>
                        now - cl_last_server_heartbeat_time (al_base a2) > HEARTBEAT_TIMEOUT
                    then al_server_lost L status a2 else Some a2)))"

section \<open>Dispatching what was published\<close>

lemma cl_trace_emit [simp]: "cl_trace (cl_emit x c) = cl_trace c @ [x]"
  by (simp add: cl_emit_def)

lemma dispatch_trace:
  "cl_trace (client_dispatch m p c) = cl_trace c @ report (cl_pid c) (news_at m p) (set (cl_websockets c))"
  by (simp add: client_dispatch_def news_at_def handleWsOpen_def handleWsClose_def handleWsError_def
      handleWsData_def Let_def split: option.split msg_type.split)

text \<open>So the example is called back exactly with what the reference reports.\<close>

lemma al_dispatch_report:
  "al_dispatch L status m p a = al_callbacks L status
     (report (cl_pid (al_base a)) (news_at m p) (set (cl_websockets (al_base a))))
     (a\<lparr>al_base := client_dispatch m p (al_base a)\<rparr>)"
  by (simp add: al_dispatch_def dispatch_trace Let_def)

text \<open>A piece of data for an open websocket.\<close>

lemma al_doWork_data:
  assumes "cl_server_pid (al_base a) = server" and "server \<noteq> 0" and "msg_pid m p = server"
    and "news_at m p = NewsData i d len rem" and "i \<in> set (cl_websockets (al_base a))"
    and "c = cl_emit (OnData i d len rem) ((cl_tick (al_base a))\<lparr>cl_last_server_heartbeat_time := cl_now (al_base a)\<rparr>)"
  shows "al_doWork L status (Some (m, p)) a =
    map_option (al_heartbeat (cl_now (al_base a))) (al_onData L status i d len rem (a\<lparr>al_base := c\<rparr>))"
proof -
  let ?c = "(cl_tick (al_base a))\<lparr>cl_last_server_heartbeat_time := cl_now (al_base a)\<rparr>"
  have ws: "cl_websockets ?c = cl_websockets (al_base a)" by simp
  have "type_of_code (msg_type m p) = Some WsData"
    using assms(4) by (auto simp: news_at_def Let_def split: option.splits msg_type.splits)
  then have "client_dispatch m p ?c = cl_emit (OnData i d len rem) ?c"
    using assms(4,5) by (auto simp: client_dispatch_def handleWsData_def news_at_def Let_def)
  then have "al_dispatch L status m p (a\<lparr>al_base := ?c\<rparr>) = al_onData L status i d len rem (a\<lparr>al_base := c\<rparr>)"
    using assms(4-6) by (simp add: al_dispatch_report split: option.split)
  then show ?thesis
    using assms(1-3) by (simp add: al_doWork_def Let_def split: option.split)
qed

section \<open>From the market to the market\<close>

lemma on_read_news:
  assumes "published (websocket_on_read s r None d (length d)) = published s @ [bs]" and "length d + 26 < 2 ^ 32"
    and "holds m p bs"
  shows "msg_pid m p = pid s" and "news_at m p = NewsData (ws_id (heap s r)) d (of_nat (length d)) 0"
proof -
  let ?len = "of_nat (length d) :: u32"
  have n: "unat ?len = length d" using assms(2) by (simp add: unat_of_nat)
  obtain x where x: "trace (onWsData s (ws_id (heap s r)) d ?len 0) = trace s @ [Publish x]"
    by (simp add: onWsData_def Let_def)
  have "published (websocket_on_read s r None d (length d)) = published (onWsData s (ws_id (heap s r)) d ?len 0)"
    by (simp add: websocket_on_read_def Let_def published_def)
  then have "x = bs" using assms(1) x by (simp add: published_def)
  then have t: "trace (onWsData s (ws_id (heap s r)) d ?len 0) = trace s @ [Publish bs]" using x by simp
  have l: "length d = unat ?len" "unat ?len + 26 < 2 ^ 32" using n assms(2) by simp_all
  note f = onWsData_fields [OF t assms(3) l]
  show "msg_pid m p = pid s" by (rule f(1))
  show "news_at m p = NewsData (ws_id (heap s r)) d ?len 0"
    using f(2-6) n by (simp add: news_at_def Let_def del: type_code.simps)
qed

text \<open>
  C38: The market's greeting is answered with the client's credentials.  The text of the market arrives on
  the socket of a shared connection; the server publishes it; the worker of the example client, whose
  websocket this is, reads it and sends one request; and whatever the server has done meanwhile,
  as long as it still knows the client and lists the connection, handling this request writes
  exactly the serialised credentials to the connection's socket, behind what is still unwritten.
\<close>

theorem credentials_end_to_end:
  assumes "published (websocket_on_read s r None d (length d)) = published s @ [bs]" and "length d + 26 < 2 ^ 32"
    and "says L d ''connected''" and "holds m p bs"
    and "cl_server_pid (al_base a) = pid s" and "pid s \<noteq> 0" and "al_ws_id a = ws_id (heap s r)"
    and "ws_id (heap s r) \<in> set (cl_websockets (al_base a))" and "al_ss a = []"
    and "js_dump L (auth_json L a) = Some str" and "length str + 22 < 2 ^ 32"
  shows "\<exists>b rq. al_doWork L status (Some (m, p)) a = Some b \<and> Sent rq \<in> set (cl_trace (al_base b)) \<and>
    ''Authenticating...'' \<in> set (al_out b) \<and>
    (\<forall>u p2 r2. known u (cl_pid (al_base a)) \<and> um_find (websocketsById u) (ws_id (heap s r)) = Some r2 \<and>
      buffer_laws (env u) \<and> holds (shm u) p2 rq \<longrightarrow>
      io (result_state (handleClientMessage u p2)) = io u @ [WriteOp r2 (ws_w_buffer (heap u r2) @ str)])"
proof -
  let ?i = "ws_id (heap s r)" and ?len = "of_nat (length str) :: u32"
  let ?c = "cl_emit (OnData ?i d (of_nat (length d)) 0)
    ((cl_tick (al_base a))\<lparr>cl_last_server_heartbeat_time := cl_now (al_base a)\<rparr>)"
  let ?a = "a\<lparr>al_base := ?c\<rparr>"
  let ?b = "al_heartbeat (cl_now (al_base a)) (al_send str (say ''Authenticating...'' ?a))"
  note n = on_read_news [OF assms(1,2,4)]
  have "auth_json L ?a = auth_json L a" by (simp add: auth_json_def)
  then have "js_dump L (auth_json L ?a) = Some str" using assms(10) by simp
  moreover have "length d < 2 ^ 32" using assms(2) by simp
  ultimately have d: "al_onData L status ?i d (of_nat (length d)) 0 ?a = Some (al_send str (say ''Authenticating...'' ?a))"
    using onData_connected [OF assms(3)] assms(9) by simp
  have "al_doWork L status (Some (m, p)) a =
      map_option (al_heartbeat (cl_now (al_base a))) (al_onData L status ?i d (of_nat (length d)) 0 ?a)"
    by (rule al_doWork_data [OF assms(5,6) n assms(8) refl])
  then have b: "al_doWork L status (Some (m, p)) a = Some ?b" unfolding d by simp
  obtain rq where rq: "cl_trace (client_send ?i str ?len ?c) = cl_trace ?c @ [Sent rq]"
    by (simp add: client_send_def trace_sendMessage)
  have hb: "set (cl_trace x) \<subseteq> set (cl_trace (snd (client_sendHeartbeat x now)))" for x now
    by (auto simp: client_sendHeartbeat_def trace_sendMessage Let_def)
  have "Sent rq \<in> set (cl_trace (client_send ?i str ?len ?c))" by (simp add: rq)
  then have s: "Sent rq \<in> set (cl_trace (al_base ?b))"
    using hb assms(7) by (auto simp: al_heartbeat_def)
  have p: "cl_pid ?c = cl_pid (al_base a)" by (simp add: cl_emit_def)
  have "length str = unat ?len" "unat ?len + 22 < 2 ^ 32" using assms(11) by (simp_all add: unat_of_nat)
  note arrive = send_end_to_end [OF rq _ this, unfolded p]
  have "\<forall>u p2 r2. known u (cl_pid (al_base a)) \<and> um_find (websocketsById u) ?i = Some r2 \<and>
      buffer_laws (env u) \<and> holds (shm u) p2 rq \<longrightarrow>
      io (result_state (handleClientMessage u p2)) = io u @ [WriteOp r2 (ws_w_buffer (heap u r2) @ str)]"
    using arrive by blast
  moreover have "''Authenticating...'' \<in> set (al_out ?b)" by (simp add: al_heartbeat_def)
  ultimately show ?thesis using b s by blast
qed

theorem credentials_end_to_end_witness:
  "\<exists>bs b rq. published (websocket_on_read demo_state 0 None ''C'' 1) = published demo_state @ [bs] \<and>
    al_doWork demo_lib (\<lambda>_. 1) (Some (store zero_mem 7 bs, 7))
      (demo_alpaca\<lparr>al_ws_id := 30001, al_base := demo_client\<lparr>cl_pid := 7, cl_websockets := [30001]\<rparr>\<rparr>) = Some b \<and>
    io (result_state (handleClientMessage (demo_state\<lparr>shm := store zero_mem 100 rq\<rparr>) 100)) = [WriteOp 0 ''request'']"
proof -
  let ?a = "demo_alpaca\<lparr>al_ws_id := 30001, al_base := demo_client\<lparr>cl_pid := 7, cl_websockets := [30001]\<rparr>\<rparr>"
  obtain bs where bs: "published (websocket_on_read demo_state 0 None ''C'' (length ''C'')) = published demo_state @ [bs]"
    by (simp add: websocket_on_read_def published_def onWsData_def Let_def)
  have "says demo_lib ''C'' ''connected''" by (simp add: says_def demo_success_def)
  from credentials_end_to_end [OF bs _ this, OF _ holds_stored [of zero_mem 7 bs], where a = ?a and str = "''request''"
      and status = "\<lambda>_. 1"] obtain b rq where
    b: "al_doWork demo_lib (\<lambda>_. 1) (Some (store zero_mem 7 bs, 7)) ?a = Some b" and
    rq: "\<forall>u p2 r2. known u 7 \<and> um_find (websocketsById u) 30001 = Some r2 \<and>
      buffer_laws (env u) \<and> holds (shm u) p2 rq \<longrightarrow>
      io (result_state (handleClientMessage u p2)) = io u @ [WriteOp r2 (ws_w_buffer (heap u r2) @ ''request'')]"
    by fastforce
  have "io (result_state (handleClientMessage (demo_state\<lparr>shm := store zero_mem 100 rq\<rparr>) 100)) =
      io (demo_state\<lparr>shm := store zero_mem 100 rq\<rparr>) @ [WriteOp 0 (ws_w_buffer (heap (demo_state\<lparr>shm := store zero_mem 100 rq\<rparr>) 0) @ ''request'')]"
    using rq by (simp add: holds_stored)
  then have "io (result_state (handleClientMessage (demo_state\<lparr>shm := store zero_mem 100 rq\<rparr>) 100)) = [WriteOp 0 ''request'']"
    by simp
  with bs b show ?thesis by (metis One_nat_def length_Cons list.size(3))
qed

end
