(* ===== verification/Alpaca_Main.thy ===== *)
theory Alpaca_Main
  imports Alpaca_Props
begin

text \<open>
  The example program, \<open>example/main.cpp\<close>: its command line, which does not read \<open>-u\<close> as its usage
  text says, and what it does with the client.
\<close>

section \<open>The command line\<close>

record ex_args =
  ex_url :: string
  ex_api_key :: string
  ex_api_secret :: string

definition ex_args_init :: ex_args where
  "ex_args_init = \<lparr>ex_url = ''wss://stream.data.alpaca.markets/v2/iex'', ex_api_key = [], ex_api_secret = []\<rparr>"

text \<open>
  The loop over \<open>argv[1..]\<close>.  \<open>-u\<close> takes the next argument as the url, but does not step over it.
  \<open>None\<close>: \<open>-u\<close> is last, and a string is made of the null pointer behind the arguments.
\<close>

fun ex_parse :: "string list \<Rightarrow> ex_args \<Rightarrow> ex_args option" where
  "ex_parse [] x = Some x"
| "ex_parse (arg # args) x =
     (if arg = ''-u'' then (case args of
        [] \<Rightarrow> None
      | url # _ \<Rightarrow> ex_parse args (x\<lparr>ex_url := url\<rparr>))
      else if ex_api_key x = [] then ex_parse args (x\<lparr>ex_api_key := arg\<rparr>)
      else ex_parse args (x\<lparr>ex_api_secret := arg\<rparr>))"

section \<open>The program\<close>

text \<open>What \<open>usage\<close> prints.\<close>

definition ex_usage :: "string \<Rightarrow> string list" where
  "ex_usage app =
     [''Usage: '' @ app @ '' <Alpaca_API_KEY> <Alpaca_API_SECRET> -u [url]'',
      ''Options: '',
      ''    -u [URL]: WebSocket url. default to wss://stream.data.alpaca.markets/v2/iex'',
      ''    -p [websocket_proxy.exe path]: websocket_proxy.exe path. default to ./build/bin/<build config>/websocket_proxy.exe'']"

text \<open>What \<open>main\<close> comes to before it opens the connection: the usage text and the exit code, or a client.\<close>

datatype ex_start = Usage "string list" int | Undefined | Opens ex_args

definition ex_main :: "string list \<Rightarrow> ex_start" where
  "ex_main argv =
     (case argv of
        [] \<Rightarrow> Undefined
      | app # args \<Rightarrow>
          if args = [] then Usage (ex_usage app) 1
          else (case ex_parse args ex_args_init of
            None \<Rightarrow> Undefined
          | Some x \<Rightarrow> if ex_api_key x = [] \<or> ex_api_secret x = [] then Usage (ex_usage app) 1 else Opens x))"

text \<open>The client the program makes; it exits unless the executable of the proxy is there.\<close>

definition ex_client :: "bool \<Rightarrow> (nat \<Rightarrow> u64) \<Rightarrow> u64 \<Rightarrow> alpaca option" where
  "ex_client exe_exists clock p =
     (case WebsocketProxyClient_new exe_exists clock p ''AlpacaWebSocketClient'' of
        None \<Rightarrow> None
      | Some c \<Rightarrow> Some (AlpacaWebSocketClient_init c))"

definition ex_open :: "ex_args \<Rightarrow> alpaca \<Rightarrow> alpaca" where
  "ex_open x a = al_open_begin (ex_url x) (ex_api_key x) (ex_api_secret x) a"

definition ex_opened :: "('j, 'x) json_lib_scheme \<Rightarrow> bool \<Rightarrow> alpaca \<Rightarrow> alpaca option" where
  "ex_opened L opened a = (if opened then al_subscribe_begin L ''AAPL'' a else Some a)"

section \<open>Properties\<close>

text \<open>
  The credentials are read as the usage text says, the key before the secret, when no option is
  given; and the program asks the market for nothing without both.
\<close>

theorem ex_plain_args:
  assumes "key \<noteq> []" and "key \<noteq> ''-u''" and "secret \<noteq> []" and "secret \<noteq> ''-u''"
  shows "ex_main [app, key, secret] = Opens (ex_args_init\<lparr>ex_api_key := key, ex_api_secret := secret\<rparr>) \<and>
    ex_main [app, key] = Usage (ex_usage app) 1 \<and> ex_main [app] = Usage (ex_usage app) 1"
  using assms by (simp add: ex_main_def ex_args_init_def)

theorem ex_plain_args_example:
  "ex_main [''alpaca'', ''k'', ''s''] = Opens \<lparr>ex_url = ''wss://stream.data.alpaca.markets/v2/iex'',
     ex_api_key = ''k'', ex_api_secret = ''s''\<rparr>"
  using ex_plain_args [of "''k''" "''s''" "''alpaca''"] by (simp add: ex_args_init_def)

text \<open>
  The option \<open>-u\<close> destroys the credentials.  With the command line that the usage text documents,
  the url is also taken for the secret, in place of the one given; with \<open>-u\<close> in front it is taken for
  the key, and the given key is lost; \<open>-p\<close>, which the usage text offers, is not an option at all:
  the path becomes the secret.
\<close>

theorem ex_url_option:
  assumes "key \<noteq> []" and "key \<noteq> ''-u''" and "secret \<noteq> []" and "secret \<noteq> ''-u''" and "url \<noteq> []" and "url \<noteq> ''-u''"
  shows "ex_main [app, key, secret, ''-u'', url] = Opens \<lparr>ex_url = url, ex_api_key = key, ex_api_secret = url\<rparr> \<and>
    ex_main [app, ''-u'', url, key, secret] = Opens \<lparr>ex_url = url, ex_api_key = url, ex_api_secret = secret\<rparr> \<and>
    ex_main [app, key, secret, ''-p'', url] =
      Opens (ex_args_init\<lparr>ex_api_key := key, ex_api_secret := url\<rparr>)"
  using assms by (simp add: ex_main_def ex_args_init_def)

theorem ex_url_option_example:
  "ex_main [''alpaca'', ''k'', ''s'', ''-u'', ''wss://host.com''] =
     Opens \<lparr>ex_url = ''wss://host.com'', ex_api_key = ''k'', ex_api_secret = ''wss://host.com''\<rparr>"
  using ex_url_option [of "''k''" "''s''" "''wss://host.com''" "''alpaca''"] by simp

end
