(* ===== verification/Spec2Isabelle.thy ===== *)
theory Spec2Isabelle
  imports Ownership Main_Args Answers Sharing_Runs Shutdown_Run Stale_Requests Client_Worker Client_Race Alpaca_Worker Alpaca_Main
begin

text \<open>
  A model of the websocket proxy, and the properties that make it correct.

  \<^bold>\<open>The program.\<close>  One server process per user session keeps connections to websockets in the internet
  and shares them among client processes.  Clients write requests into a shared-memory queue; the
  server reads them, answers in the memory of the request itself, and publishes what happens on the
  sockets in a second queue that every client reads.  The server is \<open>src/websocket_proxy.cpp\<close> with
  \<open>src/websocket_proxy.h\<close> (class \<open>WebsocketProxy\<close>) and \<open>src/websocket.h\<close> (class \<open>Websocket\<close>), started by
  \<open>src/main.cpp\<close>; the client library is \<open>include/websocket_proxy/websocket_proxy_client.h\<close>; both sides
  share the message formats of \<open>include/websocket_proxy/types.h\<close>.  The directory \<open>example\<close> holds a client of
  a stock market's data feed, which uses the library.

  \<^bold>\<open>Theories and code.\<close>
  \<^item> \<open>Base\<close>: the contract of the maps the server keeps as locales (\<open>assoc_map\<close>, \<open>unordered_map\<close>), with
    association lists for the maps that are iterated over and functions for the others; reachability and
    the contract of a machine with an invariant (\<open>invariant_system\<close>); runs of a machine with labels and the
    contract of its refinement, step by step (\<open>labelled_refinement\<close>).
  \<^item> \<open>Bytes\<close>: memory, little-endian integers, C strings, decimal printing and parsing.
  \<^item> \<open>Wire\<close>: \<open>types.h\<close>.  A packed structure is the list of its fields; the accessors read and write memory
    at the offsets that follow from it.
  \<^item> \<open>Ws_Url\<close>: the parse of the url in the constructor of \<open>Websocket\<close>.
  \<^item> \<open>Proxy_State\<close>: the objects of the server.  A \<open>shared_ptr<Websocket>\<close> is a reference into \<open>heap\<close>, so
    that the two tables, the coroutines and the completion handlers share one object.
  \<^item> \<open>Callbacks\<close>: \<open>reserveMessage\<close>, \<open>sendMessageToClient\<close>, \<open>sendHeartbeat\<close>, \<open>onWsOpened\<close>, \<open>onWsClosed\<close>,
    \<open>onWsError\<close>, \<open>onWsData\<close>.
  \<^item> \<open>Ws_Connection\<close>: \<open>Websocket\<close>: construction, the coroutine \<open>open\<close>, \<open>close\<close>, \<open>send\<close>, \<open>fail\<close>, \<open>on_write\<close>,
    \<open>on_read\<close>, \<open>on_close\<close>.
  \<^item> \<open>Proxy\<close>: every handler of \<open>WebsocketProxy\<close>, from \<open>processClientMessage\<close> down; \<open>Proxy_Facts\<close> says field
    by field what they change.
  \<^item> \<open>Sharing\<close>: the abstract specification: a connection is the set of its clients and exists as long as
    this set is not empty (\<open>conns\<close>, \<open>abs_join\<close>, \<open>abs_leave\<close>, \<open>abs_unregister\<close>), and the invariant
    \<open>tables_ok\<close> of the concrete tables.  \<open>Proxy_Inv\<close> shows that every handler keeps it.
  \<^item> \<open>Event_Loop\<close>: \<open>WebsocketProxy::run\<close> as a step relation: the posted handlers, the coroutines and the
    completion handlers in any order, with any result, while the clients write what they like.  \<open>loop_can\<close>
    and \<open>loop_do\<close> are the same relation as a function of what happens (\<open>loop_label\<close>).
  \<^item> \<open>Server_Props\<close>, \<open>Server_Requests\<close>, \<open>Server_Open\<close>, \<open>Loop_Props\<close>: the properties of the server: leaving,
    heartbeats and shutdown; subscriptions and requests; opening; and whole runs.
  \<^item> \<open>Sharing_Machine\<close>: the server as a machine over its abstract state: \<open>event_at\<close> and \<open>dropped_at\<close> say, as
    functions of the state before a step and of its label, which event of the machine it is and which closed
    connections it drops, and every step does exactly that (\<open>step_exact\<close>).  \<open>Sharing_Runs\<close>: whole runs of
    the loop as runs of this machine, announcements of closed connections included.  \<open>Sharing_Limits\<close>:
    clients that leave too early, and attempts side by side.
  \<^item> \<open>Expiry\<close>: the check of the heartbeats against the clients' own requests to unregister.
  \<^item> \<open>Memory_Frame\<close>: which bytes of the shared memory the server may change, and that requests which wait
    stay as they are.  \<open>Answers\<close>: which requests are answered or worked on.  \<open>Stale_Requests\<close>: attempts whose
    request has been overwritten meanwhile.
  \<^item> \<open>Published\<close>: what the steps of the loop may emit, with the contract as a locale (\<open>emission\<close>), and the form
    of every message the server publishes.  \<open>Shutdown_Run\<close>: the closes the shutdown starts, and that the
    loop winds down after it.
  \<^item> \<open>Ownership\<close>: the constructor, the check at the start of \<open>run\<close> and the destructor, for any number of
    interleaved processes; the query for a running process (\<open>isProcessRunning\<close>) with its failures.
  \<^item> \<open>Client\<close>, \<open>Client_Facts\<close>, \<open>Client_Steps\<close>: \<open>WebsocketProxyClient\<close>, one definition per method and one
    for an iteration of the worker; its waits and its callbacks.
  \<^item> \<open>News\<close>: the messages of the server as values, and the worker against a reference definition over the log
    of what it reads (\<open>follows\<close>).  \<open>Informed\<close>: server and client over one log.
  \<^item> \<open>Client_Race\<close>: an iteration of the worker that an answer to the application overtakes.
  \<^item> \<open>Client_Worker\<close>: the worker thread from \<open>connect\<close> to the destructor, interleaved with the application.
  \<^item> \<open>Client_Props\<close>: client and server together, from a call to its effect on the other side.
  \<^item> \<open>Main_Args\<close>: \<open>main.cpp\<close> up to the server, and \<open>GetExePath\<close>.
  \<^item> \<open>Alpaca\<close>, \<open>Alpaca_Props\<close>: the example client, \<open>example/alpaca_websocket_client.h\<close>, with the JSON library as a
    parameter (\<open>json_lib\<close>), and its two threads as interleaved steps (\<open>al_step\<close>).  \<open>Alpaca_Worker\<close>: the library's
    iteration with the example's virtual functions inside it.  \<open>Alpaca_Main\<close>: \<open>example/main.cpp\<close>.

  \<^bold>\<open>State and operations.\<close>  A record holds the members of a class; a handler is a function from state to
  state.  \<open>clients\<close>, \<open>websocketsById\<close> and \<open>websocketsByUrlApiKey\<close> are the members of the same names with a
  trailing underscore.  A method that can throw yields \<open>Inl\<close> of the exception and the state it left; one
  that may not return is a \<open>partial_function\<close> of type option.  Machine integers are words of their width,
  times and their differences included, so that wrap-around is part of the model.

  \<^bold>\<open>What the properties show.\<close>  The server implements the abstract sharing of connections: opening joins or
  creates, closing leaves, unregistering and a lost heartbeat leave everything, and a connection is
  closed exactly when its last client is gone; what was published is what arrived, byte for byte, and
  each client is told exactly of its own connections; in every reachable state the tables agree, and
  every run is a run of the sharing machine; a client loses a connection only for a reason of its
  own, and a client that reads the log has open what the server shares with it; every request
  that expects a reply is answered or worked on, unless its url has a malformed port; the server writes
  nothing into shared memory but the answers; at most one server owns the session if processes start in
  order and no query for a running process fails; a shutdown closes every listed connection once and
  winds the loop down.  The example client reports an open connection only if since the call of \<open>open\<close>
  it was authenticated or the proxy already had the connection.  Some theorems describe what goes
  wrong: they are listed as findings beside this development.

  \<^bold>\<open>Code that is not in the repository.\<close>  The network library, the queues and the operating system are
  parameters.  The program's calls to them are recorded (\<open>trace\<close>, \<open>io\<close>); their results are arguments of
  the handlers, which \<open>loop_step\<close> leaves free.  \<open>environment\<close> holds the clock and the dynamic buffer;
  \<open>buffer_laws\<close>, the documented behaviour of \<open>commit\<close> and \<open>consume\<close>, is a named hypothesis where it is
  needed.  The client's clock is a function of the number of readings; that it gets past a timeout is a
  hypothesis of \<open>wait_ends\<close>.  A message is delivered at some address, \<open>holds\<close>; the queue itself, and the
  reuse of its memory once it has gone round, are not modelled.

  \<^bold>\<open>Not modelled.\<close>  Logging; TLS options; the security descriptor and the handles of the mapping; reading
  past the end of an array, which C++ leaves undefined (a string that fills its array without a NUL is
  taken to end there); a method of the client called before its first \<open>connect\<close>, which dereferences the
  null \<open>client_queue_\<close> (the model of the methods acts as if the queue were there); the interleaving inside
  a method of the library between the two threads of a client, except in \<open>Client_Race\<close>; the signal handler of the example.

  \<^bold>\<open>Bounds.\<close>  No fuel is used.  The recursions over the tables are structural; the waits of the client
  are proved to end where the clock allows it.

  \<^bold>\<open>Plan.\<close>  Next: several clients and the server as one system over both queues, so that a request is followed
  from the call to its answer along a run; and the reuse of a queue's memory as a law of the queue.
\<close>

end
